(* ===== verification/Go_Base.thy ===== *)
theory Go_Base
  imports Main "HOL-Library.Word" "HOL-Library.AList"
begin

text \<open>
  The prelude of the development: the part of the Go language and of its standard
  library that every component of the program uses.

  \<^item> Bytes and the unsigned integers of the wire formats are words, so a conversion
    such as \<open>uint16(len(x))\<close> wraps as it does in Go.
  \<^item> A Go call returns a value, an error value or panics: \<open>res\<close> has one constructor
    for each. \<open>go_bind\<close> is the \<open>if err != nil { return err }\<close> of the code.
  \<^item> A method that changes its receiver is a function from the state to the new state
    and a result; \<open>st_bind\<close> sequences such calls and keeps the state an early return
    leaves behind.
  \<^item> A \<open>[]byte\<close> that is built with \<open>append\<close> and patched through a slice
    expression is a \<open>buf\<close>: a backing array and a length, with Go's bounds checks.
  \<^item> Random numbers come from a tape, one entry for each read of \<open>rand.Reader\<close>.
  \<^item> A Go map whose size matters is an association list with distinct keys.
\<close>

unbundle bit_operations_syntax

section \<open>Lemma collections\<close>

named_theorems res_iff \<open>when a sequenced computation returns, fails or panics\<close>
named_theorems buf_simps \<open>what the buffer operations do to the visible bytes\<close>
named_theorems wire_simps \<open>big-endian integers on the wire\<close>

section \<open>Types\<close>

type_synonym byte = "8 word"
type_synonym u16 = "16 word"
type_synonym u32 = "32 word"
type_synonym bytes = "byte list"

text \<open>
  An error value: \<open>errors.New\<close> and \<open>fmt.Errorf\<close> without a verb give a message,
  \<open>fmt.Errorf\<close> with \<open>%w\<close> wraps another error, and \<open>ErrLib\<close> is an error that
  a library call outside the repository returned.
\<close>

datatype go_error = ErrMsg string | ErrWrap string go_error | ErrLib string | ErrNotExist string

datatype 'a res = Ok 'a | Err go_error | Panic string

type_synonym ('s, 'a) st = "'s \<Rightarrow> 's \<times> 'a res"

section \<open>Sequencing\<close>

primrec go_bind :: "'a res \<Rightarrow> ('a \<Rightarrow> 'b res) \<Rightarrow> 'b res" where
  "go_bind (Ok a) f = f a"
| "go_bind (Err e) f = Err e"
| "go_bind (Panic p) f = Panic p"

definition st_bind :: "('s, 'a) st \<Rightarrow> ('a \<Rightarrow> ('s, 'b) st) \<Rightarrow> ('s, 'b) st" where
  "st_bind m f s = (case m s of (s', r) \<Rightarrow>
     (case r of Ok a \<Rightarrow> f a s' | Err e \<Rightarrow> (s', Err e) | Panic p \<Rightarrow> (s', Panic p)))"

definition st_lift :: "'a res \<Rightarrow> ('s, 'a) st" where
  "st_lift r s = (s, r)"

definition is_panic :: "'a res \<Rightarrow> bool" where
  "is_panic r = (case r of Panic _ \<Rightarrow> True | _ \<Rightarrow> False)"

definition is_ok :: "'a res \<Rightarrow> bool" where
  "is_ok r = (case r of Ok _ \<Rightarrow> True | _ \<Rightarrow> False)"

lemma is_panic_simps [simp]:
  "is_panic (Panic p)" "\<not> is_panic (Ok a)" "\<not> is_panic (Err e)"
  by (simp_all add: is_panic_def)

lemma is_ok_simps [simp]:
  "is_ok (Ok a)" "\<not> is_ok (Panic p)" "\<not> is_ok (Err e)"
  by (simp_all add: is_ok_def)

lemma go_bind_Ok_iff [res_iff]: "go_bind r f = Ok b \<longleftrightarrow> (\<exists>a. r = Ok a \<and> f a = Ok b)"
  by (cases r) auto

lemma go_bind_Err_iff [res_iff]:
  "go_bind r f = Err e \<longleftrightarrow> r = Err e \<or> (\<exists>a. r = Ok a \<and> f a = Err e)"
  by (cases r) auto

lemma go_bind_Panic_iff [res_iff]:
  "go_bind r f = Panic p \<longleftrightarrow> r = Panic p \<or> (\<exists>a. r = Ok a \<and> f a = Panic p)"
  by (cases r) auto

lemma is_panic_go_bind [res_iff]:
  "is_panic (go_bind r f) \<longleftrightarrow> is_panic r \<or> (\<exists>a. r = Ok a \<and> is_panic (f a))"
  by (cases r) auto

lemma go_bind_assoc: "go_bind (go_bind r f) g = go_bind r (\<lambda>a. go_bind (f a) g)"
  by (cases r) auto

lemma st_lift_apply [simp]: "st_lift r s = (s, r)"
  by (simp add: st_lift_def)

lemma st_bind_Ok [simp]: "m s = (s', Ok a) \<Longrightarrow> st_bind m f s = f a s'"
  by (simp add: st_bind_def)

lemma st_bind_Err [simp]: "m s = (s', Err e) \<Longrightarrow> st_bind m f s = (s', Err e)"
  by (simp add: st_bind_def)

lemma st_bind_Panic [simp]: "m s = (s', Panic p) \<Longrightarrow> st_bind m f s = (s', Panic p)"
  by (simp add: st_bind_def)

lemma st_bind_Ok_iff [res_iff]:
  "st_bind m f s = (t, Ok b) \<longleftrightarrow> (\<exists>s' a. m s = (s', Ok a) \<and> f a s' = (t, Ok b))"
  by (auto simp: st_bind_def split: prod.splits res.splits)

lemma st_bind_cases:
  assumes "st_bind m f s = (t, r)"
  obtains (ok) s' a where "m s = (s', Ok a)" "f a s' = (t, r)"
    | (err) e where "m s = (t, Err e)" "r = Err e"
    | (panic) p where "m s = (t, Panic p)" "r = Panic p"
  using assms by (auto simp: st_bind_def split: prod.splits res.splits)

section \<open>Slice expressions\<close>

text \<open>
  \<open>xs[i:j]\<close>. Go allows \<open>j\<close> up to the capacity; every slice the program takes of a
  received message stays within the length, so the length is the bound here and the
  absence of panics is a theorem about the callers.
\<close>

definition go_slice :: "'a list \<Rightarrow> nat \<Rightarrow> nat \<Rightarrow> 'a list res" where
  "go_slice xs i j = (if i \<le> j \<and> j \<le> length xs then Ok (take (j - i) (drop i xs))
     else Panic ''slice bounds out of range'')"

definition go_index :: "'a list \<Rightarrow> nat \<Rightarrow> 'a res" where
  "go_index xs i = (if i < length xs then Ok (xs ! i) else Panic ''index out of range'')"

lemma go_slice_Ok [simp]:
  "i \<le> j \<Longrightarrow> j \<le> length xs \<Longrightarrow> go_slice xs i j = Ok (take (j - i) (drop i xs))"
  by (simp add: go_slice_def)

lemma go_index_Ok [simp]: "i < length xs \<Longrightarrow> go_index xs i = Ok (xs ! i)"
  by (simp add: go_index_def)

section \<open>Big-endian integers (encoding/binary)\<close>

definition Uint16 :: "bytes \<Rightarrow> u16 res" where
  "Uint16 b = (case b of b0 # b1 # _ \<Rightarrow> Ok (ucast b1 OR push_bit 8 (ucast b0))
     | _ \<Rightarrow> Panic ''index out of range'')"

definition be16 :: "u16 \<Rightarrow> bytes" where
  "be16 v = [ucast (drop_bit 8 v), ucast v]"

definition Uint32 :: "bytes \<Rightarrow> u32 res" where
  "Uint32 b = (case b of b0 # b1 # b2 # b3 # _ \<Rightarrow>
      Ok (ucast b3 OR push_bit 8 (ucast b2) OR push_bit 16 (ucast b1) OR push_bit 24 (ucast b0))
     | _ \<Rightarrow> Panic ''index out of range'')"

definition be32 :: "u32 \<Rightarrow> bytes" where
  "be32 v = [ucast (drop_bit 24 v), ucast (drop_bit 16 v), ucast (drop_bit 8 v), ucast v]"

lemma length_be16 [simp, wire_simps]: "length (be16 v) = 2"
  by (simp add: be16_def)

lemma length_be32 [simp, wire_simps]: "length (be32 v) = 4"
  by (simp add: be32_def)

lemma Uint16_be16 [simp, wire_simps]: "Uint16 (be16 v @ rest) = Ok v"
  by (auto simp: Uint16_def be16_def intro!: bit_word_eqI) (auto simp: bit_simps)

lemma byte_bit_bound: "bit (b :: byte) n \<Longrightarrow> n < 8"
  using bit_imp_le_length [of b n] by simp

lemma Uint32_be32 [simp, wire_simps]: "Uint32 (be32 v @ rest) = Ok v"
proof -
  have "ucast (ucast v :: byte) OR push_bit 8 (ucast (ucast (drop_bit 8 v) :: byte)) OR
     push_bit 16 (ucast (ucast (drop_bit 16 v) :: byte)) OR
     push_bit 24 (ucast (ucast (drop_bit 24 v) :: byte)) = v" (is "?w = v")
  proof (rule bit_word_eqI)
    fix n assume n: "n < LENGTH(32)"
    consider "n < 8" | "8 \<le> n" "n < 16" | "16 \<le> n" "n < 24" | "24 \<le> n" "n < 32"
      using n by fastforce
    then show "bit ?w n \<longleftrightarrow> bit v n"
      using n by cases (auto simp: bit_simps)
  qed
  then show ?thesis
    by (simp add: Uint32_def be32_def)
qed

lemma be16_Uint16: "Uint16 b = Ok v \<Longrightarrow> be16 v = take 2 b"
  by (auto simp: Uint16_def be16_def split: list.splits intro!: bit_word_eqI)
     (auto simp: bit_simps dest: byte_bit_bound)

lemma be32_Uint32:
  assumes "Uint32 b = Ok v"
  shows "be32 v = take 4 b"
proof -
  obtain b0 b1 b2 b3 r where b: "b = b0 # b1 # b2 # b3 # r"
    and v: "v = ucast b3 OR push_bit 8 (ucast b2) OR push_bit 16 (ucast b1) OR push_bit 24 (ucast b0)"
    using assms by (auto simp: Uint32_def split: list.splits)
  have "ucast (drop_bit 24 v) = b0" "ucast (drop_bit 16 v) = b1" "ucast (drop_bit 8 v) = b2"
    "ucast v = b3"
    unfolding v by (rule bit_word_eqI; auto simp: bit_simps dest: byte_bit_bound; fail)+
  then show ?thesis
    by (simp add: be32_def b)
qed

lemma Uint16_total: "2 \<le> length b \<Longrightarrow> \<exists>v. Uint16 b = Ok v"
  by (auto simp: Uint16_def split: list.splits)

lemma Uint32_total: "4 \<le> length b \<Longrightarrow> \<exists>v. Uint32 b = Ok v"
  by (auto simp: Uint32_def split: list.splits)

lemma be16_inject [simp]: "be16 v = be16 w \<longleftrightarrow> v = w"
  by (metis Uint16_be16 res.inject(1))

lemma be32_inject [simp]: "be32 v = be32 w \<longleftrightarrow> v = w"
  by (metis Uint32_be32 res.inject(1))

section \<open>Strings\<close>

text \<open>A Go string is a sequence of bytes; so is an Isabelle \<open>string\<close>.\<close>

definition bytes_of_string :: "string \<Rightarrow> bytes" where
  "bytes_of_string s = map (\<lambda>c. of_nat (of_char c)) s"

definition string_of_bytes :: "bytes \<Rightarrow> string" where
  "string_of_bytes bs = map (\<lambda>b. char_of (unat b)) bs"

lemma length_bytes_of_string [simp]: "length (bytes_of_string s) = length s"
  by (simp add: bytes_of_string_def)

lemma length_string_of_bytes [simp]: "length (string_of_bytes s) = length s"
  by (simp add: string_of_bytes_def)

lemma of_char_bound: "(of_char c :: nat) < 256"
proof -
  have "(of_char c :: nat) = of_char (char_of (of_char c :: nat) :: char)" by simp
  also have "\<dots> = of_char c mod 256" by (simp only: of_char_of)
  finally show ?thesis by (metis mod_less_divisor zero_less_numeral)
qed

lemma unat_of_char: "unat (of_nat (of_char c) :: byte) = of_char c"
  using of_char_bound [of c] by (simp add: unat_of_nat)

lemma string_of_bytes_of_string [simp]: "string_of_bytes (bytes_of_string s) = s"
  by (simp add: bytes_of_string_def string_of_bytes_def unat_of_char map_idI)

lemma bytes_of_string_of_bytes [simp]: "bytes_of_string (string_of_bytes b) = b"
proof -
  have "of_nat (of_char (char_of (unat x) :: char)) = x" for x :: byte
    using unsigned_less [of x, where ?'a = nat] by (simp add: of_char_of)
  then show ?thesis
    by (simp add: bytes_of_string_def string_of_bytes_def map_idI)
qed

section \<open>Buffers: make, append and writes through a slice expression\<close>

text \<open>
  \<open>buf := make([]byte, n, cap)\<close> is a backing array of \<open>cap\<close> bytes of which the first
  \<open>n\<close> are visible. \<open>append\<close> writes in place while the capacity lasts and otherwise
  moves to a new array; Go leaves the size of that array open, the model takes the
  smallest. A slice expression \<open>buf[i:j]\<close> may reach past the length up to the capacity,
  so \<open>binary.BigEndian.PutUint16(buf[i:j], v)\<close> may write bytes that are not visible.
\<close>

record buf =
  backing :: bytes
  blen :: nat

definition make_buf :: "nat \<Rightarrow> nat \<Rightarrow> buf" where
  "make_buf n cap = \<lparr>backing = replicate cap 0, blen = n\<rparr>"

definition buf_bytes :: "buf \<Rightarrow> bytes" where
  "buf_bytes b = take (blen b) (backing b)"

definition buf_append :: "buf \<Rightarrow> bytes \<Rightarrow> buf" where
  "buf_append b xs =
     (if blen b + length xs \<le> length (backing b)
      then b\<lparr>backing := take (blen b) (backing b) @ xs @ drop (blen b + length xs) (backing b),
             blen := blen b + length xs\<rparr>
      else \<lparr>backing = buf_bytes b @ xs, blen = blen b + length xs\<rparr>)"

definition buf_put :: "buf \<Rightarrow> nat \<Rightarrow> nat \<Rightarrow> bytes \<Rightarrow> buf res" where
  "buf_put b i j xs =
     (if \<not> (i \<le> j \<and> j \<le> length (backing b)) then Panic ''slice bounds out of range''
      else if j - i < length xs then Panic ''index out of range''
      else Ok (b\<lparr>backing := take i (backing b) @ xs @ drop (i + length xs) (backing b)\<rparr>))"

text \<open>\<open>buf[len(buf)-n:]\<close>: the lower bound is negative when the buffer is shorter.\<close>

definition buf_put_tail :: "buf \<Rightarrow> nat \<Rightarrow> bytes \<Rightarrow> buf res" where
  "buf_put_tail b n xs =
     (if blen b < n then Panic ''slice bounds out of range''
      else buf_put b (blen b - n) (blen b) xs)"

definition buf_ok :: "buf \<Rightarrow> bool" where
  "buf_ok b \<longleftrightarrow> blen b \<le> length (backing b)"

definition buf_cap :: "buf \<Rightarrow> nat" where
  "buf_cap b = length (backing b)"

lemma buf_ok_make [simp, buf_simps]: "n \<le> cap \<Longrightarrow> buf_ok (make_buf n cap)"
  by (simp add: buf_ok_def make_buf_def)

lemma buf_make [simp, buf_simps]:
  "buf_bytes (make_buf 0 cap) = []" "blen (make_buf n cap) = n" "buf_cap (make_buf n cap) = cap"
  by (simp_all add: buf_bytes_def make_buf_def buf_cap_def)

lemma length_buf_bytes [simp, buf_simps]: "buf_ok b \<Longrightarrow> length (buf_bytes b) = blen b"
  by (simp add: buf_bytes_def buf_ok_def)

lemma blen_append [simp, buf_simps]: "blen (buf_append b xs) = blen b + length xs"
  by (simp add: buf_append_def)

lemma buf_ok_append [simp, buf_simps]: "buf_ok b \<Longrightarrow> buf_ok (buf_append b xs)"
  by (auto simp: buf_ok_def buf_append_def buf_bytes_def)

lemma buf_bytes_append [simp, buf_simps]:
  "buf_ok b \<Longrightarrow> buf_bytes (buf_append b xs) = buf_bytes b @ xs"
  by (auto simp: buf_bytes_def buf_append_def buf_ok_def)

lemma buf_cap_append [simp, buf_simps]:
  "blen b + length xs \<le> buf_cap b \<Longrightarrow> buf_cap (buf_append b xs) = buf_cap b"
  by (auto simp: buf_cap_def buf_append_def)

text \<open>A write past the visible bytes leaves them alone.\<close>

lemma buf_put_beyond:
  assumes "buf_ok b" "blen b \<le> i" "i + length xs \<le> j" "j \<le> buf_cap b"
  obtains b' where "buf_put b i j xs = Ok b'" "buf_ok b'" "buf_bytes b' = buf_bytes b"
    "blen b' = blen b" "buf_cap b' = buf_cap b"
proof -
  have "\<not> j - i < length xs" using assms(3) by simp
  with assms that show thesis
    by (simp add: buf_put_def buf_ok_def buf_bytes_def buf_cap_def)
qed

text \<open>A write inside the visible bytes replaces exactly the bytes it covers.\<close>

lemma buf_put_inside:
  assumes "buf_ok b" "buf_bytes b = pre @ old @ post" "length old = length xs"
    and "i = length pre" "j = i + length xs"
  obtains b' where "buf_put b i j xs = Ok b'" "buf_ok b'" "buf_bytes b' = pre @ xs @ post"
    "blen b' = blen b" "buf_cap b' = buf_cap b"
proof -
  define rest where "rest = drop (blen b) (backing b)"
  have arr: "backing b = pre @ old @ post @ rest"
    using assms(2) by (metis append_assoc append_take_drop_id buf_bytes_def rest_def)
  have len: "blen b = length pre + length old + length post"
    using assms(1,2) by (metis add.assoc length_append length_buf_bytes)
  have "buf_put b i j xs = Ok (b\<lparr>backing := pre @ xs @ post @ rest\<rparr>)"
    using assms(3-5) by (simp add: buf_put_def arr)
  moreover have "buf_ok (b\<lparr>backing := pre @ xs @ post @ rest\<rparr>)"
    using len assms(3) by (simp add: buf_ok_def)
  moreover have "buf_bytes (b\<lparr>backing := pre @ xs @ post @ rest\<rparr>) = pre @ xs @ post"
    using len assms(3) by (simp add: buf_bytes_def)
  moreover have "buf_cap (b\<lparr>backing := pre @ xs @ post @ rest\<rparr>) = buf_cap b"
    using arr assms(3) by (simp add: buf_cap_def)
  ultimately show thesis
    using that by simp
qed

lemma buf_put_tail_append:
  assumes "buf_ok b" "length old = length xs"
  obtains b' where "buf_put_tail (buf_append b old) (length xs) xs = Ok b'" "buf_ok b'"
    "buf_bytes b' = buf_bytes b @ xs"
proof -
  obtain b' where "buf_put (buf_append b old) (blen b) (blen b + length xs) xs = Ok b'"
    "buf_ok b'" "buf_bytes b' = buf_bytes b @ xs @ []"
    by (rule buf_put_inside [of "buf_append b old" "buf_bytes b" old "[]" xs])
       (use assms in simp_all)
  then show thesis
    using assms that by (simp add: buf_put_tail_def)
qed

section \<open>Random numbers\<close>

text \<open>
  One entry of the tape per read of \<open>rand.Reader\<close>: \<open>Some bs\<close> supplies the bytes of the
  read (cut or zero-padded to the length asked for), \<open>None\<close> is a failing read, and so is
  the end of the tape. \<open>io.ReadFull\<close> reports a failure as an error; \<open>rand.Read\<close> of
  \<open>crypto/rand\<close> never returns one and stops the program instead.
\<close>

type_synonym rng = "bytes option list"

definition fit :: "nat \<Rightarrow> bytes \<Rightarrow> bytes" where
  "fit n bs = take n (bs @ replicate n 0)"

fun ReadFull :: "nat \<Rightarrow> (rng, bytes) st" where
  "ReadFull n [] = ([], Err (ErrLib ''EOF''))"
| "ReadFull n (None # r) = (r, Err (ErrLib ''entropy source failed''))"
| "ReadFull n (Some bs # r) = (r, Ok (fit n bs))"

definition rand_Read :: "nat \<Rightarrow> (rng, bytes) st" where
  "rand_Read n r = (case ReadFull n r of
      (r', Ok bs) \<Rightarrow> (r', Ok bs)
    | (r', _) \<Rightarrow> (r', Panic ''crypto/rand: failed to read random data''))"

lemma length_fit [simp]: "length (fit n bs) = n"
  by (simp add: fit_def)

lemma fit_id [simp]: "length bs = n \<Longrightarrow> fit n bs = bs"
  by (simp add: fit_def)

lemma ReadFull_length: "ReadFull n r = (r', Ok bs) \<Longrightarrow> length bs = n"
  by (cases "(n, r)" rule: ReadFull.cases) auto

lemma rand_Read_length: "rand_Read n r = (r', Ok bs) \<Longrightarrow> length bs = n"
  by (auto simp: rand_Read_def split: prod.splits res.splits dest: ReadFull_length)

text \<open>What was drawn came from the head of the tape.\<close>

lemma ReadFull_Ok: "ReadFull n r = (r', Ok bs) \<Longrightarrow> \<exists>d. r = Some d # r' \<and> bs = fit n d"
  by (cases "(n, r)" rule: ReadFull.cases) auto

lemma rand_Read_Ok: "rand_Read n r = (r', Ok bs) \<Longrightarrow> \<exists>d. r = Some d # r' \<and> bs = fit n d"
  by (auto simp: rand_Read_def split: prod.splits res.splits dest: ReadFull_Ok)

lemma rand_Read_Some [simp]: "rand_Read n (Some bs # r) = (r, Ok (fit n bs))"
  by (simp add: rand_Read_def)

section \<open>Maps with a size\<close>

text \<open>
  A Go map as an association list: lookup is \<open>map_of\<close>, \<open>m[k] = v\<close> is
  \<open>AList.update\<close>, \<open>delete(m, k)\<close> is \<open>AList.delete\<close> and \<open>len(m)\<close> is \<open>length\<close>.
  The two lemmas say what the last does under the first two when the keys are distinct.
\<close>

abbreviation keys :: "('k \<times> 'v) list \<Rightarrow> 'k set" where
  "keys m \<equiv> fst ` set m"

lemma length_update_alist:
  "length (AList.update k v m) = (if k \<in> keys m then length m else Suc (length m))"
  by (induction m) auto

lemma keys_update_alist: "keys (AList.update k v m) = insert k (keys m)"
  using dom_update [of k v m] by simp

lemma keys_delete_alist: "keys (AList.delete k m) = keys m - {k}"
  by (metis AList.delete_keys set_map set_removeAll)

lemma length_delete_alist:
  assumes "distinct (map fst m)"
  shows "length (AList.delete k m) = (if k \<in> keys m then length m - 1 else length m)"
proof -
  have "length (AList.delete k m) = length (removeAll k (map fst m))"
    by (metis AList.delete_keys length_map)
  also have "\<dots> = length (remove1 k (map fst m))"
    using assms by (simp add: distinct_remove1_removeAll)
  finally show ?thesis
    by (simp add: length_remove1)
qed

lemma map_of_delete_alist: "map_of (AList.delete k m) = (map_of m)(k := None)"
  by (simp add: AList.delete_conv')

lemma length_alist_card: "distinct (map fst m) \<Longrightarrow> length m = card (keys m)"
  by (metis distinct_card length_map set_map)

section \<open>Decimal numbers in strings\<close>

text \<open>What \<open>%d\<close> prints.\<close>

fun nat_digits :: "nat \<Rightarrow> string" where
  "nat_digits n = (if n < 10 then [char_of (48 + n)]
     else nat_digits (n div 10) @ [char_of (48 + n mod 10)])"

declare nat_digits.simps [simp del]

definition go_itoa :: "int \<Rightarrow> string" where
  "go_itoa i = (if i < 0 then CHR ''-'' # nat_digits (nat (- i)) else nat_digits (nat i))"

section \<open>Methods on an object\<close>

text \<open>
  A method that may assign to fields of its receiver and draw random numbers works on the
  pair of the object and the tape. \<open>drawing\<close> runs a call that only draws, \<open>acting\<close> one that
  only works on the object, \<open>assign\<close> is an assignment to fields, \<open>reading\<close> reads them, and
  \<open>deref\<close> follows a pointer that may be nil.
\<close>

type_synonym ('o, 'a) meth = "('o \<times> rng, 'a) st"

definition drawing :: "(rng, 'a) st \<Rightarrow> ('o, 'a) meth" where
  "drawing m = (\<lambda>(h, r). case m r of (r', x) \<Rightarrow> ((h, r'), x))"

definition acting :: "('o, 'a) st \<Rightarrow> ('o, 'a) meth" where
  "acting m = (\<lambda>(h, r). case m h of (h', x) \<Rightarrow> ((h', r), x))"

definition assign :: "('o \<Rightarrow> 'o) \<Rightarrow> ('o, unit) meth" where
  "assign f = (\<lambda>(h, r). ((f h, r), Ok ()))"

definition reading :: "('o \<Rightarrow> 'a) \<Rightarrow> ('o, 'a) meth" where
  "reading f = (\<lambda>(h, r). ((h, r), Ok (f h)))"

definition deref :: "'a option \<Rightarrow> 'a res" where
  "deref p = (case p of None \<Rightarrow> Panic ''nil pointer dereference'' | Some a \<Rightarrow> Ok a)"

lemma deref_simps [simp]: "deref None = Panic ''nil pointer dereference''" "deref (Some a) = Ok a"
  by (simp_all add: deref_def)

lemma deref_Ok_iff [res_iff]: "deref p = Ok a \<longleftrightarrow> p = Some a"
  by (cases p) auto

text \<open>Running a method one statement at a time.\<close>

lemma meth_run [simp]:
  "st_bind (assign g) f (h, r) = f () (g h, r)"
  "st_bind (reading sel) f (h, r) = f (sel h) (h, r)"
  "st_bind (st_lift (Ok a)) f s = f a s"
  "st_bind (st_lift (Err e)) f s = (s, Err e)"
  "st_bind (st_lift (Panic p)) f s = (s, Panic p)"
  by (simp_all add: st_bind_def assign_def reading_def)

lemma drawing_run:
  "st_bind (drawing m) f (h, r) = (case m r of
      (r', Ok a) \<Rightarrow> f a (h, r') | (r', Err e) \<Rightarrow> ((h, r'), Err e) | (r', Panic p) \<Rightarrow> ((h, r'), Panic p))"
  by (simp add: st_bind_def drawing_def split: prod.splits res.splits)

lemma acting_run:
  "acting m (h, r) = ((fst (m h), r), snd (m h))"
  "st_bind (acting m) f (h, r) = (case m h of
      (h', Ok a) \<Rightarrow> f a (h', r) | (h', Err e) \<Rightarrow> ((h', r), Err e) | (h', Panic p) \<Rightarrow> ((h', r), Panic p))"
  by (simp_all add: st_bind_def acting_def split: prod.splits res.splits)

lemma drawing_Ok [simp]: "m r = (r', Ok a) \<Longrightarrow> st_bind (drawing m) f (h, r) = f a (h, r')"
  by (simp add: drawing_run)

end
