(* ===== verification/Crypto.thy ===== *)
theory Crypto
  imports Go_Base
begin

text \<open>
  Package \<open>pkg/crypto\<close>: \<open>aesgcm.go\<close>, \<open>kdf.go\<close>, \<open>memory.go\<close>, \<open>mldsa.go\<close> and
  \<open>mlkem.go\<close>.

  The primitives themselves (ML-KEM-768, Ed25519, AES-GCM, SHA-256, HKDF) are calls into
  Go's \<open>crypto\<close> packages. They are a parameter of the model, the record \<open>crypto_lib\<close>;
  what is modelled here is what the repository does around them: the size checks, the
  error and panic paths, the nonce that is prepended, the chained hash, the clearing
  loop. What the callers rely on is stated as four predicates on the library
  (\<open>kem_laws\<close>, \<open>aead_laws\<close>, \<open>sig_laws\<close>, \<open>hash_laws\<close>), each the documented
  behaviour of the package concerned.
\<close>

section \<open>The library\<close>

text \<open>
  A decapsulation key is determined by its 64-byte seed and an encapsulation key by its
  encoding, so the opaque key objects of \<open>crypto/mlkem\<close> are their byte strings here.
\<close>

record crypto_lib =
  lib_kem_ek :: "bytes \<Rightarrow> bytes"                      \<comment> \<open>seed to encapsulation key\<close>
  lib_kem_valid :: "bytes \<Rightarrow> bool"                   \<comment> \<open>NewEncapsulationKey768 accepts\<close>
  lib_kem_encaps :: "bytes \<Rightarrow> bytes \<Rightarrow> bytes \<times> bytes" \<comment> \<open>key, coins to secret, ciphertext\<close>
  lib_kem_decaps :: "bytes \<Rightarrow> bytes \<Rightarrow> bytes"         \<comment> \<open>seed, ciphertext to secret\<close>
  lib_ed_pub :: "bytes \<Rightarrow> bytes"                      \<comment> \<open>seed to public key\<close>
  lib_ed_sign :: "bytes \<Rightarrow> bytes \<Rightarrow> bytes"            \<comment> \<open>private key, message to signature\<close>
  lib_ed_verify :: "bytes \<Rightarrow> bytes \<Rightarrow> bytes \<Rightarrow> bool"  \<comment> \<open>public key, message, signature\<close>
  lib_seal :: "bytes \<Rightarrow> bytes \<Rightarrow> bytes \<Rightarrow> bytes"      \<comment> \<open>key, nonce, plaintext\<close>
  lib_open :: "bytes \<Rightarrow> bytes \<Rightarrow> bytes \<Rightarrow> bytes option"
  lib_sha256 :: "bytes \<Rightarrow> bytes"
  lib_hkdf :: "bytes \<Rightarrow> bytes \<Rightarrow> string \<Rightarrow> nat \<Rightarrow> bytes" \<comment> \<open>secret, salt, info, length\<close>

definition kem_laws :: "crypto_lib \<Rightarrow> bool" where
  "kem_laws c \<longleftrightarrow>
     (\<forall>seed. length seed = 64 \<longrightarrow> lib_kem_valid c (lib_kem_ek c seed)) \<and>
     (\<forall>pk. lib_kem_valid c pk \<longrightarrow> length pk = 1184) \<and>
     (\<forall>pk m. lib_kem_valid c pk \<longrightarrow> length (fst (lib_kem_encaps c pk m)) = 32 \<and>
        length (snd (lib_kem_encaps c pk m)) = 1088) \<and>
     (\<forall>seed ct. length (lib_kem_decaps c seed ct) = 32) \<and>
     (\<forall>seed m. length seed = 64 \<longrightarrow>
        lib_kem_decaps c seed (snd (lib_kem_encaps c (lib_kem_ek c seed) m)) =
        fst (lib_kem_encaps c (lib_kem_ek c seed) m))"

definition aead_laws :: "crypto_lib \<Rightarrow> bool" where
  "aead_laws c \<longleftrightarrow>
     (\<forall>k n p. length k = 32 \<longrightarrow> length n = 12 \<longrightarrow>
        lib_open c k n (lib_seal c k n p) = Some p \<and>
        length (lib_seal c k n p) = length p + 16) \<and>
     (\<forall>k n ct p. lib_open c k n ct = Some p \<longrightarrow> length ct = length p + 16)"

definition sig_laws :: "crypto_lib \<Rightarrow> bool" where
  "sig_laws c \<longleftrightarrow>
     (\<forall>seed. length (lib_ed_pub c seed) = 32) \<and>
     (\<forall>priv m. length (lib_ed_sign c priv m) = 64) \<and>
     (\<forall>seed m. length seed = 32 \<longrightarrow>
        lib_ed_verify c (lib_ed_pub c seed) m (lib_ed_sign c (seed @ lib_ed_pub c seed) m))"

definition hash_laws :: "crypto_lib \<Rightarrow> bool" where
  "hash_laws c \<longleftrightarrow> (\<forall>m. length (lib_sha256 c m) = 32) \<and>
     (\<forall>secret salt info n. length (lib_hkdf c secret salt info n) = n)"

section \<open>aesgcm.go\<close>

definition gcm_NonceSize :: nat where
  "gcm_NonceSize = 12"

text \<open>\<open>Seal\<close> panics on a plaintext longer than \<open>(2^32 - 2)\<close> blocks.\<close>

definition gcm_max :: nat where
  "gcm_max = (2 ^ 32 - 2) * 16"

definition aes_NewCipher :: "bytes \<Rightarrow> bytes res" where
  "aes_NewCipher key = (if length key = 16 \<or> length key = 24 \<or> length key = 32 then Ok key
     else Err (ErrLib ''crypto/aes: invalid key size''))"

definition gcm_Seal :: "crypto_lib \<Rightarrow> bytes \<Rightarrow> bytes \<Rightarrow> bytes \<Rightarrow> bytes \<Rightarrow> bytes res" where
  "gcm_Seal c block dst nonce pt =
     (if gcm_max < length pt then Panic ''crypto/cipher: message too large for GCM''
      else Ok (dst @ lib_seal c block nonce pt))"

definition gcm_Open :: "crypto_lib \<Rightarrow> bytes \<Rightarrow> bytes \<Rightarrow> bytes \<Rightarrow> bytes res" where
  "gcm_Open c block nonce ct = (case lib_open c block nonce ct of
      Some p \<Rightarrow> Ok p
    | None \<Rightarrow> Err (ErrLib ''cipher: message authentication failed''))"

definition AESGCMEncrypt :: "crypto_lib \<Rightarrow> bytes \<Rightarrow> bytes \<Rightarrow> (rng, bytes) st" where
  "AESGCMEncrypt c key plaintext =
     (if length key \<noteq> 32
      then st_lift (Err (ErrMsg ''invalid key size: must be 32 bytes for AES-256''))
      else st_bind (st_lift (aes_NewCipher key)) (\<lambda>block.
           st_bind (ReadFull gcm_NonceSize) (\<lambda>nonce.
           st_lift (gcm_Seal c block nonce nonce plaintext))))"

definition AESGCMDecrypt :: "crypto_lib \<Rightarrow> bytes \<Rightarrow> bytes \<Rightarrow> bytes res" where
  "AESGCMDecrypt c key ciphertext =
     (if length key \<noteq> 32
      then Err (ErrMsg ''invalid key size: must be 32 bytes for AES-256'')
      else go_bind (aes_NewCipher key) (\<lambda>block.
           if length ciphertext < gcm_NonceSize then Err (ErrMsg ''ciphertext too short'')
           else go_bind (go_slice ciphertext 0 gcm_NonceSize) (\<lambda>nonce.
                go_bind (go_slice ciphertext gcm_NonceSize (length ciphertext)) (\<lambda>cipherdata.
                gcm_Open c block nonce cipherdata))))"

section \<open>kdf.go\<close>

definition hkdf_Key :: "crypto_lib \<Rightarrow> bytes \<Rightarrow> bytes \<Rightarrow> string \<Rightarrow> nat \<Rightarrow> bytes res" where
  "hkdf_Key c secret salt info n =
     (if 255 * 32 < n then Err (ErrLib ''hkdf: requested key length too large'')
      else Ok (lib_hkdf c secret salt info n))"

definition HKDF :: "crypto_lib \<Rightarrow> bytes \<Rightarrow> bytes \<Rightarrow> bytes \<Rightarrow> int \<Rightarrow> bytes res" where
  "HKDF c secret salt info n =
     (if n \<le> 0 then Err (ErrMsg ''invalid length: must be positive'')
      else let salt = (if length salt = 0 then replicate 32 0 else salt)
           in hkdf_Key c secret salt (string_of_bytes info) (nat n))"

definition SHA256Hash :: "crypto_lib \<Rightarrow> bytes \<Rightarrow> bytes" where
  "SHA256Hash c data = lib_sha256 c data"

text \<open>The loop of \<open>SHAKE256\<close>: counter, last block and output so far.\<close>

function shake_loop :: "crypto_lib \<Rightarrow> bytes \<Rightarrow> int \<Rightarrow> int \<Rightarrow> bytes \<Rightarrow> bytes \<Rightarrow> bytes res" where
  "shake_loop c data n i block result =
     (if i < n then
        let block = lib_sha256 c (if i > 0 then block else data);
            remaining = n - i
        in if remaining > 32 then shake_loop c data n (i + 32) block (result @ block)
           else go_bind (go_slice block 0 (nat remaining)) (\<lambda>part.
                shake_loop c data n (i + 32) block (result @ part))
      else Ok result)"
  by pat_completeness auto
termination
  by (relation "measure (\<lambda>(c, data, n, i, block, result). nat (n - i))") auto

declare shake_loop.simps [simp del]

definition SHAKE256 :: "crypto_lib \<Rightarrow> bytes \<Rightarrow> int \<Rightarrow> bytes res" where
  "SHAKE256 c data n =
     (if n \<le> 32
      then (if n < 0 then Panic ''slice bounds out of range''
            else go_slice (lib_sha256 c data) 0 (nat n))
      else shake_loop c data n 0 (replicate 32 0) [])"

section \<open>memory.go\<close>

text \<open>
  \<open>SecureClear\<close> writes every byte in four rounds: zero, \<open>0xFF\<close>, \<open>0xAA\<close> and a
  fresh random byte. The result is the content of the array afterwards.
\<close>

definition clear_value :: "nat \<Rightarrow> (rng, byte) st" where
  "clear_value round r =
     (if round = 0 then (r, Ok 0) else if round = 1 then (r, Ok 0xFF)
      else if round = 2 then (r, Ok 0xAA)
      else st_bind (rand_Read 1) (\<lambda>b. st_lift (go_index b 0)) r)"

fun clear_round :: "nat \<Rightarrow> nat list \<Rightarrow> bytes \<Rightarrow> (rng, bytes) st" where
  "clear_round round [] data = st_lift (Ok data)"
| "clear_round round (i # is) data =
     st_bind (clear_value round) (\<lambda>b. clear_round round is (data[i := b]))"

fun clear_rounds :: "nat list \<Rightarrow> bytes \<Rightarrow> (rng, bytes) st" where
  "clear_rounds [] data = st_lift (Ok data)"
| "clear_rounds (k # ks) data =
     st_bind (clear_round k [0..<length data] data) (\<lambda>data. clear_rounds ks data)"

definition SecureClear :: "bytes \<Rightarrow> (rng, bytes) st" where
  "SecureClear data = (if length data = 0 then st_lift (Ok data)
     else clear_rounds [0..<4] data)"

definition SecureMakeSlice :: "int \<Rightarrow> bytes res" where
  "SecureMakeSlice n = (if n < 0 then Panic ''makeslice: len out of range''
     else Ok (replicate (nat n) 0))"

text \<open>\<open>None\<close> is a nil \<open>*string\<close>.\<close>

definition ZeroString :: "string option \<Rightarrow> string option" where
  "ZeroString s = (case s of None \<Rightarrow> None | Some t \<Rightarrow> if t = [] then Some t else Some [])"

section \<open>mldsa.go (Ed25519 and its ML-DSA aliases)\<close>

record Ed25519KeyPair =
  dsa_Public :: bytes
  dsa_Private :: bytes

definition Ed25519SeedSize :: nat where "Ed25519SeedSize = 32"

definition Ed25519PublicKeySize :: nat where "Ed25519PublicKeySize = 32"

definition Ed25519PrivateKeySize :: nat where "Ed25519PrivateKeySize = 64"

definition Ed25519SignatureSize :: nat where "Ed25519SignatureSize = 64"

text \<open>\<open>ed25519.GenerateKey\<close> reads a seed; the private key is the seed and the public key.\<close>

definition GenerateEd25519Keypair :: "crypto_lib \<Rightarrow> (rng, Ed25519KeyPair) st" where
  "GenerateEd25519Keypair c = st_bind (ReadFull 32) (\<lambda>seed.
     st_lift (Ok \<lparr>dsa_Public = lib_ed_pub c seed, dsa_Private = seed @ lib_ed_pub c seed\<rparr>))"

text \<open>\<open>ed25519.Sign\<close> and \<open>ed25519.Verify\<close> panic on a key of the wrong length.\<close>

definition ed25519_Sign :: "crypto_lib \<Rightarrow> bytes \<Rightarrow> bytes \<Rightarrow> bytes res" where
  "ed25519_Sign c priv m = (if length priv \<noteq> 64 then Panic ''ed25519: bad private key length''
     else Ok (lib_ed_sign c priv m))"

definition ed25519_Verify :: "crypto_lib \<Rightarrow> bytes \<Rightarrow> bytes \<Rightarrow> bytes \<Rightarrow> bool res" where
  "ed25519_Verify c pub m sig = (if length pub \<noteq> 32 then Panic ''ed25519: bad public key length''
     else Ok (length sig = 64 \<and> lib_ed_verify c pub m sig))"

definition Ed25519Sign :: "crypto_lib \<Rightarrow> bytes \<Rightarrow> bytes \<Rightarrow> bytes res" where
  "Ed25519Sign c privateKey m =
     (if length privateKey < Ed25519PrivateKeySize
      then Err (ErrMsg ''invalid private key size: expected 64 bytes'')
      else ed25519_Sign c privateKey m)"

definition Ed25519Verify :: "crypto_lib \<Rightarrow> bytes \<Rightarrow> bytes \<Rightarrow> bytes \<Rightarrow> bool res" where
  "Ed25519Verify c publicKey m sig =
     (if length publicKey < Ed25519PublicKeySize
      then Err (ErrMsg ''invalid public key size: expected 32 bytes'')
      else if length sig < Ed25519SignatureSize
      then Err (ErrMsg ''invalid signature size: expected 64 bytes'')
      else ed25519_Verify c publicKey m sig)"

text \<open>The aliases the rest of the program uses.\<close>

type_synonym MLDSAKeyPair = Ed25519KeyPair

definition GenerateMLDSAKeypair :: "crypto_lib \<Rightarrow> (rng, MLDSAKeyPair) st" where
  "GenerateMLDSAKeypair c = GenerateEd25519Keypair c"

definition MLDSASign :: "crypto_lib \<Rightarrow> bytes \<Rightarrow> bytes \<Rightarrow> bytes res" where
  "MLDSASign c privateKey m = Ed25519Sign c privateKey m"

definition MLDSAVerify :: "crypto_lib \<Rightarrow> bytes \<Rightarrow> bytes \<Rightarrow> bytes \<Rightarrow> bool res" where
  "MLDSAVerify c publicKey m sig = Ed25519Verify c publicKey m sig"

lemmas mldsa_defs = GenerateMLDSAKeypair_def GenerateEd25519Keypair_def MLDSASign_def
  Ed25519Sign_def MLDSAVerify_def Ed25519Verify_def

section \<open>mlkem.go\<close>

text \<open>Either key object may be nil.\<close>

record MLKEMKeyPair =
  DecapsulationKey :: "bytes option"
  EncapsulationKey :: "bytes option"

text \<open>\<open>nil\<close> and the empty slice are the same value here: no caller tells them apart.\<close>

definition kem_GetPublic :: "MLKEMKeyPair \<Rightarrow> bytes" where
  "kem_GetPublic kp = (case EncapsulationKey kp of None \<Rightarrow> [] | Some ek \<Rightarrow> ek)"

definition kem_GetPrivate :: "MLKEMKeyPair \<Rightarrow> bytes" where
  "kem_GetPrivate kp = (case DecapsulationKey kp of None \<Rightarrow> [] | Some dk \<Rightarrow> dk)"

definition kem_Public :: "MLKEMKeyPair \<Rightarrow> bytes" where
  "kem_Public kp = kem_GetPublic kp"

definition kem_Private :: "MLKEMKeyPair \<Rightarrow> bytes" where
  "kem_Private kp = kem_GetPrivate kp"

lemmas kem_key_defs = kem_Public_def kem_GetPublic_def kem_Private_def kem_GetPrivate_def

definition mlkem_SeedSize :: nat where "mlkem_SeedSize = 64"

definition mlkem_CiphertextSize768 :: nat where "mlkem_CiphertextSize768 = 1088"

definition GenerateMLKEMKeypair :: "crypto_lib \<Rightarrow> (rng, MLKEMKeyPair) st" where
  "GenerateMLKEMKeypair c = st_bind (ReadFull mlkem_SeedSize) (\<lambda>decapKey.
     st_lift (Ok \<lparr>DecapsulationKey = Some decapKey,
                  EncapsulationKey = Some (lib_kem_ek c decapKey)\<rparr>))"

text \<open>The result is the ciphertext and the shared secret, in this order.\<close>

definition MLKEMEncapsulate :: "crypto_lib \<Rightarrow> bytes \<Rightarrow> (rng, bytes \<times> bytes) st" where
  "MLKEMEncapsulate c peerPublicKeyBytes =
     (if \<not> lib_kem_valid c peerPublicKeyBytes
      then st_lift (Err (ErrLib ''mlkem: invalid encapsulation key''))
      else st_bind (rand_Read 32) (\<lambda>coins.
           let (sharedSecret, ciphertext) = lib_kem_encaps c peerPublicKeyBytes coins
           in st_lift (Ok (ciphertext, sharedSecret))))"

definition MLKEMDecapsulate :: "crypto_lib \<Rightarrow> bytes \<Rightarrow> bytes \<Rightarrow> bytes res" where
  "MLKEMDecapsulate c privateKeyBytes ciphertext =
     (if length privateKeyBytes \<noteq> mlkem_SeedSize
      then Err (ErrLib ''mlkem: invalid seed length'')
      else if length ciphertext \<noteq> mlkem_CiphertextSize768
      then Err (ErrMsg ''invalid ciphertext size'')
      else Ok (lib_kem_decaps c privateKeyBytes ciphertext))"

section \<open>Laws in the form the proofs use\<close>

named_theorems lib_law \<open>consequences of the library's laws\<close>

lemma kem_law_facts [lib_law]:
  assumes "kem_laws c"
  shows "length seed = 64 \<Longrightarrow> lib_kem_valid c (lib_kem_ek c seed)"
    and "lib_kem_valid c pk \<Longrightarrow> length pk = 1184"
    and "lib_kem_valid c pk \<Longrightarrow> length (fst (lib_kem_encaps c pk m)) = 32"
    and "lib_kem_valid c pk \<Longrightarrow> length (snd (lib_kem_encaps c pk m)) = 1088"
    and "length (lib_kem_decaps c seed ct) = 32"
    and "length seed = 64 \<Longrightarrow>
      lib_kem_decaps c seed (snd (lib_kem_encaps c (lib_kem_ek c seed) m)) =
      fst (lib_kem_encaps c (lib_kem_ek c seed) m)"
  using assms by (auto simp: kem_laws_def)

lemma aead_law_facts [lib_law]:
  assumes "aead_laws c"
  shows "length k = 32 \<Longrightarrow> length n = 12 \<Longrightarrow> lib_open c k n (lib_seal c k n p) = Some p"
    and "length k = 32 \<Longrightarrow> length n = 12 \<Longrightarrow> length (lib_seal c k n p) = length p + 16"
    and "lib_open c k n ct = Some p \<Longrightarrow> length ct = length p + 16"
  using assms by (auto simp: aead_laws_def)

lemma sig_law_facts [lib_law]:
  assumes "sig_laws c"
  shows "length (lib_ed_pub c seed) = 32"
    and "length (lib_ed_sign c priv m) = 64"
    and "length seed = 32 \<Longrightarrow>
      lib_ed_verify c (lib_ed_pub c seed) m (lib_ed_sign c (seed @ lib_ed_pub c seed) m)"
  using assms by (auto simp: sig_laws_def)

lemma hash_law_facts [lib_law]:
  assumes "hash_laws c"
  shows "length (lib_sha256 c m) = 32" and "length (lib_hkdf c secret salt info n) = n"
  using assms by (auto simp: hash_laws_def)

section \<open>Authenticated encryption\<close>

lemma ReadFull_cases:
  obtains (ok) bs r' where "r = Some bs # r'" "ReadFull n r = (r', Ok (fit n bs))"
    | (fail) r' e where "ReadFull n r = (r', Err e)"
  by (cases "(n, r)" rule: ReadFull.cases) auto

lemma AESGCMEncrypt_Ok:
  assumes "AESGCMEncrypt c key pt r = (r', Ok ct)"
  obtains nonce where "length nonce = 12" "length key = 32" "length pt \<le> gcm_max"
    "ct = nonce @ lib_seal c key nonce pt" "ReadFull 12 r = (r', Ok nonce)"
  using assms
  by (auto simp: AESGCMEncrypt_def aes_NewCipher_def gcm_Seal_def gcm_NonceSize_def res_iff
      split: if_splits dest: ReadFull_length)

lemma AESGCMEncrypt_Some:
  assumes "length key = 32" "length pt \<le> gcm_max"
  shows "AESGCMEncrypt c key pt (Some bs # r) =
    (r, Ok (fit 12 bs @ lib_seal c key (fit 12 bs) pt))"
  using assms
  by (simp add: AESGCMEncrypt_def aes_NewCipher_def gcm_Seal_def gcm_NonceSize_def st_bind_def)

lemma AESGCMEncrypt_bad_key:
  "length key \<noteq> 32 \<Longrightarrow> AESGCMEncrypt c key pt r =
     (r, Err (ErrMsg ''invalid key size: must be 32 bytes for AES-256''))"
  by (simp add: AESGCMEncrypt_def)

lemma AESGCMEncrypt_no_panic:
  "length pt \<le> gcm_max \<Longrightarrow> \<not> is_panic (snd (AESGCMEncrypt c key pt r))"
  by (cases "(gcm_NonceSize, r)" rule: ReadFull.cases)
     (auto simp: AESGCMEncrypt_def aes_NewCipher_def gcm_Seal_def st_bind_def)

lemma AESGCMDecrypt_eq:
  "AESGCMDecrypt c key ct =
     (if length key \<noteq> 32
      then Err (ErrMsg ''invalid key size: must be 32 bytes for AES-256'')
      else if length ct < 12 then Err (ErrMsg ''ciphertext too short'')
      else case lib_open c key (take 12 ct) (drop 12 ct) of
          Some p \<Rightarrow> Ok p
        | None \<Rightarrow> Err (ErrLib ''cipher: message authentication failed''))"
  by (simp add: AESGCMDecrypt_def aes_NewCipher_def gcm_NonceSize_def gcm_Open_def)

lemma AESGCMDecrypt_no_panic [simp]: "\<not> is_panic (AESGCMDecrypt c key ct)"
  by (simp add: AESGCMDecrypt_eq split: option.splits)

lemma AESGCMDecrypt_Encrypt:
  assumes "aead_laws c" "AESGCMEncrypt c key pt r = (r', Ok ct)"
  shows "AESGCMDecrypt c key ct = Ok pt"
  using assms(2)
  by (rule AESGCMEncrypt_Ok) (simp add: AESGCMDecrypt_eq aead_law_facts [OF assms(1)])

lemma AESGCMEncrypt_length:
  assumes "aead_laws c" "AESGCMEncrypt c key pt r = (r', Ok ct)"
  shows "length ct = length pt + 28"
  using assms(2) by (rule AESGCMEncrypt_Ok) (simp add: aead_law_facts [OF assms(1)])

lemma AESGCMDecrypt_length:
  "aead_laws c \<Longrightarrow> AESGCMDecrypt c key ct = Ok pt \<Longrightarrow> length ct = length pt + 28"
  by (auto simp: AESGCMDecrypt_eq split: if_splits option.splits dest!: aead_law_facts(3))

text \<open>
  The interface the key store, the identity exchange and the secure channel use: sealing
  under a key and opening under the same key. Every client lemma about a message that
  travels sealed is proved once, here.
\<close>

locale sealed_box =
  fixes lawful :: "'c \<Rightarrow> bool"
    and seal :: "'c \<Rightarrow> bytes \<Rightarrow> bytes \<Rightarrow> (rng, bytes) st"
    and unseal :: "'c \<Rightarrow> bytes \<Rightarrow> bytes \<Rightarrow> bytes res"
    and overhead :: nat
  assumes unseal_seal: "lawful c \<Longrightarrow> seal c k p r = (r', Ok ct) \<Longrightarrow> unseal c k ct = Ok p"
    and length_seal: "lawful c \<Longrightarrow> seal c k p r = (r', Ok ct) \<Longrightarrow> length ct = length p + overhead"
    and length_unseal: "lawful c \<Longrightarrow> unseal c k ct = Ok p \<Longrightarrow> length ct = length p + overhead"
    and unseal_no_panic: "\<not> is_panic (unseal c k ct)"
begin

lemma seal_inject:
  assumes "lawful c" "seal c k p r = (r1, Ok ct)" "seal c k q s = (s1, Ok ct)"
  shows "p = q"
  using unseal_seal [OF assms(1,2)] unseal_seal [OF assms(1,3)] by simp

lemma seal_not_plain:
  assumes "lawful c" "0 < overhead" "seal c k p r = (r', Ok ct)"
  shows "ct \<noteq> p"
  using length_seal [OF assms(1,3)] assms(2) by auto

lemma unseal_short:
  assumes "lawful c" "length ct < overhead"
  obtains e where "unseal c k ct = Err e"
  using length_unseal [OF assms(1), of k ct] unseal_no_panic [of c k ct] assms(2) that
  by (cases "unseal c k ct") auto

end

interpretation aesgcm: sealed_box aead_laws AESGCMEncrypt AESGCMDecrypt 28
  by unfold_locales
    (auto intro: AESGCMDecrypt_Encrypt AESGCMEncrypt_length AESGCMDecrypt_length)

section \<open>Key encapsulation and signatures\<close>

lemma GenerateMLKEMKeypair_Ok:
  assumes "GenerateMLKEMKeypair c r = (r', Ok kp)"
  obtains seed where "length seed = 64" "kp = \<lparr>DecapsulationKey = Some seed,
      EncapsulationKey = Some (lib_kem_ek c seed)\<rparr>" "ReadFull 64 r = (r', Ok seed)"
  using assms
  by (auto simp: GenerateMLKEMKeypair_def mlkem_SeedSize_def res_iff dest: ReadFull_length)

lemma GenerateMLKEMKeypair_Some [simp]:
  "GenerateMLKEMKeypair c (Some bs # r) = (r, Ok \<lparr>DecapsulationKey = Some (fit 64 bs),
      EncapsulationKey = Some (lib_kem_ek c (fit 64 bs))\<rparr>)"
  by (simp add: GenerateMLKEMKeypair_def mlkem_SeedSize_def st_bind_def)

lemma GenerateMLKEMKeypair_no_panic: "\<not> is_panic (snd (GenerateMLKEMKeypair c r))"
  by (cases r rule: ReadFull_cases [where n = 64])
     (auto simp: GenerateMLKEMKeypair_def mlkem_SeedSize_def st_bind_def)

lemma MLKEMEncapsulate_Some [simp]:
  "lib_kem_valid c pk \<Longrightarrow> MLKEMEncapsulate c pk (Some bs # r) =
     (r, Ok (snd (lib_kem_encaps c pk (fit 32 bs)), fst (lib_kem_encaps c pk (fit 32 bs))))"
  by (simp add: MLKEMEncapsulate_def st_bind_def split: prod.splits)

lemma MLKEMEncapsulate_invalid:
  "\<not> lib_kem_valid c pk \<Longrightarrow>
     MLKEMEncapsulate c pk r = (r, Err (ErrLib ''mlkem: invalid encapsulation key''))"
  by (simp add: MLKEMEncapsulate_def)

lemma MLKEMEncapsulate_Ok:
  assumes "MLKEMEncapsulate c pk r = (r', Ok (ct, ss))"
  obtains m where "lib_kem_valid c pk" "(ss, ct) = lib_kem_encaps c pk m"
  using assms
  by (auto simp: MLKEMEncapsulate_def res_iff Let_def case_prod_unfold split: if_splits)

lemma MLKEMEncapsulate_length:
  "kem_laws c \<Longrightarrow> MLKEMEncapsulate c pk r = (r', Ok (ct, ss)) \<Longrightarrow> length ss = 32 \<and> length ct = 1088"
  by (metis MLKEMEncapsulate_Ok fst_conv kem_law_facts(3,4) snd_conv)

lemma MLKEMDecapsulate_no_panic [simp]: "\<not> is_panic (MLKEMDecapsulate c sk ct)"
  by (simp add: MLKEMDecapsulate_def)

lemma MLKEMDecapsulate_length:
  "kem_laws c \<Longrightarrow> MLKEMDecapsulate c sk ct = Ok ss \<Longrightarrow> length ss = 32"
  by (auto simp: MLKEMDecapsulate_def kem_law_facts split: if_splits)

lemma MLKEM_agree:
  assumes c: "kem_laws c" and gen: "GenerateMLKEMKeypair c r = (r', Ok kp)"
    and enc: "MLKEMEncapsulate c (kem_Public kp) s = (s', Ok (ct, ss))"
  shows "MLKEMDecapsulate c (kem_Private kp) ct = Ok ss"
proof -
  obtain seed where seed: "length seed = 64" "kem_Public kp = lib_kem_ek c seed"
      "kem_Private kp = seed"
    using gen by (rule GenerateMLKEMKeypair_Ok) (auto simp: kem_key_defs)
  obtain m where m: "lib_kem_valid c (lib_kem_ek c seed)" "(ss, ct) = lib_kem_encaps c (lib_kem_ek c seed) m"
    using enc seed by (auto elim: MLKEMEncapsulate_Ok)
  then have "lib_kem_decaps c seed ct = ss" and "length ct = 1088"
    using kem_law_facts(6) [OF c, of seed m] kem_law_facts(4) [OF c m(1), of m] seed(1)
    by (metis fst_conv snd_conv)+
  with seed show ?thesis
    by (simp add: MLKEMDecapsulate_def mlkem_SeedSize_def mlkem_CiphertextSize768_def)
qed

lemma MLDSASign_eq:
  "MLDSASign c priv m =
     (if length priv < 64 then Err (ErrMsg ''invalid private key size: expected 64 bytes'')
      else if length priv = 64 then Ok (lib_ed_sign c priv m)
      else Panic ''ed25519: bad private key length'')"
  by (simp add: mldsa_defs ed25519_Sign_def Ed25519PrivateKeySize_def)

lemma MLDSAVerify_eq:
  "MLDSAVerify c pub m sig =
     (if length pub < 32 then Err (ErrMsg ''invalid public key size: expected 32 bytes'')
      else if length sig < 64 then Err (ErrMsg ''invalid signature size: expected 64 bytes'')
      else if length pub = 32 then Ok (length sig = 64 \<and> lib_ed_verify c pub m sig)
      else Panic ''ed25519: bad public key length'')"
  by (simp add: mldsa_defs ed25519_Verify_def Ed25519PublicKeySize_def
      Ed25519SignatureSize_def)

lemma GenerateMLDSAKeypair_Ok:
  assumes "GenerateMLDSAKeypair c r = (r', Ok kp)"
  obtains seed where "length seed = 32" "dsa_Public kp = lib_ed_pub c seed"
    "dsa_Private kp = seed @ lib_ed_pub c seed"
  using assms by (auto simp: mldsa_defs res_iff dest: ReadFull_length)

lemma MLDSASign_generated:
  assumes "sig_laws c" "GenerateMLDSAKeypair c r = (r', Ok kp)"
  obtains sig where "MLDSASign c (dsa_Private kp) m = Ok sig" "length sig = 64"
  using assms(2)
  by (rule GenerateMLDSAKeypair_Ok) (simp add: MLDSASign_eq sig_law_facts [OF assms(1)] that)

lemma MLDSAVerify_Sign:
  assumes c: "sig_laws c" and gen: "GenerateMLDSAKeypair c r = (r', Ok kp)"
    and sign: "MLDSASign c (dsa_Private kp) m = Ok sig"
  shows "MLDSAVerify c (dsa_Public kp) m sig = Ok True"
  using gen
proof (rule GenerateMLDSAKeypair_Ok)
  fix seed
  assume "length seed = 32" "dsa_Public kp = lib_ed_pub c seed"
    "dsa_Private kp = seed @ lib_ed_pub c seed"
  with sign show ?thesis
    by (simp add: MLDSASign_eq MLDSAVerify_eq sig_law_facts [OF c])
       (auto simp: sig_law_facts [OF c])
qed

section \<open>The chained hash\<close>

text \<open>
  The reference definition: block \<open>k\<close> is SHA-256 applied \<open>k + 1\<close> times, and the
  output is a prefix of the concatenated blocks.
\<close>

definition hash_block :: "crypto_lib \<Rightarrow> bytes \<Rightarrow> nat \<Rightarrow> bytes" where
  "hash_block c data k = (lib_sha256 c ^^ Suc k) data"

definition hash_stream :: "crypto_lib \<Rightarrow> bytes \<Rightarrow> nat \<Rightarrow> bytes" where
  "hash_stream c data m = concat (map (hash_block c data) [0..<m])"

lemma length_hash_block: "hash_laws c \<Longrightarrow> length (hash_block c data k) = 32"
  by (simp add: hash_block_def hash_law_facts)

lemma hash_stream_Suc: "hash_stream c data (Suc m) = hash_stream c data m @ hash_block c data m"
  by (simp add: hash_stream_def)

lemma length_hash_stream: "hash_laws c \<Longrightarrow> length (hash_stream c data m) = 32 * m"
proof (induction m)
  case 0
  show ?case by (simp add: hash_stream_def)
next
  case (Suc m)
  then show ?case
    unfolding hash_stream_Suc length_append by (simp add: length_hash_block)
qed

lemma hash_stream_add:
  "hash_stream c data (k + m) = hash_stream c data k @ concat (map (hash_block c data) [k..<k + m])"
  by (simp add: hash_stream_def upt_add_eq_append [of 0 k m])

lemma take_hash_stream_mono:
  assumes c: "hash_laws c" and n: "n \<le> 32 * k" and km: "k \<le> m"
  shows "take n (hash_stream c data m) = take n (hash_stream c data k)"
proof -
  from km obtain d where d: "m = k + d" by (rule less_eqE)
  have "n \<le> length (hash_stream c data k)" by (simp add: length_hash_stream [OF c] n)
  then show ?thesis by (simp add: d hash_stream_add)
qed

lemma shake_loop_stream:
  assumes c: "hash_laws c" and "32 * int k < n"
    and "0 < k \<Longrightarrow> block = hash_block c data (k - 1)"
  shows "shake_loop c data n (32 * int k) block (hash_stream c data k) =
    Ok (take (nat n) (hash_stream c data (Suc (nat n div 32))))"
  using assms(2,3)
proof (induction "nat n div 32 - k" arbitrary: k block)
  case 0
  \<comment> \<open>the last block: what remains is at most 32 bytes\<close>
  have next_block: "lib_sha256 c (if 32 * int k > 0 then block else data) = hash_block c data k"
    using "0.prems"(2) by (cases k) (simp_all add: hash_block_def)
  have k: "k = nat n div 32" and rem: "n - 32 * int k \<le> 32" "nat (n - 32 * int k) = nat n - 32 * k"
    using 0 by linarith+
  have "shake_loop c data n (32 * int k) block (hash_stream c data k) =
      Ok (hash_stream c data k @ take (nat n - 32 * k) (hash_block c data k))"
    using "0.prems"(1) rem
    by (subst shake_loop.simps, simp only: Let_def next_block)
       (simp add: length_hash_block [OF c] shake_loop.simps)
  then show ?case
    using k by (simp add: hash_stream_Suc length_hash_stream [OF c])
next
  case (Suc d)
  have next_block: "lib_sha256 c (if 32 * int k > 0 then block else data) = hash_block c data k"
    using Suc.prems(2) by (cases k) (simp_all add: hash_block_def)
  show ?case
  proof (cases "n - 32 * int k > 32")
    case True
    have "shake_loop c data n (32 * int k) block (hash_stream c data k) =
        shake_loop c data n (32 * int (Suc k)) (hash_block c data k) (hash_stream c data (Suc k))"
      using Suc.prems(1) True
      by (subst shake_loop.simps, simp only: Let_def next_block)
         (simp add: hash_stream_Suc algebra_simps)
    also have "\<dots> = Ok (take (nat n) (hash_stream c data (Suc (nat n div 32))))"
      using Suc.hyps(2) True by (intro Suc.hyps(1)) (linarith, simp_all)
    finally show ?thesis .
  next
    case False
    have "Suc k \<le> nat n div 32"
      using Suc.hyps(2) by simp
    then have "Suc k * 32 \<le> nat n"
      by (simp only: less_eq_div_iff_mult_less_eq zero_less_numeral)
    then have "int (Suc k * 32) \<le> n"
      using Suc.prems(1) by (simp add: le_nat_iff)
    with False have n: "n = 32 * int (Suc k)"
      by simp
    have "shake_loop c data n (32 * int k) block (hash_stream c data k) =
        Ok (hash_stream c data (Suc k))"
      using n
      by (subst shake_loop.simps, simp only: Let_def next_block)
         (simp add: length_hash_block [OF c] shake_loop.simps hash_stream_Suc)
    also have "hash_stream c data (Suc k) =
        take (nat n) (hash_stream c data (Suc (nat n div 32)))"
    proof -
      have "nat n = 32 * Suc k" using n by simp
      then show ?thesis
        by (simp only:) (simp add: take_hash_stream_mono [OF c, of _ "Suc k"]
            length_hash_stream [OF c])
    qed
    finally show ?thesis by simp
  qed
qed

lemma SHAKE256_stream:
  assumes c: "hash_laws c" and n: "0 \<le> n"
  shows "SHAKE256 c data n = Ok (take (nat n) (hash_stream c data (Suc (nat n div 32))))"
proof (cases "n \<le> 32")
  case True
  have "take (nat n) (hash_stream c data (Suc (nat n div 32))) = take (nat n) (hash_stream c data 1)"
    using True by (intro take_hash_stream_mono [OF c]) auto
  then show ?thesis
    using True n by (simp add: SHAKE256_def hash_law_facts [OF c] hash_stream_def hash_block_def)
next
  case False
  then show ?thesis
    using shake_loop_stream [OF c, of 0 n "replicate 32 0" data]
    by (simp add: SHAKE256_def hash_stream_def)
qed

lemma SHAKE256_32: "hash_laws c \<Longrightarrow> SHAKE256 c data 32 = Ok (lib_sha256 c data)"
  by (simp add: SHAKE256_def hash_law_facts)

section \<open>Clearing memory\<close>

lemma clear_round_const:
  assumes "\<And>r. clear_value k r = (r, Ok v)" "i \<le> length data"
  shows "clear_round k [i..<length data] data r = (r, Ok (take i data @ replicate (length data - i) v))"
  using assms(2)
proof (induction "length data - i" arbitrary: i data)
  case 0
  then show ?case by simp
next
  case (Suc n)
  then have i: "i < length data" by simp
  have "clear_round k [Suc i..<length (data[i := v])] (data[i := v]) r =
      (r, Ok (take (Suc i) (data[i := v]) @ replicate (length data - Suc i) v))"
    using Suc.hyps(1) [of "data[i := v]" "Suc i"] Suc.hyps(2) i by simp
  with i show ?case
    by (simp add: upt_conv_Cons st_bind_Ok [OF assms(1)] take_Suc_conv_app_nth
        Suc_diff_Suc flip: replicate_Suc)
qed

lemma clear_round_random:
  assumes "length ds = length data - i" "i \<le> length data" "3 \<le> k"
  shows "clear_round k [i..<length data] data (map Some ds @ r) =
    (r, Ok (take i data @ map (\<lambda>d. hd (fit 1 d)) ds))"
  using assms(1,2)
proof (induction ds arbitrary: i data)
  case Nil
  then show ?case by simp
next
  case (Cons d ds)
  then have i: "i < length data" by auto
  have "length (fit 1 d) = Suc 0" by simp
  then obtain x where x: "fit 1 d = [x]" by (metis length_0_conv length_Suc_conv)
  have v: "clear_value k (Some d # (map Some ds @ r)) = (map Some ds @ r, Ok (hd (fit 1 d)))"
    using assms(3) x by (simp add: clear_value_def)
  have "clear_round k [Suc i..<length (data[i := hd (fit 1 d)])] (data[i := hd (fit 1 d)])
        (map Some ds @ r) =
      (r, Ok (take (Suc i) (data[i := hd (fit 1 d)]) @ map (\<lambda>d. hd (fit 1 d)) ds))"
    using Cons.prems i by (intro Cons.IH) auto
  with i v show ?case
    by (simp add: upt_conv_Cons take_Suc_conv_app_nth)
qed

lemma clear_round_fill:
  "k < 3 \<Longrightarrow> clear_round k [0..<length d] d s =
     (s, Ok (replicate (length d) ([0, 0xFF, 0xAA] ! k)))"
  using clear_round_const [of k "[0, 0xFF, 0xAA] ! k" 0 d s]
  by (simp add: clear_value_def less_Suc_eq numeral_eq_Suc) auto

lemma SecureClear_eq:
  "SecureClear data r = clear_round 3 [0..<length data] (replicate (length data) 0xAA) r"
proof (cases "data = []")
  case True
  then show ?thesis by (simp add: SecureClear_def)
next
  case False
  have rounds: "[0..<4] = [0, 1, 2, 3 :: nat]" by (simp add: upt_rec)
  have fill: "clear_round 0 [0..<length data] data r = (r, Ok (replicate (length data) 0))"
    "clear_round 1 [0..<length data] (replicate (length data) 0) r =
       (r, Ok (replicate (length data) 0xFF))"
    "clear_round 2 [0..<length data] (replicate (length data) 0xFF) r =
       (r, Ok (replicate (length data) 0xAA))"
    using clear_round_fill [of 0 data r] clear_round_fill [of 1 "replicate (length data) 0" r]
      clear_round_fill [of 2 "replicate (length data) 0xFF" r] by simp_all
  have last: "st_bind m (clear_rounds []) s = m s" for m s
    by (auto simp: st_bind_def split: prod.splits res.splits)
  from False fill show ?thesis
    by (simp add: SecureClear_def rounds last del: clear_rounds.simps(1))
qed

lemma SecureClear_random:
  "length ds = length data \<Longrightarrow>
   SecureClear data (map Some ds @ r) = (r, Ok (map (\<lambda>d. hd (fit 1 d)) ds))"
  using clear_round_random [of ds "replicate (length data) 0xAA" 0 3 r]
  by (simp add: SecureClear_eq)

section \<open>A library that satisfies the laws\<close>

text \<open>
  A concrete \<open>crypto_lib\<close>, with no security whatever, at which the theorems below and in
  the other theories are instantiated: it shows that the laws can hold together and lets
  the model run on concrete inputs.
\<close>

definition demo_digest :: "bytes \<Rightarrow> bytes" where
  "demo_digest m = fit 32 (of_nat (length m) # m)"

definition demo_tag :: "bytes \<Rightarrow> bytes \<Rightarrow> bytes" where
  "demo_tag k n = fit 16 (take 4 k @ n)"

definition demo_open :: "bytes \<Rightarrow> bytes \<Rightarrow> bytes \<Rightarrow> bytes option" where
  "demo_open k n ct =
     (if 16 \<le> length ct \<and> drop (length ct - 16) ct = demo_tag k n
      then Some (take (length ct - 16) ct) else None)"

definition demo_lib :: crypto_lib where
  "demo_lib = \<lparr>
     lib_kem_ek = fit 1184,
     lib_kem_valid = (\<lambda>pk. length pk = 1184),
     lib_kem_encaps = (\<lambda>pk m. (fit 32 m, fit 1088 (fit 32 m))),
     lib_kem_decaps = (\<lambda>seed ct. fit 32 ct),
     lib_ed_pub = fit 32,
     lib_ed_sign = (\<lambda>priv m. fit 64 (fit 32 (drop 32 priv) @ demo_digest m)),
     lib_ed_verify = (\<lambda>pub m sig. sig = fit 64 (fit 32 pub @ demo_digest m)),
     lib_seal = (\<lambda>k n p. p @ demo_tag k n),
     lib_open = demo_open,
     lib_sha256 = demo_digest,
     lib_hkdf = (\<lambda>secret salt info n. fit n secret)\<rparr>"

lemma fit_fit [simp]: "n \<le> m \<Longrightarrow> fit n (fit m xs) = fit n xs"
  by (auto simp: fit_def min_def take_append)

lemma demo_laws [simp]:
  "kem_laws demo_lib" "aead_laws demo_lib" "sig_laws demo_lib" "hash_laws demo_lib"
proof -
  show "kem_laws demo_lib" by (simp add: kem_laws_def demo_lib_def)
  show "aead_laws demo_lib"
    by (auto simp: aead_laws_def demo_lib_def demo_open_def demo_tag_def split: if_splits)
  show "sig_laws demo_lib" by (simp add: sig_laws_def demo_lib_def)
  show "hash_laws demo_lib" by (simp add: hash_laws_def demo_lib_def demo_digest_def)
qed

section \<open>Properties\<close>

text \<open>
  Encrypting a plaintext and decrypting the result under the same key gives the
  plaintext back, for every nonce the generator supplies; the ciphertext is 28 bytes
  longer (12 of nonce, 16 of tag), and decrypting is the only thing the key is needed for
  that can fail: with a key of any other length both calls return the same error.
\<close>

theorem aesgcm_roundtrip:
  assumes "aead_laws c" and "AESGCMEncrypt c key pt r = (r', Ok ct)"
  shows "AESGCMDecrypt c key ct = Ok pt \<and> length ct = length pt + 28 \<and> length key = 32"
proof -
  have "length key = 32"
    using assms(2) by (rule AESGCMEncrypt_Ok)
  then show ?thesis
    using aesgcm.unseal_seal [OF assms] aesgcm.length_seal [OF assms] by simp
qed

theorem aesgcm_roundtrip_witness:
  "AESGCMDecrypt demo_lib (replicate 32 7)
     (fit 12 [1, 2] @ lib_seal demo_lib (replicate 32 7) (fit 12 [1, 2]) [9, 8]) = Ok [9, 8]"
proof -
  have "AESGCMEncrypt demo_lib (replicate 32 7) [9, 8] [Some [1, 2]] =
      ([], Ok (fit 12 [1, 2] @ lib_seal demo_lib (replicate 32 7) (fit 12 [1, 2]) [9, 8]))"
    by (rule AESGCMEncrypt_Some) (simp_all add: gcm_max_def)
  from aesgcm_roundtrip [OF demo_laws(2) this] show ?thesis by simp
qed

text \<open>
  C33. \<open>SHAKE256\<close> computes the reference stream: for every \<open>n \<ge> 0\<close> the loop ends without
  an out-of-range slice, returns exactly \<open>n\<close> bytes, and they are the first \<open>n\<close> bytes of
  SHA-256 of the data, SHA-256 of that, and so on; so a shorter output is always a prefix
  of a longer one, and the 32-byte output is plain SHA-256.
\<close>

theorem SHAKE256_is_chained_sha256:
  assumes "hash_laws c" and "0 \<le> n"
  shows "SHAKE256 c data n = Ok (take (nat n) (hash_stream c data (Suc (nat n div 32))))
    \<and> (\<forall>m \<ge> n. \<exists>out. SHAKE256 c data m = Ok out \<and> length out = nat m
         \<and> SHAKE256 c data n = Ok (take (nat n) out))
    \<and> SHAKE256 c data 32 = Ok (lib_sha256 c data)"
proof (intro conjI allI impI)
  show "SHAKE256 c data n = Ok (take (nat n) (hash_stream c data (Suc (nat n div 32))))"
    by (rule SHAKE256_stream [OF assms])
  show "SHAKE256 c data 32 = Ok (lib_sha256 c data)"
    by (rule SHAKE256_32 [OF assms(1)])
next
  fix m assume nm: "n \<le> m"
  let ?out = "take (nat m) (hash_stream c data (Suc (nat m div 32)))"
  have "nat n \<le> 32 * Suc (nat n div 32)" "nat m \<le> 32 * Suc (nat m div 32)"
    by simp_all
  moreover have "Suc (nat n div 32) \<le> Suc (nat m div 32)"
    using nm by (simp add: div_le_mono nat_mono)
  ultimately have "take (nat n) ?out = take (nat n) (hash_stream c data (Suc (nat n div 32)))"
    and "length ?out = nat m"
    using nm take_hash_stream_mono [OF assms(1), of "nat n"]
    by (simp_all add: length_hash_stream [OF assms(1)] min_absorb1 nat_mono)
  then show "\<exists>out. SHAKE256 c data m = Ok out \<and> length out = nat m
      \<and> SHAKE256 c data n = Ok (take (nat n) out)"
    using SHAKE256_stream [OF assms(1), of m] SHAKE256_stream [OF assms] nm assms(2) by simp
qed

theorem SHAKE256_is_chained_sha256_witness:
  "SHAKE256 demo_lib [1, 2, 3] 40 =
     Ok (take 40 (demo_digest [1, 2, 3] @ demo_digest (demo_digest [1, 2, 3])))"
  using SHAKE256_is_chained_sha256 [OF demo_laws(4), of 40 "[1, 2, 3]"]
  by (simp add: hash_stream_def hash_block_def demo_lib_def)

text \<open>
  C38. \<open>SecureClear\<close> leaves nothing of the old content: two buffers of the same length end
  up in the same state and with the same outcome, whatever they held and whatever the
  random source delivers. What remains is the fourth round's random bytes, one draw per
  byte, and not zeros.
\<close>

theorem SecureClear_forgets:
  assumes "length a = length b"
  shows "SecureClear a r = SecureClear b r \<and>
    (length ds = length a \<longrightarrow>
      SecureClear a (map Some ds @ r) = (r, Ok (map (\<lambda>d. hd (fit 1 d)) ds)))"
  using assms by (simp add: SecureClear_eq [of a] SecureClear_eq [of b])
    (use SecureClear_random [of ds a r] in \<open>simp add: SecureClear_eq\<close>)

theorem SecureClear_forgets_witness:
  "SecureClear [1, 2, 3] [Some [5], Some [6], Some [7]] = ([], Ok [5, 6, 7])"
  using SecureClear_forgets [of "[1, 2, 3]" "[4, 4, 4]" "[]" "[[5], [6], [7]]"]
  by (simp add: fit_def)

text \<open>
  C39. What a caller gets from signing and verifying with keys of any length. A key that is
  too short is an error; a private key longer than 64 bytes, or a public key longer than
  32 bytes with a signature of full length, is a panic, because the size checks use
  less-than where the Ed25519 functions demand the exact length.
\<close>

theorem mldsa_size_checks:
  "(is_panic (MLDSASign c priv m) \<longleftrightarrow> 64 < length priv) \<and>
   (is_ok (MLDSASign c priv m) \<longleftrightarrow> length priv = 64) \<and>
   (is_panic (MLDSAVerify c pub m sig) \<longleftrightarrow> 32 < length pub \<and> 64 \<le> length sig) \<and>
   (is_ok (MLDSAVerify c pub m sig) \<longleftrightarrow> length pub = 32 \<and> 64 \<le> length sig) \<and>
   (MLDSAVerify c pub m sig = Ok True \<longleftrightarrow>
      length pub = 32 \<and> length sig = 64 \<and> lib_ed_verify c pub m sig)"
  by (auto simp: MLDSASign_eq MLDSAVerify_eq)

text \<open>
  A signature made with a generated key pair verifies under its public key, and the
  signing call itself succeeds with a 64-byte signature for every message.
\<close>

theorem mldsa_sign_verify:
  assumes "sig_laws c" and "GenerateMLDSAKeypair c r = (r', Ok kp)"
  shows "\<exists>sig. MLDSASign c (dsa_Private kp) m = Ok sig \<and> length sig = 64 \<and>
    MLDSAVerify c (dsa_Public kp) m sig = Ok True"
  using MLDSASign_generated [OF assms] MLDSAVerify_Sign [OF assms] by metis

theorem mldsa_sign_verify_witness:
  "\<exists>sig. MLDSASign demo_lib (fit 32 [5] @ fit 32 [5]) [1, 2] = Ok sig \<and> length sig = 64 \<and>
    MLDSAVerify demo_lib (fit 32 [5]) [1, 2] sig = Ok True"
proof -
  have "GenerateMLDSAKeypair demo_lib [Some [5]] =
      ([], Ok \<lparr>dsa_Public = fit 32 [5], dsa_Private = fit 32 [5] @ fit 32 [5]\<rparr>)"
    by (simp add: mldsa_defs st_bind_def demo_lib_def)
  from mldsa_sign_verify [OF demo_laws(3) this, of "[1, 2]"] show ?thesis by simp
qed

text \<open>
  Key encapsulation agrees: whatever randomness the two sides draw, the secret that
  \<open>MLKEMEncapsulate\<close> returns for the public half of a generated pair is the one that
  \<open>MLKEMDecapsulate\<close> recovers with the private half, and the sizes are those of
  ML-KEM-768 (the private half is the 64-byte seed).
\<close>

theorem mlkem_agreement:
  assumes "kem_laws c" and "GenerateMLKEMKeypair c r = (r', Ok kp)"
    and "MLKEMEncapsulate c (kem_Public kp) s = (s', Ok (ct, ss))"
  shows "MLKEMDecapsulate c (kem_Private kp) ct = Ok ss \<and> length ss = 32 \<and> length ct = 1088
    \<and> length (kem_Public kp) = 1184 \<and> length (kem_Private kp) = 64"
proof -
  have "length (kem_Public kp) = 1184 \<and> length (kem_Private kp) = 64"
    using assms(2) by (rule GenerateMLKEMKeypair_Ok)
      (simp add: kem_key_defs kem_law_facts [OF assms(1)])
  then show ?thesis
    using MLKEM_agree [OF assms] MLKEMEncapsulate_length [OF assms(1,3)] by simp
qed

theorem mlkem_agreement_witness:
  "MLKEMDecapsulate demo_lib (fit 64 [3]) (fit 1088 (fit 32 [4])) = Ok (fit 32 [4])"
proof -
  have gen: "GenerateMLKEMKeypair demo_lib [Some [3]] =
      ([], Ok \<lparr>DecapsulationKey = Some (fit 64 [3]), EncapsulationKey = Some (fit 1184 (fit 64 [3]))\<rparr>)"
    by (simp add: demo_lib_def)
  have enc: "MLKEMEncapsulate demo_lib (kem_Public \<lparr>DecapsulationKey = Some (fit 64 [3]),
      EncapsulationKey = Some (fit 1184 (fit 64 [3]))\<rparr>) [Some [4]] =
      ([], Ok (fit 1088 (fit 32 [4]), fit 32 [4]))"
    by (simp add: demo_lib_def kem_key_defs)
  from mlkem_agreement [OF demo_laws(1) gen enc] show ?thesis
    by (simp add: kem_key_defs)
qed

text \<open>
  \<open>HKDF\<close> returns an error exactly for a length that is not positive or exceeds 255
  hash blocks, never panics, returns as many bytes as were asked for otherwise, and treats
  a missing salt as 32 zero bytes.
\<close>

theorem HKDF_bounds:
  assumes "hash_laws c"
  shows "(is_ok (HKDF c secret salt info n) \<longleftrightarrow> 0 < n \<and> n \<le> 8160)
    \<and> \<not> is_panic (HKDF c secret salt info n)
    \<and> (\<forall>key. HKDF c secret salt info n = Ok key \<longrightarrow> length key = nat n)
    \<and> HKDF c secret [] info n = HKDF c secret (replicate 32 0) info n"
  by (auto simp: HKDF_def hkdf_Key_def hash_law_facts [OF assms])

theorem HKDF_bounds_witness:
  "is_ok (HKDF demo_lib [1] [] [] 32) \<and> \<not> is_ok (HKDF demo_lib [1] [] [] 0)"
  using HKDF_bounds [OF demo_laws(4), of "[1]" "[]" "[]" 32, THEN conjunct1]
    HKDF_bounds [OF demo_laws(4), of "[1]" "[]" "[]" 0, THEN conjunct1] by simp

end
