(* ===== verification/Store.thy ===== *)
theory Store
  imports Crypto "HOL-Library.List_Lexorder" "HOL-Library.Char_ord"
begin

text \<open>
  The key store, after \<open>pkg/identity/store.go\<close>, over a model of the files it touches.

  The first sections model what the source uses of \<open>path/filepath\<close> and \<open>os\<close>: cleaning and
  joining paths, and files and directories with the errors a caller can tell apart. A file
  system also carries a \<open>fault\<close> function, so that every call can fail with an I/O error and
  every error branch of the store is reachable, and a function \<open>torn\<close> that says what a failing
  write leaves behind: the file as it was, when it could not be opened, or the bytes written
  before the failure, when it had been opened and emptied.
  Symbolic links and the working directory are left out.

  The specification of the store is a map from key names to key pairs; the locale
  \<open>key_map\<close> states it, and the interpretation shows that the store implements it for names
  without a slash.
\<close>

section \<open>path/filepath\<close>

type_synonym path = "bool \<times> string list"

fun split_slash :: "string \<Rightarrow> string list" where
  "split_slash [] = [[]]"
| "split_slash (ch # s) = (if ch = CHR ''/'' then [] # split_slash s
     else case split_slash s of [] \<Rightarrow> [[ch]] | x # xs \<Rightarrow> (ch # x) # xs)"

text \<open>
  The lexical clean-up of \<open>filepath.Clean\<close>, element by element: \<open>out\<close> is the result so far
  in reverse. The path is whether it is rooted and its elements; the string \<open>"."\<close> is the
  empty list of elements.
\<close>

fun clean_elems :: "bool \<Rightarrow> string list \<Rightarrow> string list \<Rightarrow> string list" where
  "clean_elems rooted out [] = rev out"
| "clean_elems rooted out (e # es) =
    (if e = [] \<or> e = ''.'' then clean_elems rooted out es
     else if e = ''..'' then
       (case out of
          [] \<Rightarrow> clean_elems rooted (if rooted then [] else [''..'']) es
        | t # ts \<Rightarrow> clean_elems rooted (if t = ''..'' then ''..'' # out else ts) es)
     else clean_elems rooted (e # out) es)"

definition filepath_Clean :: "string \<Rightarrow> path" where
  "filepath_Clean s = (let rooted = (s \<noteq> [] \<and> hd s = CHR ''/'')
     in (rooted, clean_elems rooted [] (split_slash s)))"

text \<open>\<open>filepath.Join(a, b)\<close> skips an empty \<open>a\<close>.\<close>

definition filepath_Join :: "string \<Rightarrow> string \<Rightarrow> path" where
  "filepath_Join a b = filepath_Clean (if a = [] then b else a @ ''/'' @ b)"

text \<open>The suffix from the last dot on; a directory entry has no slash in its name.\<close>

definition filepath_Ext :: "string \<Rightarrow> string" where
  "filepath_Ext name = (if CHR ''.'' \<in> set name
     then CHR ''.'' # rev (takeWhile (\<lambda>ch. ch \<noteq> CHR ''.'') (rev name)) else [])"

section \<open>os\<close>

datatype os_op = OpMkdirAll | OpWriteFile | OpReadFile | OpRemove | OpReadDir

record fs =
  files :: "(path \<times> bytes) list"
  dirs :: "path list"
  fault :: "os_op \<Rightarrow> path \<Rightarrow> string option"
  torn :: "path \<Rightarrow> nat option"

definition parent :: "path \<Rightarrow> path" where
  "parent p = (fst p, butlast (snd p))"

definition os_check :: "os_op \<Rightarrow> path \<Rightarrow> fs \<Rightarrow> unit res" where
  "os_check opn p f = (case fault f opn p of None \<Rightarrow> Ok () | Some msg \<Rightarrow> Err (ErrLib msg))"

text \<open>
  What \<open>os.WriteFile\<close> leaves in the file: it opens it, which creates or empties it, and then
  writes, and either can fail.
\<close>

definition written :: "path \<Rightarrow> bytes \<Rightarrow> fs \<Rightarrow> (path \<times> bytes) list" where
  "written p data f =
     (if parent p \<notin> set (dirs f) \<or> p \<in> set (dirs f) then files f
      else if fault f OpWriteFile p = None then AList.update p data (files f)
      else case torn f p of None \<Rightarrow> files f | Some n \<Rightarrow> AList.update p (take n data) (files f))"

definition os_WriteFile :: "path \<Rightarrow> bytes \<Rightarrow> (fs, unit) st" where
  "os_WriteFile p data f = (f\<lparr>files := written p data f\<rparr>,
     go_bind (os_check OpWriteFile p f) (\<lambda>_.
     if parent p \<notin> set (dirs f) then Err (ErrNotExist ''open'')
     else if p \<in> set (dirs f) then Err (ErrLib ''is a directory'')
     else Ok ()))"

definition os_ReadFile :: "path \<Rightarrow> fs \<Rightarrow> bytes res" where
  "os_ReadFile p f = go_bind (os_check OpReadFile p f) (\<lambda>_.
     case map_of (files f) p of Some data \<Rightarrow> Ok data
     | None \<Rightarrow> if p \<in> set (dirs f) then Err (ErrLib ''is a directory'') else Err (ErrNotExist ''open''))"

text \<open>Removing a directory is not modelled: the store never names one it created.\<close>

definition os_Remove :: "path \<Rightarrow> (fs, unit) st" where
  "os_Remove p f = (case os_check OpRemove p f of
      Ok _ \<Rightarrow> (if p \<in> keys (files f) then (f\<lparr>files := AList.delete p (files f)\<rparr>, Ok ())
         else if p \<in> set (dirs f) then (f, Err (ErrLib ''directory not empty''))
         else (f, Err (ErrNotExist ''remove'')))
    | Err e \<Rightarrow> (f, Err e)
    | Panic x \<Rightarrow> (f, Panic x))"

definition os_IsNotExist :: "go_error \<Rightarrow> bool" where
  "os_IsNotExist e = (case e of ErrNotExist _ \<Rightarrow> True | _ \<Rightarrow> False)"

definition os_MkdirAll :: "string \<Rightarrow> (fs, unit) st" where
  "os_MkdirAll s f =
    (let p = filepath_Clean s;
         above = map (\<lambda>n. (fst p, take n (snd p))) [0..<Suc (length (snd p))]
     in if s = [] then (f, Err (ErrNotExist ''mkdir''))
        else case os_check OpMkdirAll p f of
          Ok _ \<Rightarrow> (if \<exists>q \<in> set above. q \<in> keys (files f) then (f, Err (ErrLib ''not a directory''))
             else (f\<lparr>dirs := filter (\<lambda>q. q \<notin> set (dirs f)) above @ dirs f\<rparr>, Ok ()))
        | Err e \<Rightarrow> (f, Err e)
        | Panic x \<Rightarrow> (f, Panic x))"

text \<open>\<open>os.ReadDir\<close> returns the names in the directory in increasing order.\<close>

definition os_ReadDir :: "path \<Rightarrow> fs \<Rightarrow> string list res" where
  "os_ReadDir p f = go_bind (os_check OpReadDir p f) (\<lambda>_.
     if p \<notin> set (dirs f) then Err (ErrNotExist ''open'')
     else Ok (sort (remdups (map (\<lambda>q. last (snd q))
       (filter (\<lambda>q. snd q \<noteq> [] \<and> parent q = p) (map fst (files f) @ dirs f))))))"

section \<open>The key store\<close>

record KeyStore =
  storePath :: string
  encKey :: bytes

definition NewKeyStore :: "crypto_lib \<Rightarrow> string \<Rightarrow> bytes \<Rightarrow> (fs, KeyStore) st" where
  "NewKeyStore c path masterPassword =
     st_bind (st_lift (HKDF c masterPassword [] (bytes_of_string ''KeyStore-v1'') 32)) (\<lambda>key.
     st_bind (os_MkdirAll path) (\<lambda>_.
     st_lift (Ok \<lparr>storePath = path, encKey = key\<rparr>)))"

definition SaveDSAKeypair ::
  "crypto_lib \<Rightarrow> KeyStore \<Rightarrow> string \<Rightarrow> bytes \<Rightarrow> bytes \<Rightarrow> (fs, unit) meth" where
  "SaveDSAKeypair c ks keyID publicKey privateKey =
    (let pubPath = filepath_Join (storePath ks) (keyID @ ''.pub'')
     in st_bind (acting (os_WriteFile pubPath publicKey)) (\<lambda>_.
        st_bind (drawing (AESGCMEncrypt c (encKey ks) privateKey)) (\<lambda>encPriv.
        let privPath = filepath_Join (storePath ks) (keyID @ ''.priv'')
        in acting (os_WriteFile privPath encPriv))))"

definition LoadDSAKeypair :: "crypto_lib \<Rightarrow> KeyStore \<Rightarrow> string \<Rightarrow> fs \<Rightarrow> (bytes \<times> bytes) res" where
  "LoadDSAKeypair c ks keyID f =
    (let pubPath = filepath_Join (storePath ks) (keyID @ ''.pub'');
         privPath = filepath_Join (storePath ks) (keyID @ ''.priv'')
     in go_bind (os_ReadFile pubPath f) (\<lambda>publicKey.
        go_bind (os_ReadFile privPath f) (\<lambda>encPriv.
        go_bind (AESGCMDecrypt c (encKey ks) encPriv) (\<lambda>privateKey.
        Ok (publicKey, privateKey)))))"

definition HasKeypair :: "KeyStore \<Rightarrow> string \<Rightarrow> fs \<Rightarrow> bool" where
  "HasKeypair ks keyID f = is_ok (os_ReadFile (filepath_Join (storePath ks) (keyID @ ''.pub'')) f)"

text \<open>An error other than "does not exist" ends the call; \<open>remove_if_exists\<close> is that pattern.\<close>

definition remove_if_exists :: "path \<Rightarrow> (fs, unit) st" where
  "remove_if_exists p f = (case os_Remove p f of
      (f', Err e) \<Rightarrow> if os_IsNotExist e then (f', Ok ()) else (f', Err e)
    | (f', x) \<Rightarrow> (f', x))"

definition DeleteKeypair :: "KeyStore \<Rightarrow> string \<Rightarrow> (fs, unit) st" where
  "DeleteKeypair ks keyID =
    (let pubPath = filepath_Join (storePath ks) (keyID @ ''.pub'');
         privPath = filepath_Join (storePath ks) (keyID @ ''.priv'')
     in st_bind (remove_if_exists privPath) (\<lambda>_. remove_if_exists pubPath))"

fun list_loop :: "string list \<Rightarrow> string list \<Rightarrow> string set \<Rightarrow> string list" where
  "list_loop [] keyIDs seen = keyIDs"
| "list_loop (name # names) keyIDs seen =
    (if filepath_Ext name = ''.pub''
     then let keyID = take (length name - 4) name
          in if keyID \<notin> seen then list_loop names (keyIDs @ [keyID]) (insert keyID seen)
             else list_loop names keyIDs seen
     else list_loop names keyIDs seen)"

definition ListKeypairs :: "KeyStore \<Rightarrow> fs \<Rightarrow> string list res" where
  "ListKeypairs ks f = go_bind (os_ReadDir (filepath_Clean (storePath ks)) f) (\<lambda>entries.
     Ok (list_loop entries [] {}))"

text \<open>The store after \<open>Close\<close>: the key's bytes are overwritten and the field is nil.\<close>

definition KeyStore_Close :: "KeyStore \<Rightarrow> (rng, KeyStore) st" where
  "KeyStore_Close ks = st_bind (SecureClear (encKey ks)) (\<lambda>_. st_lift (Ok (ks\<lparr>encKey := []\<rparr>)))"

section \<open>Paths\<close>

definition plain :: "string \<Rightarrow> bool" where
  "plain s \<longleftrightarrow> CHR ''/'' \<notin> set s"

lemma split_slash_ne [simp]: "split_slash s \<noteq> []"
  by (induction s) (auto split: list.splits)

lemma split_slash_plain: "plain s \<Longrightarrow> split_slash s = [s]"
  by (induction s) (auto simp: plain_def)

lemma split_slash_append: "split_slash (a @ CHR ''/'' # b) = split_slash a @ split_slash b"
  by (induction a) (auto split: list.splits)

lemma clean_elems_append:
  "clean_elems r out (es @ es') = clean_elems r (rev (clean_elems r out es)) es'"
  by (induction r out es rule: clean_elems.induct) (auto split: list.splits)

lemma clean_elems_snoc:
  "e \<notin> {[], ''.'', ''..''} \<Longrightarrow> clean_elems r out (es @ [e]) = clean_elems r out es @ [e]"
  by (simp add: clean_elems_append)

lemma long_not_dots: "3 \<le> length e \<Longrightarrow> e \<notin> {[], ''.'', ''..''}"
  by auto

text \<open>The path of an entry of a directory, for a name without slashes.\<close>

definition entry :: "string \<Rightarrow> string \<Rightarrow> path" where
  "entry dir name = (let p = filepath_Clean dir in (fst p, snd p @ [name]))"

lemma Join_plain:
  assumes "plain name" "3 \<le> length name"
  shows "filepath_Join dir name = entry dir name"
proof -
  note n = clean_elems_snoc [OF long_not_dots [OF assms(2)]]
  have "hd name \<noteq> CHR ''/''" using assms by (cases name) (auto simp: plain_def)
  then show ?thesis
    using n [of False "[]" "[]"] assms
    by (auto simp: filepath_Join_def filepath_Clean_def entry_def Let_def split_slash_plain
        split_slash_append n)
qed

lemma entry_eq_iff [simp]: "entry dir a = entry dir b \<longleftrightarrow> a = b"
  by (simp add: entry_def Let_def)

lemma parent_entry [simp]: "parent (entry dir a) = filepath_Clean dir"
  by (simp add: parent_def entry_def Let_def)

lemma plain_append [simp]: "plain (a @ b) \<longleftrightarrow> plain a \<and> plain b"
  by (auto simp: plain_def)

lemma plain_ext [simp]: "plain ''.pub''" "plain ''.priv''"
  by (simp_all add: plain_def)

lemma Join_key [simp]:
  "plain keyID \<Longrightarrow> filepath_Join dir (keyID @ ''.pub'') = entry dir (keyID @ ''.pub'')"
  "plain keyID \<Longrightarrow> filepath_Join dir (keyID @ ''.priv'') = entry dir (keyID @ ''.priv'')"
  by (rule Join_plain; simp)+

lemma pub_neq_priv [simp]: "a @ ''.pub'' \<noteq> b @ ''.priv''" "b @ ''.priv'' \<noteq> a @ ''.pub''"
proof -
  have "last (a @ ''.pub'') \<noteq> last (b @ ''.priv'')" by simp
  then show "a @ ''.pub'' \<noteq> b @ ''.priv''" "b @ ''.priv'' \<noteq> a @ ''.pub''" by fastforce+
qed

text \<open>A name that starts with \<open>../\<close> leads to the directory above.\<close>

lemma Join_above:
  assumes "plain y" "3 \<le> length y" "dir \<noteq> []" "filepath_Clean dir = (rooted, elems @ [d])" "d \<noteq> ''..''"
  shows "filepath_Join dir (''../'' @ y) = (rooted, elems @ [y])"
proof -
  have "split_slash (''../'' @ y) = [''..'', y]"
    using split_slash_append [of "''..''" y] assms(1) by (simp add: split_slash_plain)
  then have "split_slash (dir @ ''/'' @ ''../'' @ y) = split_slash dir @ [''..'', y]"
    using split_slash_append [of dir "''../'' @ y"] by simp
  then show ?thesis
    using assms(3-5) long_not_dots [OF assms(2)]
    by (auto simp: filepath_Join_def filepath_Clean_def Let_def clean_elems_append)
qed

section \<open>Files\<close>

text \<open>
  A file system the store can work on: its directory exists, no directory has the name of a
  key file, and no call fails on its own.
\<close>

definition store_ready :: "KeyStore \<Rightarrow> fs \<Rightarrow> bool" where
  "store_ready ks f \<longleftrightarrow> filepath_Clean (storePath ks) \<in> set (dirs f)
     \<and> (\<forall>keyID. entry (storePath ks) (keyID @ ''.pub'') \<notin> set (dirs f)
              \<and> entry (storePath ks) (keyID @ ''.priv'') \<notin> set (dirs f))
     \<and> fault f = (\<lambda>opn p. None)"

definition pub_file :: "KeyStore \<Rightarrow> string \<Rightarrow> fs \<Rightarrow> bytes option" where
  "pub_file ks keyID f = map_of (files f) (entry (storePath ks) (keyID @ ''.pub''))"

definition priv_file :: "KeyStore \<Rightarrow> string \<Rightarrow> fs \<Rightarrow> bytes option" where
  "priv_file ks keyID f = map_of (files f) (entry (storePath ks) (keyID @ ''.priv''))"

lemma Load_eq:
  assumes "store_ready ks f" "plain keyID"
  shows "LoadDSAKeypair c ks keyID f = (case (pub_file ks keyID f, priv_file ks keyID f) of
      (Some pub, Some enc) \<Rightarrow> go_bind (AESGCMDecrypt c (encKey ks) enc) (\<lambda>priv. Ok (pub, priv))
    | _ \<Rightarrow> Err (ErrNotExist ''open''))"
  using assms
  by (simp add: LoadDSAKeypair_def os_ReadFile_def os_check_def store_ready_def pub_file_def
      priv_file_def split: option.splits)

lemma Has_eq:
  "store_ready ks f \<Longrightarrow> plain keyID \<Longrightarrow> HasKeypair ks keyID f \<longleftrightarrow> pub_file ks keyID f \<noteq> None"
  by (auto simp: HasKeypair_def os_ReadFile_def os_check_def store_ready_def pub_file_def
      split: option.splits)

lemma WriteFile_ready:
  assumes "store_ready ks f" "name = keyID @ ''.pub'' \<or> name = keyID @ ''.priv''"
  shows "os_WriteFile (entry (storePath ks) name) data f =
    (f\<lparr>files := AList.update (entry (storePath ks) name) data (files f)\<rparr>, Ok ())"
  using assms by (auto simp: os_WriteFile_def written_def os_check_def store_ready_def)

lemma store_ready_files [simp]: "store_ready ks (f\<lparr>files := fl\<rparr>) = store_ready ks f"
  by (simp add: store_ready_def)

text \<open>What saving leaves: the public file first, then the sealed private one, if sealing works.\<close>

lemma Save_eq:
  assumes "store_ready ks f" "plain keyID"
  shows "SaveDSAKeypair c ks keyID pub priv (f, r) =
    (let f1 = f\<lparr>files := AList.update (entry (storePath ks) (keyID @ ''.pub'')) pub (files f)\<rparr>
     in case AESGCMEncrypt c (encKey ks) priv r of
       (r', Ok enc) \<Rightarrow> ((f1\<lparr>files := AList.update (entry (storePath ks) (keyID @ ''.priv'')) enc
           (files f1)\<rparr>, r'), Ok ())
     | (r', Err e) \<Rightarrow> ((f1, r'), Err e)
     | (r', Panic p) \<Rightarrow> ((f1, r'), Panic p))"
  using assms
  by (simp add: SaveDSAKeypair_def acting_run drawing_run Let_def
      WriteFile_ready [where keyID = keyID] split: prod.splits res.splits)

text \<open>The same on a file system that may fail, once the first write has succeeded.\<close>

lemma Save_any:
  assumes "store_ready ks f" "plain keyID" "storePath ks' = storePath ks"
    and "flt OpWriteFile (entry (storePath ks) (keyID @ ''.pub'')) = None"
  shows "SaveDSAKeypair c ks' keyID pub priv (f\<lparr>fault := flt, torn := tn\<rparr>, r) =
    (let f1 = f\<lparr>files := AList.update (entry (storePath ks) (keyID @ ''.pub'')) pub (files f), fault := flt, torn := tn\<rparr>
     in case AESGCMEncrypt c (encKey ks') priv r of
       (r', Ok enc) \<Rightarrow> ((f1\<lparr>files := written (entry (storePath ks) (keyID @ ''.priv'')) enc f1\<rparr>, r'),
         (case flt OpWriteFile (entry (storePath ks) (keyID @ ''.priv'')) of None \<Rightarrow> Ok () | Some msg \<Rightarrow> Err (ErrLib msg)))
     | (r', Err e) \<Rightarrow> ((f1, r'), Err e)
     | (r', Panic p) \<Rightarrow> ((f1, r'), Panic p))"
proof -
  let ?pub = "entry (storePath ks) (keyID @ ''.pub'')" and ?priv = "entry (storePath ks) (keyID @ ''.priv'')"
  have d: "?pub \<notin> set (dirs f)" "?priv \<notin> set (dirs f)" "filepath_Clean (storePath ks) \<in> set (dirs f)"
    using assms(1) by (simp_all add: store_ready_def)
  have "os_WriteFile ?pub pub (f\<lparr>fault := flt, torn := tn\<rparr>) =
      (f\<lparr>files := AList.update ?pub pub (files f), fault := flt, torn := tn\<rparr>, Ok ())"
    using d assms(4) by (simp add: os_WriteFile_def written_def os_check_def)
  moreover have "os_WriteFile ?priv enc (f\<lparr>files := fl, fault := flt, torn := tn\<rparr>) =
      (f\<lparr>files := written ?priv enc (f\<lparr>files := fl, fault := flt, torn := tn\<rparr>), fault := flt, torn := tn\<rparr>,
       case flt OpWriteFile ?priv of None \<Rightarrow> Ok () | Some msg \<Rightarrow> Err (ErrLib msg))" for enc fl
    using d by (simp add: os_WriteFile_def os_check_def split: option.splits)
  ultimately show ?thesis
    using assms(2,3) by (simp add: SaveDSAKeypair_def acting_run drawing_run Let_def split: prod.splits res.splits)
qed

lemma remove_ready:
  assumes "store_ready ks f" "name = keyID @ ''.pub'' \<or> name = keyID @ ''.priv''"
  shows "remove_if_exists (entry (storePath ks) name) f =
    (f\<lparr>files := AList.delete (entry (storePath ks) name) (files f)\<rparr>, Ok ())"
proof (cases "entry (storePath ks) name \<in> keys (files f)")
  case True
  with assms show ?thesis
    by (simp add: remove_if_exists_def os_Remove_def os_check_def store_ready_def)
next
  case False
  then have "AList.delete (entry (storePath ks) name) (files f) = files f"
    by (simp add: AList.delete_id)
  with assms False show ?thesis
    by (auto simp: remove_if_exists_def os_Remove_def os_check_def store_ready_def os_IsNotExist_def)
qed

lemma Delete_eq:
  assumes "store_ready ks f" "plain keyID"
  shows "DeleteKeypair ks keyID f = (f\<lparr>files := AList.delete (entry (storePath ks) (keyID @ ''.pub''))
      (AList.delete (entry (storePath ks) (keyID @ ''.priv'')) (files f))\<rparr>, Ok ())"
  using assms
  by (simp add: DeleteKeypair_def st_bind_def remove_ready [where keyID = keyID])

section \<open>The store as a map\<close>

text \<open>A sequence of changes, made on a store and on a map: \<open>Some v\<close> saves and \<open>None\<close> deletes.\<close>

fun run_changes :: "(string \<Rightarrow> 'v \<Rightarrow> ('s, unit) st) \<Rightarrow> (string \<Rightarrow> ('s, unit) st) \<Rightarrow>
    (string \<times> 'v option) list \<Rightarrow> ('s, unit) st" where
  "run_changes put remove [] = st_lift (Ok ())"
| "run_changes put remove ((k, Some v) # ops) = st_bind (put k v) (\<lambda>_. run_changes put remove ops)"
| "run_changes put remove ((k, None) # ops) = st_bind (remove k) (\<lambda>_. run_changes put remove ops)"

fun map_changes :: "(string \<times> 'v option) list \<Rightarrow> (string \<rightharpoonup> 'v) \<Rightarrow> (string \<rightharpoonup> 'v)" where
  "map_changes [] m = m"
| "map_changes ((k, v) # ops) m = map_changes ops (m(k := v))"

text \<open>
  What a client of a key store may rely on: a saved pair can be looked up until it is saved
  over or deleted, and other names are not affected.
\<close>

locale key_map =
  fixes usable :: "'s \<Rightarrow> bool"
    and lookup :: "'s \<Rightarrow> string \<rightharpoonup> 'v"
    and put :: "string \<Rightarrow> 'v \<Rightarrow> ('s, unit) st"
    and remove :: "string \<Rightarrow> ('s, unit) st"
    and name :: "string \<Rightarrow> bool"
  assumes put_Ok: "usable s \<Longrightarrow> name k \<Longrightarrow> put k v s = (s', Ok ()) \<Longrightarrow>
      usable s' \<and> lookup s' = (lookup s)(k \<mapsto> v)"
    and remove_Ok: "usable s \<Longrightarrow> name k \<Longrightarrow>
      \<exists>s'. remove k s = (s', Ok ()) \<and> usable s' \<and> lookup s' = (lookup s)(k := None)"
begin

lemma run_refines:
  assumes "usable s" "\<forall>(k, v) \<in> set ops. name k" "run_changes put remove ops s = (s', Ok ())"
  shows "usable s' \<and> lookup s' = map_changes ops (lookup s)"
  using assms
proof (induction ops arbitrary: s)
  case (Cons op ops)
  obtain k v where op: "op = (k, v)" by (cases op)
  show ?case
  proof (cases v)
    case None
    obtain s1 where s1: "remove k s = (s1, Ok ())" "usable s1" "lookup s1 = (lookup s)(k := None)"
      using remove_Ok [of s k] Cons.prems(1,2) by (auto simp: op)
    with Cons show ?thesis by (simp add: op None st_bind_Ok [of "remove k", OF s1(1)])
  next
    case (Some x)
    with Cons.prems(3) obtain s1 where s1: "put k x s = (s1, Ok ())"
        "run_changes put remove ops s1 = (s', Ok ())"
      by (auto simp: op res_iff)
    with put_Ok [OF Cons.prems(1) _ s1(1)] Cons show ?thesis by (auto simp: op Some)
  qed
qed simp

lemma put_then_lookup: "usable s \<Longrightarrow> name k \<Longrightarrow> put k v s = (s', Ok ()) \<Longrightarrow> lookup s' k = Some v"
  using put_Ok by fastforce

lemma put_elsewhere:
  "usable s \<Longrightarrow> name k \<Longrightarrow> put k v s = (s', Ok ()) \<Longrightarrow> j \<noteq> k \<Longrightarrow> lookup s' j = lookup s j"
  using put_Ok by fastforce

end

definition store_usable :: "crypto_lib \<Rightarrow> KeyStore \<Rightarrow> fs \<times> rng \<Rightarrow> bool" where
  "store_usable c ks s \<longleftrightarrow> aead_laws c \<and> store_ready ks (fst s)"

definition store_lookup :: "crypto_lib \<Rightarrow> KeyStore \<Rightarrow> fs \<times> rng \<Rightarrow> string \<Rightarrow> (bytes \<times> bytes) option" where
  "store_lookup c ks s keyID = (if plain keyID
     then case LoadDSAKeypair c ks keyID (fst s) of Ok kp \<Rightarrow> Some kp | _ \<Rightarrow> None else None)"

definition store_put :: "crypto_lib \<Rightarrow> KeyStore \<Rightarrow> string \<Rightarrow> bytes \<times> bytes \<Rightarrow> (fs, unit) meth" where
  "store_put c ks keyID kp = SaveDSAKeypair c ks keyID (fst kp) (snd kp)"

definition store_remove :: "KeyStore \<Rightarrow> string \<Rightarrow> (fs, unit) meth" where
  "store_remove ks keyID = acting (DeleteKeypair ks keyID)"

lemma Save_Ok:
  assumes "aead_laws c" "store_ready ks f" "plain keyID"
    and "SaveDSAKeypair c ks keyID pub priv (f, r) = ((f', r'), Ok ())"
  shows "store_ready ks f'" and "LoadDSAKeypair c ks keyID f' = Ok (pub, priv)"
    and "j \<noteq> keyID \<Longrightarrow> pub_file ks j f' = pub_file ks j f \<and> priv_file ks j f' = priv_file ks j f"
proof -
  obtain enc where enc: "AESGCMEncrypt c (encKey ks) priv r = (r', Ok enc)"
    and f': "f' = f\<lparr>files := AList.update (entry (storePath ks) (keyID @ ''.priv'')) enc
      (AList.update (entry (storePath ks) (keyID @ ''.pub'')) pub (files f))\<rparr>"
    using assms(4) by (auto simp: Save_eq [OF assms(2,3)] Let_def split: prod.splits res.splits)
  show ready: "store_ready ks f'" using assms(2) by (simp add: f')
  have "pub_file ks keyID f' = Some pub" "priv_file ks keyID f' = Some enc"
    by (simp_all add: f' pub_file_def priv_file_def update_conv')
  then show "LoadDSAKeypair c ks keyID f' = Ok (pub, priv)"
    using aesgcm.unseal_seal [OF assms(1) enc] by (simp add: Load_eq [OF ready assms(3)])
  show "pub_file ks j f' = pub_file ks j f \<and> priv_file ks j f' = priv_file ks j f" if "j \<noteq> keyID"
    using that by (simp add: f' pub_file_def priv_file_def update_conv')
qed

interpretation keystore: key_map "store_usable c ks" "store_lookup c ks" "store_put c ks"
    "store_remove ks" plain
  for c ks
proof unfold_locales
  fix s k v s'
  assume u: "store_usable c ks s" and k: "plain k" and run: "store_put c ks k v s = (s', Ok ())"
  obtain f r f' r' where s: "s = (f, r)" "s' = (f', r')" by (cases s; cases s')
  have f: "aead_laws c" "store_ready ks f" using u by (simp_all add: store_usable_def s)
  note save = Save_Ok [OF f k run [unfolded store_put_def s]]
  have kept: "LoadDSAKeypair c ks j f' = LoadDSAKeypair c ks j f" if "j \<noteq> k" "plain j" for j
    by (simp add: Load_eq [OF f(2) that(2)] Load_eq [OF save(1) that(2)] save(3) [OF that(1)])
  show "store_usable c ks s' \<and> store_lookup c ks s' = (store_lookup c ks s)(k \<mapsto> v)"
  proof (intro conjI ext)
    show "store_usable c ks s'" using f save(1) by (simp add: store_usable_def s)
    show "store_lookup c ks s' j = ((store_lookup c ks s)(k \<mapsto> v)) j" for j
      using k save(2) kept [of j] by (auto simp: store_lookup_def s)
  qed
next
  fix s k
  assume u: "store_usable c ks s" and k: "plain k"
  obtain f r where s: "s = (f, r)" by (cases s)
  have f: "aead_laws c" "store_ready ks f" using u by (simp_all add: store_usable_def s)
  define f' where "f' = f\<lparr>files := AList.delete (entry (storePath ks) (k @ ''.pub''))
      (AList.delete (entry (storePath ks) (k @ ''.priv'')) (files f))\<rparr>"
  have ready: "store_ready ks f'" using f(2) by (simp add: f'_def)
  have gone: "pub_file ks k f' = None"
    by (simp add: f'_def pub_file_def map_of_delete_alist)
  have "pub_file ks j f' = pub_file ks j f \<and> priv_file ks j f' = priv_file ks j f" if "j \<noteq> k" for j
    using that by (simp add: f'_def pub_file_def priv_file_def map_of_delete_alist)
  then have kept: "LoadDSAKeypair c ks j f' = LoadDSAKeypair c ks j f" if "j \<noteq> k" "plain j" for j
    by (simp add: Load_eq [OF f(2) that(2)] Load_eq [OF ready that(2)] that(1))
  have "store_lookup c ks (f', r) j = ((store_lookup c ks (f, r))(k := None)) j" for j
    using gone kept [of j] Load_eq [OF ready k, of c] by (auto simp: store_lookup_def)
  then have "store_lookup c ks (f', r) = (store_lookup c ks (f, r))(k := None)" by blast
  moreover have "store_remove ks k (f, r) = ((f', r), Ok ())"
    by (simp add: store_remove_def acting_run Delete_eq [OF f(2) k] f'_def)
  ultimately show "\<exists>s'. store_remove ks k s = (s', Ok ()) \<and> store_usable c ks s' \<and>
      store_lookup c ks s' = (store_lookup c ks s)(k := None)"
    using f ready by (simp add: s store_usable_def)
qed

section \<open>Opening and listing\<close>

lemma no_entry_above [simp]:
  "(b, take n (snd (filepath_Clean dir))) \<noteq> entry dir name"
  "entry dir name \<noteq> (b, take n (snd (filepath_Clean dir)))"
  by (auto simp: entry_def Let_def dest: arg_cong [where f = length])

lemma NewKeyStore_ready:
  assumes c: "hash_laws c" and f: "fault f = (\<lambda>opn p. None)"
    and free: "\<And>keyID. entry path (keyID @ ''.pub'') \<notin> set (dirs f)"
      "\<And>keyID. entry path (keyID @ ''.priv'') \<notin> set (dirs f)"
    and new: "NewKeyStore c path pw f = (f1, Ok ks)"
  shows "store_ready ks f1" "files f1 = files f" "storePath ks = path" "length (encKey ks) = 32"
    and "keys fl \<subseteq> keys (files f1) \<union> {entry path a, entry path b} \<Longrightarrow>
      NewKeyStore c path pw (f1\<lparr>files := fl\<rparr>) = (f1\<lparr>files := fl\<rparr>, Ok ks)"
proof -
  let ?above = "map (\<lambda>n. (fst (filepath_Clean path), take n (snd (filepath_Clean path))))
    [0..<Suc (length (snd (filepath_Clean path)))]"
  obtain key where key: "HKDF c pw [] (bytes_of_string ''KeyStore-v1'') 32 = Ok key" "length key = 32"
    by (simp add: HKDF_def hkdf_Key_def hash_law_facts [OF c])
  have new': "path \<noteq> []" "\<forall>q \<in> set ?above. q \<notin> keys (files f)"
    and f1: "f1 = f\<lparr>dirs := filter (\<lambda>q. q \<notin> set (dirs f)) ?above @ dirs f\<rparr>"
    and ks: "ks = \<lparr>storePath = path, encKey = key\<rparr>"
    using new by (auto simp: NewKeyStore_def key os_MkdirAll_def os_check_def f st_bind_def Let_def
        simp del: upt_Suc split: if_splits)
  show "files f1 = files f" "storePath ks = path" "length (encKey ks) = 32"
    by (simp_all add: f1 ks key)
  have "filepath_Clean path \<in> set ?above"
    by (auto simp del: upt_Suc intro!: image_eqI [of _ _ "length (snd (filepath_Clean path))"])
  then have dir: "filepath_Clean path \<in> set (dirs f1)" by (auto simp: f1 simp del: upt_Suc)
  have "entry path nm \<notin> set (dirs f) \<Longrightarrow> entry path nm \<notin> set (dirs f1)" for nm
    by (auto simp: f1 simp del: upt_Suc)
  with dir free f show "store_ready ks f1"
    by (simp add: store_ready_def ks) (simp add: f1)
  show "NewKeyStore c path pw (f1\<lparr>files := fl\<rparr>) = (f1\<lparr>files := fl\<rparr>, Ok ks)"
    if fl: "keys fl \<subseteq> keys (files f1) \<union> {entry path a, entry path b}"
  proof -
    have "\<forall>q \<in> set ?above. q \<notin> keys fl"
    proof
      fix q assume q: "q \<in> set ?above"
      then have "q \<noteq> entry path a" "q \<noteq> entry path b"
        by (auto simp del: upt_Suc)
      moreover have "q \<notin> keys (files f)" using new'(2) q by blast
      ultimately show "q \<notin> keys fl" using fl by (auto simp: f1)
    qed
    moreover have "filter (\<lambda>q. q \<notin> set (dirs f1)) ?above = []"
      by (auto simp: f1 filter_empty_conv simp del: upt_Suc)
    ultimately show ?thesis
      using new'(1) f key
      by (auto simp: NewKeyStore_def os_MkdirAll_def os_check_def st_bind_def Let_def ks
          simp del: upt_Suc) (simp_all add: f1)
  qed
qed

lemma Ext_pub_iff: "filepath_Ext name = ''.pub'' \<longleftrightarrow> (\<exists>keyID. name = keyID @ ''.pub'')"
proof
  assume ext: "filepath_Ext name = ''.pub''"
  define t where "t = takeWhile (\<lambda>ch. ch \<noteq> CHR ''.'') (rev name)"
  have dot: "CHR ''.'' \<in> set (rev name)" and t: "rev t = ''pub''"
    using ext by (auto simp: filepath_Ext_def t_def split: if_splits)
  define d where "d = dropWhile (\<lambda>ch. ch \<noteq> CHR ''.'') (rev name)"
  have d: "d \<noteq> []" "hd d = CHR ''.''"
    using dot hd_dropWhile [of "\<lambda>ch. ch \<noteq> CHR ''.''" "rev name"]
    by (auto simp: d_def dropWhile_eq_Nil_conv)
  have "rev name = t @ d" by (simp add: t_def d_def)
  then have "name = rev d @ rev t" by (metis rev_append rev_rev_ident)
  also have "rev d = rev (tl d) @ ''.''" using d by (cases d) auto
  finally show "\<exists>keyID. name = keyID @ ''.pub''" by (simp add: t)
qed (auto simp: filepath_Ext_def)

lemma list_loop_spec:
  "distinct ids \<Longrightarrow> distinct (list_loop names ids (set ids)) \<and>
     set (list_loop names ids (set ids)) = set ids \<union> {keyID. keyID @ ''.pub'' \<in> set names}"
proof (induction names arbitrary: ids)
  case (Cons name names)
  show ?case
  proof (cases "\<exists>keyID. name = keyID @ ''.pub''")
    case True
    then obtain keyID where name: "name = keyID @ ''.pub''" by blast
    then have "filepath_Ext name = ''.pub''" by (simp add: Ext_pub_iff)
    then show ?thesis
      using Cons.IH [of ids] Cons.IH [of "ids @ [keyID]"] Cons.prems
      by (auto simp: name Let_def)
  next
    case False
    then have "filepath_Ext name \<noteq> ''.pub''" by (simp add: Ext_pub_iff)
    then show ?thesis using Cons.IH [of ids] Cons.prems False by auto
  qed
qed simp

lemma ListKeypairs_spec:
  assumes "store_ready ks f"
  shows "\<exists>ids. ListKeypairs ks f = Ok ids \<and> distinct ids \<and>
    (\<forall>keyID. keyID \<in> set ids \<longleftrightarrow> pub_file ks keyID f \<noteq> None)"
proof -
  let ?dir = "filepath_Clean (storePath ks)"
  let ?names = "sort (remdups (map (\<lambda>q. last (snd q))
      (filter (\<lambda>q. snd q \<noteq> [] \<and> parent q = ?dir) (map fst (files f) @ dirs f))))"
  have entry: "q = entry (storePath ks) (last (snd q))" if "snd q \<noteq> []" "parent q = ?dir" for q
    unfolding entry_def that(2) [symmetric] using that(1) by (cases q) (simp add: parent_def Let_def)
  have names: "set ?names = (\<lambda>q. last (snd q)) `
      {q \<in> keys (files f) \<union> set (dirs f). snd q \<noteq> [] \<and> parent q = ?dir}"
    by auto
  have "name \<in> set ?names \<longleftrightarrow> entry (storePath ks) name \<in> keys (files f) \<union> set (dirs f)" for name
  proof
    assume "name \<in> set ?names"
    then obtain q where "q \<in> keys (files f) \<union> set (dirs f)" "snd q \<noteq> []" "parent q = ?dir"
      "name = last (snd q)" unfolding names by blast
    with entry [of q] show "entry (storePath ks) name \<in> keys (files f) \<union> set (dirs f)" by simp
  next
    let ?q = "entry (storePath ks) name"
    assume "?q \<in> keys (files f) \<union> set (dirs f)"
    moreover have "snd ?q \<noteq> []" "last (snd ?q) = name" "parent ?q = ?dir"
      by (simp_all add: entry_def parent_def Let_def)
    ultimately show "name \<in> set ?names"
      unfolding names by (intro image_eqI [of _ _ ?q]) simp_all
  qed
  then have "keyID @ ''.pub'' \<in> set ?names \<longleftrightarrow> pub_file ks keyID f \<noteq> None" for keyID
    using assms by (simp add: store_ready_def pub_file_def map_of_eq_None_iff)
  moreover have "ListKeypairs ks f = Ok (list_loop ?names [] {})"
    using assms by (simp add: ListKeypairs_def os_ReadDir_def os_check_def store_ready_def)
  ultimately show ?thesis
    using list_loop_spec [of "[]" ?names] by auto
qed

section \<open>Opening the store again\<close>

lemma NewKeyStore_after_save:
  assumes laws: "aead_laws c" "hash_laws c" and f: "fault f = (\<lambda>opn p. None)"
    and free: "\<forall>keyID. entry path (keyID @ ''.pub'') \<notin> set (dirs f) \<and>
      entry path (keyID @ ''.priv'') \<notin> set (dirs f)"
    and new: "NewKeyStore c path password f = (f1, Ok ks)" and name: "plain keyID"
    and save: "SaveDSAKeypair c ks keyID pub priv (f1, r) = ((f2, r'), Ok ())"
  shows "NewKeyStore c path password f2 = (f2, Ok ks)"
    and "LoadDSAKeypair c ks keyID f2 = Ok (pub, priv)" and "HasKeypair ks keyID f2"
    and "length (encKey ks) = 32"
proof -
  note opened = NewKeyStore_ready [OF laws(2) f _ _ new, OF free [rule_format, THEN conjunct1]
      free [rule_format, THEN conjunct2]]
  show "length (encKey ks) = 32" by (rule opened(4))
  let ?pub = "entry (storePath ks) (keyID @ ''.pub'')" and ?priv = "entry (storePath ks) (keyID @ ''.priv'')"
  obtain enc where f2: "f2 = f1\<lparr>files := AList.update ?priv enc (AList.update ?pub pub (files f1))\<rparr>"
    using save by (auto simp: Save_eq [OF opened(1) name] Let_def split: prod.splits res.splits)
  show "NewKeyStore c path password f2 = (f2, Ok ks)"
    unfolding f2 using opened(3) by (intro opened(5) [where a = "keyID @ ''.pub''" and b = "keyID @ ''.priv''"])
      (auto simp: keys_update_alist)
  note loaded = Save_Ok [OF laws(1) opened(1) name save]
  show "LoadDSAKeypair c ks keyID f2 = Ok (pub, priv)" by (rule loaded(2))
  show "HasKeypair ks keyID f2"
    unfolding Has_eq [OF loaded(1) name] by (simp add: pub_file_def update_conv' f2)
qed

section \<open>A concrete file system\<close>

text \<open>The home directory of the examples, at which the properties are instantiated.\<close>

definition demo_fs :: fs where
  "demo_fs = \<lparr>files = [], dirs = [(True, [''u''])], fault = (\<lambda>opn p. None), torn = (\<lambda>p. None)\<rparr>"

definition demo_store :: KeyStore where
  "demo_store = \<lparr>storePath = ''/u'', encKey = replicate 32 7\<rparr>"

lemma demo_clean [simp]: "filepath_Clean ''/u'' = (True, [''u''])"
  by (simp add: filepath_Clean_def Let_def)

lemma demo_ready: "store_ready demo_store demo_fs"
  by (simp add: store_ready_def demo_store_def demo_fs_def entry_def)

lemma demo_save:
  assumes "store_ready demo_store f" "plain keyID"
  obtains f' where "SaveDSAKeypair demo_lib demo_store keyID pub [x] (f, Some n # r) = ((f', r), Ok ())"
proof -
  have "AESGCMEncrypt demo_lib (encKey demo_store) [x] (Some n # r) =
      (r, Ok (fit 12 n @ lib_seal demo_lib (encKey demo_store) (fit 12 n) [x]))"
    by (rule AESGCMEncrypt_Some) (simp_all add: demo_store_def gcm_max_def)
  with Save_eq [OF assms, of demo_lib pub "[x]" "Some n # r"] that show thesis
    by (simp add: Let_def)
qed

section \<open>Properties\<close>

text \<open>
  C5. The key store implements a map. Take any sequence of saves and deletes of key names
  without a slash that runs to its end without an error, from a file system in which the
  store's directory exists: looking up any name afterwards gives what the same changes make
  of the map of key pairs the store held before.
\<close>

theorem keystore_refines_map:
  assumes "aead_laws c" and "store_ready ks f" and "\<forall>(keyID, v) \<in> set ops. plain keyID"
    and "run_changes (store_put c ks) (store_remove ks) ops (f, r) = ((f', r'), Ok ())"
  shows "store_lookup c ks (f', r') = map_changes ops (store_lookup c ks (f, r))"
  using keystore.run_refines [of c ks "(f, r)" ops "(f', r')"] assms
  by (simp add: store_usable_def)

theorem keystore_refines_map_witness:
  "\<exists>s. run_changes (store_put demo_lib demo_store) (store_remove demo_store)
       [(''a'', Some ([1], [2])), (''b'', Some ([3], [4])), (''a'', None)] (demo_fs, [Some [5], Some [6]])
       = (s, Ok ()) \<and>
     store_lookup demo_lib demo_store s ''b'' = Some ([3], [4]) \<and>
     store_lookup demo_lib demo_store s ''a'' = None"
proof -
  let ?ops = "[(''a'', Some ([1], [2])), (''b'', Some ([3], [4])), (''a'', None)]
    :: (string \<times> (bytes \<times> bytes) option) list"
  obtain f' r' where run: "run_changes (store_put demo_lib demo_store) (store_remove demo_store) ?ops
      (demo_fs, [Some [5], Some [6]]) = ((f', r'), Ok ())"
  proof -
    have names: "plain ''a''" "plain ''b''" by (simp_all add: plain_def)
    obtain f1 where f1:
      "SaveDSAKeypair demo_lib demo_store ''a'' [1] [2] (demo_fs, [Some [5], Some [6]]) = ((f1, [Some [6]]), Ok ())"
      by (rule demo_save [OF demo_ready names(1)])
    note r1 = Save_Ok(1) [OF demo_laws(2) demo_ready names(1) f1]
    obtain f2 where f2:
      "SaveDSAKeypair demo_lib demo_store ''b'' [3] [4] (f1, [Some [6]]) = ((f2, []), Ok ())"
      by (rule demo_save [OF r1 names(2)])
    note r2 = Save_Ok(1) [OF demo_laws(2) r1 names(2) f2]
    show thesis
      using f1 f2 Delete_eq [OF r2 names(1)] that
      by (simp add: st_bind_def store_put_def store_remove_def acting_run)
  qed
  moreover have "store_lookup demo_lib demo_store (f', r') = map_changes ?ops
      (store_lookup demo_lib demo_store (demo_fs, [Some [5], Some [6]]))"
    by (rule keystore_refines_map [OF demo_laws(2) demo_ready _ run]) (simp add: plain_def)
  ultimately show ?thesis by (intro exI [of _ "(f', r')"]) simp
qed

text \<open>
  C22. Keys survive a restart. Opening a store, saving a key pair and opening the store again
  with the same path and password gives the pair back and reports it as present, for every
  name without a slash, every password and every nonce; the second opening changes no file.
\<close>

theorem keystore_reopen:
  assumes laws: "aead_laws c" "hash_laws c" and f: "fault f = (\<lambda>opn p. None)"
    and free: "\<forall>keyID. entry path (keyID @ ''.pub'') \<notin> set (dirs f) \<and>
      entry path (keyID @ ''.priv'') \<notin> set (dirs f)"
    and new: "NewKeyStore c path password f = (f1, Ok ks)"
    and name: "plain keyID" and fits: "length priv \<le> gcm_max"
  shows "\<exists>f2 ks'. SaveDSAKeypair c ks keyID pub priv (f1, Some n # r) = ((f2, r), Ok ())
    \<and> NewKeyStore c path password f2 = (f2, Ok ks')
    \<and> LoadDSAKeypair c ks' keyID f2 = Ok (pub, priv) \<and> HasKeypair ks' keyID f2"
proof -
  note opened = NewKeyStore_ready [OF laws(2) f _ _ new, OF free [rule_format, THEN conjunct1]
      free [rule_format, THEN conjunct2]]
  obtain enc where enc: "AESGCMEncrypt c (encKey ks) priv (Some n # r) = (r, Ok enc)"
    using AESGCMEncrypt_Some [OF opened(4) fits] by blast
  obtain f2 where save: "SaveDSAKeypair c ks keyID pub priv (f1, Some n # r) = ((f2, r), Ok ())"
    by (simp add: Save_eq [OF opened(1) name] enc Let_def)
  from NewKeyStore_after_save [OF laws f free new name save] save show ?thesis by blast
qed

theorem keystore_reopen_witness:
  "\<exists>f1 ks f2. NewKeyStore demo_lib ''/u'' [9] demo_fs = (f1, Ok ks) \<and>
     SaveDSAKeypair demo_lib ks ''default'' [1] [2] (f1, [Some [3]]) = ((f2, []), Ok ())"
proof -
  have "fault demo_fs = (\<lambda>opn p. None)" by (simp add: demo_fs_def)
  moreover have "\<forall>keyID. entry ''/u'' (keyID @ ''.pub'') \<notin> set (dirs demo_fs) \<and>
      entry ''/u'' (keyID @ ''.priv'') \<notin> set (dirs demo_fs)"
    by (simp add: demo_fs_def entry_def)
  moreover obtain f1 ks where new: "NewKeyStore demo_lib ''/u'' [9] demo_fs = (f1, Ok ks)"
    by (simp add: NewKeyStore_def HKDF_def hkdf_Key_def st_bind_def os_MkdirAll_def os_check_def
        demo_fs_def Let_def)
  moreover have "plain ''default''" "length [2 :: byte] \<le> gcm_max"
    by (simp_all add: plain_def gcm_max_def)
  ultimately show ?thesis
    using keystore_reopen [OF demo_laws(2,4), of demo_fs "''/u''" "[9]" f1 ks "''default''" "[2]" "[1]" "[3]" "[]"]
    by blast
qed

text \<open>
  C23. Listing is exact: in a readable store the listing succeeds, names no key twice, and
  names exactly the keys of which \<open>HasKeypair\<close> finds the public file (the private file may be
  missing).
\<close>

theorem list_keypairs_exact:
  assumes "store_ready ks f"
  shows "\<exists>ids. ListKeypairs ks f = Ok ids \<and> distinct ids \<and>
    (\<forall>keyID. plain keyID \<longrightarrow> (keyID \<in> set ids \<longleftrightarrow> HasKeypair ks keyID f))"
  using ListKeypairs_spec [OF assms] by (auto simp: Has_eq [OF assms])

theorem list_keypairs_exact_witness: "\<exists>ids. ListKeypairs demo_store demo_fs = Ok ids \<and> distinct ids"
  using list_keypairs_exact [OF demo_ready] by blast

text \<open>
  C29. Saving is not atomic. Take any save over an existing pair whose first write succeeds and
  that then fails, for whatever reason: no key after \<open>Close\<close>, a random source that does not
  deliver, a private key too long to seal, or a failing second write. The public file is
  already replaced, and no file but the pair's two is touched. Unless the second write tore the
  private file, which then holds a prefix of the new ciphertext and the old private key is
  lost, a store opened with the right key loads the new public key together with the old
  private key, without an error.
\<close>

theorem failed_save_mixes_keys:
  assumes "store_ready ks f" and "plain keyID"
    and "LoadDSAKeypair c ks keyID f = Ok (pub0, priv0)"
    and "storePath ks' = storePath ks"
    and "flt OpWriteFile (entry (storePath ks) (keyID @ ''.pub'')) = None"
    and "SaveDSAKeypair c ks' keyID pub priv (f\<lparr>fault := flt, torn := tn\<rparr>, r) = ((f', r'), x)" and "\<not> is_ok x"
  shows "pub_file ks keyID f' = Some pub
    \<and> (\<forall>p. p = entry (storePath ks) (keyID @ ''.pub'') \<or> p = entry (storePath ks) (keyID @ ''.priv'') \<or>
         map_of (files f') p = map_of (files f) p)
    \<and> (LoadDSAKeypair c ks keyID (f'\<lparr>fault := \<lambda>opn p. None\<rparr>) = Ok (pub, priv0) \<or>
       (\<exists>n enc. AESGCMEncrypt c (encKey ks') priv r = (r', Ok enc)
          \<and> flt OpWriteFile (entry (storePath ks) (keyID @ ''.priv'')) \<noteq> None
          \<and> tn (entry (storePath ks) (keyID @ ''.priv'')) = Some n
          \<and> priv_file ks keyID f' = Some (take n enc)))"
proof -
  let ?pub = "entry (storePath ks) (keyID @ ''.pub'')" and ?priv = "entry (storePath ks) (keyID @ ''.priv'')"
  have old: "LoadDSAKeypair c ks keyID (f'\<lparr>fault := \<lambda>opn p. None\<rparr>) = Ok (pub, priv0)"
    if "map_of (files f') ?pub = Some pub" "map_of (files f') ?priv = map_of (files f) ?priv" "dirs f' = dirs f"
  proof -
    have "store_ready ks (f'\<lparr>fault := \<lambda>opn p. None\<rparr>)" using assms(1) that(3) by (simp add: store_ready_def)
    from Load_eq [OF this assms(2)] show ?thesis
      using assms(3) that by (simp add: Load_eq assms(1,2) pub_file_def priv_file_def res_iff split: option.splits)
  qed
  note save = Save_any [where flt = flt, OF assms(1,2,4,5), where tn = tn and c = c and pub = pub and priv = priv and r = r]
  obtain q y where enc: "AESGCMEncrypt c (encKey ks') priv r = (q, y)" by fastforce
  show ?thesis
  proof (cases y)
    case (Ok enc)
    then have f': "f' = f\<lparr>files := written ?priv enc (f\<lparr>files := AList.update ?pub pub (files f), fault := flt, torn := tn\<rparr>),
        fault := flt, torn := tn\<rparr>" and r': "r' = q" and x: "flt OpWriteFile ?priv \<noteq> None"
      using assms(6,7) \<open>AESGCMEncrypt _ _ _ _ = _\<close> by (auto simp: save split: option.splits)
    have "?priv \<notin> set (dirs f)" "parent ?priv \<in> set (dirs f)" using assms(1) by (simp_all add: store_ready_def)
    with x have "files f' = (case tn ?priv of None \<Rightarrow> AList.update ?pub pub (files f)
        | Some n \<Rightarrow> AList.update ?priv (take n enc) (AList.update ?pub pub (files f)))" "dirs f' = dirs f"
      by (auto simp: f' written_def split: option.splits)
    then show ?thesis
      using enc Ok r' x old by (cases "tn ?priv") (auto simp: pub_file_def priv_file_def update_conv')
  qed (use assms(6,7) enc old in \<open>auto simp: save pub_file_def update_conv'\<close>)
qed

theorem failed_save_mixes_keys_witness:
  "\<exists>f f1 e1 f2 e2 f3 e3. LoadDSAKeypair demo_lib demo_store ''k'' f = Ok ([1], [2])
   \<and> SaveDSAKeypair demo_lib (demo_store\<lparr>encKey := []\<rparr>) ''k'' [3] [4] (f, []) = ((f1, []), Err e1)
   \<and> LoadDSAKeypair demo_lib demo_store ''k'' (f1\<lparr>fault := \<lambda>opn p. None\<rparr>) = Ok ([3], [2])
   \<and> SaveDSAKeypair demo_lib demo_store ''k'' [3] [4] (f, [None]) = ((f2, []), Err e2)
   \<and> LoadDSAKeypair demo_lib demo_store ''k'' (f2\<lparr>fault := \<lambda>opn p. None\<rparr>) = Ok ([3], [2])
   \<and> SaveDSAKeypair demo_lib demo_store ''k'' [3] [4] (f\<lparr>fault := \<lambda>opn p. if p = entry ''/u'' ''k.priv'' then Some ''full'' else None\<rparr>,
        [Some [5]]) = ((f3, []), Err e3)
   \<and> LoadDSAKeypair demo_lib demo_store ''k'' (f3\<lparr>fault := \<lambda>opn p. None\<rparr>) = Ok ([3], [2])"
proof -
  let ?full = "\<lambda>opn p. if p = entry ''/u'' ''k.priv'' then Some ''full'' else None"
  let ?calm = "\<lambda>opn p. None" and ?closed = "demo_store\<lparr>encKey := []\<rparr>"
  have k: "plain ''k''" by (simp add: plain_def)
  have path: "storePath demo_store = ''/u''" "storePath ?closed = storePath demo_store" by (simp_all add: demo_store_def)
  obtain f where f: "SaveDSAKeypair demo_lib demo_store ''k'' [1] [2] (demo_fs, [Some [5]]) = ((f, []), Ok ())"
    by (rule demo_save [OF demo_ready k])
  note saved = Save_Ok [OF demo_laws(2) demo_ready k f]
  have whole: "f = f\<lparr>fault := ?calm, torn := \<lambda>p. None\<rparr>" "f\<lparr>fault := ?full\<rparr> = f\<lparr>fault := ?full, torn := \<lambda>p. None\<rparr>"
  proof -
    obtain fl where "f = demo_fs\<lparr>files := fl\<rparr>"
      using f unfolding Save_eq [OF demo_ready k] by (auto simp: Let_def split: prod.splits res.splits)
    then show "f = f\<lparr>fault := ?calm, torn := \<lambda>p. None\<rparr>" "f\<lparr>fault := ?full\<rparr> = f\<lparr>fault := ?full, torn := \<lambda>p. None\<rparr>"
      by (simp_all add: demo_fs_def)
  qed
  have calm: "?calm OpWriteFile (entry (storePath demo_store) (''k'' @ ''.pub'')) = None" by simp
  have full: "?full OpWriteFile (entry (storePath demo_store) (''k'' @ ''.pub'')) = None" by (simp add: path)
  note mixes = failed_save_mixes_keys [OF saved(1) k saved(2), where tn = "\<lambda>p. None" and pub = "[3]" and priv = "[4]"]
  note save = Save_any [OF saved(1) k, where tn = "\<lambda>p. None" and c = demo_lib and pub = "[3]" and priv = "[4]"]
  obtain f1 e1 where 1: "SaveDSAKeypair demo_lib ?closed ''k'' [3] [4] (f\<lparr>fault := ?calm, torn := \<lambda>p. None\<rparr>, []) = ((f1, []), Err e1)"
    using save [where flt = ?calm, OF path(2) calm, of "[]"] AESGCMEncrypt_bad_key [of "[]" demo_lib "[4]" "[]"] by (auto simp: demo_store_def)
  obtain f2 e2 where 2: "SaveDSAKeypair demo_lib demo_store ''k'' [3] [4] (f\<lparr>fault := ?calm, torn := \<lambda>p. None\<rparr>, [None]) = ((f2, []), Err e2)"
    using save [where flt = ?calm, OF refl calm, of "[None]"]
    by (auto simp: AESGCMEncrypt_def aes_NewCipher_def st_bind_def demo_store_def)
  obtain f3 e3 where 3: "SaveDSAKeypair demo_lib demo_store ''k'' [3] [4] (f\<lparr>fault := ?full, torn := \<lambda>p. None\<rparr>, [Some [5]]) = ((f3, []), Err e3)"
    using save [where flt = ?full, OF refl full, of "[Some [5]]"] AESGCMEncrypt_Some [of "encKey demo_store" "[4]" demo_lib "[5]" "[]"]
    by (auto simp: demo_store_def gcm_max_def)
  have "LoadDSAKeypair demo_lib demo_store ''k'' (f1\<lparr>fault := \<lambda>opn p. None\<rparr>) = Ok ([3], [2])"
    using mixes [where flt = ?calm, OF path(2) calm 1] by auto
  moreover have "LoadDSAKeypair demo_lib demo_store ''k'' (f2\<lparr>fault := \<lambda>opn p. None\<rparr>) = Ok ([3], [2])"
    using mixes [where flt = ?calm, OF refl calm 2] by auto
  moreover have "LoadDSAKeypair demo_lib demo_store ''k'' (f3\<lparr>fault := \<lambda>opn p. None\<rparr>) = Ok ([3], [2])"
    using mixes [where flt = ?full, OF refl full 3] by auto
  ultimately show ?thesis
    using saved(2) 1 2 3 unfolding whole(1) [symmetric] whole(2) [symmetric] by blast
qed

text \<open>
  C30. Key names are not confined to the store: they are joined to the directory and cleaned,
  so the name \<open>../x\<close> designates the file \<open>x.pub\<close> next to the store's directory. Saving under
  it writes there whenever the directory above exists.
\<close>

theorem key_name_escapes_store:
  assumes "plain x" and "storePath ks \<noteq> []"
    and "filepath_Clean (storePath ks) = (rooted, elems @ [d])" and "d \<noteq> ''..''"
    and "fault f = (\<lambda>opn p. None)" and "(rooted, elems) \<in> set (dirs f)"
    and "(rooted, elems @ [x @ ''.pub'']) \<notin> set (dirs f)"
    and "SaveDSAKeypair c ks (''../'' @ x) pub priv (f, r) = ((f', r'), res)"
  shows "map_of (files f') (rooted, elems @ [x @ ''.pub'']) = Some pub"
proof -
  let ?pub = "(rooted, elems @ [x @ ''.pub''])" and ?priv = "(rooted, elems @ [x @ ''.priv''])"
  have paths: "filepath_Join (storePath ks) ((''../'' @ x) @ ''.pub'') = ?pub"
    "filepath_Join (storePath ks) ((''../'' @ x) @ ''.priv'') = ?priv"
    using Join_above [OF _ _ assms(2-4), of "x @ ''.pub''"]
      Join_above [OF _ _ assms(2-4), of "x @ ''.priv''"] assms(1) by simp_all
  let ?f1 = "f\<lparr>files := AList.update ?pub pub (files f)\<rparr>"
  have "os_WriteFile ?pub pub f = (?f1, Ok ())"
    using assms(5-7) by (simp add: os_WriteFile_def written_def os_check_def parent_def)
  moreover have "map_of (files (fst (os_WriteFile ?priv enc ?f1))) ?pub = Some pub" for enc
    by (simp add: os_WriteFile_def written_def update_conv' split: option.splits)
  ultimately show ?thesis
    using assms(8) unfolding SaveDSAKeypair_def paths
    by (auto simp: acting_run drawing_run Let_def update_conv' split: prod.splits res.splits)
qed

theorem key_name_escapes_store_witness:
  "\<exists>f' r' res. SaveDSAKeypair demo_lib demo_store (''../'' @ ''x'') [5] [6]
       (demo_fs\<lparr>dirs := [(True, []), (True, [''u''])]\<rparr>, []) = ((f', r'), res) \<and>
     map_of (files f') (True, [] @ [''x'' @ ''.pub'']) = Some [5]"
proof -
  let ?f = "demo_fs\<lparr>dirs := [(True, []), (True, [''u''])]\<rparr>"
  obtain f' r' res where run: "SaveDSAKeypair demo_lib demo_store (''../'' @ ''x'') [5] [6] (?f, []) = ((f', r'), res)"
    by (metis prod.exhaust)
  have "map_of (files f') (True, [] @ [''x'' @ ''.pub'']) = Some [5]"
    by (rule key_name_escapes_store [where d = "''u''" and f = ?f and ks = demo_store, OF _ _ _ _ _ _ _ run])
       (simp_all add: demo_store_def demo_fs_def plain_def)
  with run show ?thesis by blast
qed

end
