(* ===== verification/Messages.thy ===== *)
theory Messages
  imports Go_Base
begin

text \<open>
  \<open>pkg/protocol/messages.go\<close>: the six messages, their serializers and their parsers.

  Every serializer fills a buffer whose capacity it computes first and patches the
  two-byte length fields through slice expressions; the model runs these buffer operations
  with Go's bounds checks, and a lemma per message equates the outcome with the wire
  format. Every parser reads at a running offset. The contract between the two is the
  locale \<open>codec\<close>, extended by \<open>tagged_codec\<close> for the leading flag byte.
\<close>

section \<open>Flags\<close>

type_synonym MessageFlag = byte

definition MsgHandshakeRequest :: MessageFlag where "MsgHandshakeRequest = 0x01"
definition MsgHandshakeAgree :: MessageFlag where "MsgHandshakeAgree = 0x02"
definition MsgHandshakeFinish :: MessageFlag where "MsgHandshakeFinish = 0x03"
definition MsgIdentityMessage :: MessageFlag where "MsgIdentityMessage = 0x10"
definition MsgChallenge :: MessageFlag where "MsgChallenge = 0x11"
definition MsgSignatureResponse :: MessageFlag where "MsgSignatureResponse = 0x12"

lemmas flag_defs = MsgHandshakeRequest_def MsgHandshakeAgree_def MsgHandshakeFinish_def
  MsgIdentityMessage_def MsgChallenge_def MsgSignatureResponse_def

section \<open>Messages\<close>

record HandshakeRequest =
  req_KEMPublicKey :: bytes
  req_AlgorithmSuite :: string

record HandshakeAgree =
  agr_KEMPublicKey :: bytes
  agr_PeerCiphertext :: bytes
  agr_AlgorithmSuite :: string

record HandshakeFinish =
  fin_Ciphertext :: bytes

record IdentityMsg =
  PublicKeyEncrypted :: bytes

record Challenge =
  EncryptedNonce :: bytes

record SignatureResponse =
  EncryptedSignature :: bytes

section \<open>Serializers\<close>

text \<open>\<open>uint16(len(x))\<close> keeps the low 16 bits of the length.\<close>

definition len16 :: "bytes \<Rightarrow> u16" where
  "len16 xs = of_nat (length xs)"

text \<open>
  The request's serializer writes each length field twice: once into the bytes just past
  the length of the buffer, where the following \<open>append\<close> of two zero bytes wipes it out,
  and again at the end, at offsets recomputed from the field lengths.
\<close>

definition HandshakeRequest_Serialize :: "HandshakeRequest \<Rightarrow> bytes res" where
  "HandshakeRequest_Serialize m =
    (let suiteBytes = bytes_of_string (req_AlgorithmSuite m);
         totalLen = 1 + 2 + length (req_KEMPublicKey m) + 2 + length suiteBytes;
         buf = make_buf 0 totalLen;
         buf = buf_append buf [MsgHandshakeRequest]
     in go_bind (buf_put buf (blen buf) (blen buf + 2) (be16 (len16 (req_KEMPublicKey m)))) (\<lambda>buf.
        let buf = buf_append buf [0, 0];
            buf = buf_append buf (req_KEMPublicKey m)
        in go_bind (buf_put buf (blen buf) (blen buf + 2) (be16 (len16 suiteBytes))) (\<lambda>buf.
        let buf = buf_append buf [0, 0];
            buf = buf_append buf suiteBytes;
            offset = 1
        in go_bind (buf_put buf offset (offset + 2) (be16 (len16 (req_KEMPublicKey m)))) (\<lambda>buf.
        let offset = offset + (2 + length (req_KEMPublicKey m))
        in go_bind (buf_put buf offset (offset + 2) (be16 (len16 suiteBytes))) (\<lambda>buf.
        Ok (buf_bytes buf))))))"

text \<open>
  The three lines that the other serializers repeat for every field: append two zero
  bytes, write the length over them through \<open>buf[len(buf)-2:]\<close>, append the field.
\<close>

definition append_field :: "buf \<Rightarrow> bytes \<Rightarrow> buf res" where
  "append_field buf f =
     go_bind (buf_put_tail (buf_append buf [0, 0]) 2 (be16 (len16 f))) (\<lambda>buf.
     Ok (buf_append buf f))"

definition HandshakeAgree_Serialize :: "HandshakeAgree \<Rightarrow> bytes res" where
  "HandshakeAgree_Serialize m =
    (let suiteBytes = bytes_of_string (agr_AlgorithmSuite m);
         buf = make_buf 0 (1 + 2 + length (agr_KEMPublicKey m) + 2 + length (agr_PeerCiphertext m)
                 + 2 + length suiteBytes);
         buf = buf_append buf [MsgHandshakeAgree]
     in go_bind (append_field buf (agr_KEMPublicKey m)) (\<lambda>buf.
        go_bind (append_field buf (agr_PeerCiphertext m)) (\<lambda>buf.
        go_bind (append_field buf suiteBytes) (\<lambda>buf.
        Ok (buf_bytes buf)))))"

definition HandshakeFinish_Serialize :: "HandshakeFinish \<Rightarrow> bytes res" where
  "HandshakeFinish_Serialize m =
    (let buf = make_buf 0 (1 + 2 + length (fin_Ciphertext m));
         buf = buf_append buf [MsgHandshakeFinish]
     in go_bind (append_field buf (fin_Ciphertext m)) (\<lambda>buf. Ok (buf_bytes buf)))"

definition IdentityMsg_Serialize :: "IdentityMsg \<Rightarrow> bytes res" where
  "IdentityMsg_Serialize m =
    (let buf = make_buf 0 (1 + 2 + length (PublicKeyEncrypted m));
         buf = buf_append buf [MsgIdentityMessage]
     in go_bind (append_field buf (PublicKeyEncrypted m)) (\<lambda>buf. Ok (buf_bytes buf)))"

definition Challenge_Serialize :: "Challenge \<Rightarrow> bytes res" where
  "Challenge_Serialize m =
    (let buf = make_buf 0 (1 + 2 + length (EncryptedNonce m));
         buf = buf_append buf [MsgChallenge]
     in go_bind (append_field buf (EncryptedNonce m)) (\<lambda>buf. Ok (buf_bytes buf)))"

definition SignatureResponse_Serialize :: "SignatureResponse \<Rightarrow> bytes res" where
  "SignatureResponse_Serialize m =
    (let buf = make_buf 0 (1 + 2 + length (EncryptedSignature m));
         buf = buf_append buf [MsgSignatureResponse]
     in go_bind (append_field buf (EncryptedSignature m)) (\<lambda>buf. Ok (buf_bytes buf)))"

section \<open>Parsers\<close>

text \<open>The two checks every parser starts with.\<close>

definition check_header :: "bytes \<Rightarrow> MessageFlag \<Rightarrow> unit res" where
  "check_header data flag =
     (if length data < 1 + 2 then Err (ErrMsg ''data too short'')
      else go_bind (go_index data 0) (\<lambda>b.
           if b \<noteq> flag then Err (ErrMsg ''invalid message flag'') else Ok ()))"

text \<open>
  Reading one field: its length at \<open>data[offset : offset+2]\<close>, the check that it is there
  (with \<open>extra\<close> more bytes for the length of the field that follows), the slice. The
  result is the field and the offset after it.
\<close>

definition read_field :: "bytes \<Rightarrow> nat \<Rightarrow> nat \<Rightarrow> string \<Rightarrow> (bytes \<times> nat) res" where
  "read_field data offset extra msg =
     go_bind (go_bind (go_slice data offset (offset + 2)) Uint16) (\<lambda>n.
       let offset = offset + 2
       in if length data < offset + unat n + extra then Err (ErrMsg msg)
          else go_bind (go_slice data offset (offset + unat n)) (\<lambda>f.
               Ok (f, offset + unat n)))"

definition DeserializeHandshakeRequest :: "bytes \<Rightarrow> HandshakeRequest res" where
  "DeserializeHandshakeRequest data =
     go_bind (check_header data MsgHandshakeRequest) (\<lambda>_.
     go_bind (read_field data 1 2 ''data too short for public key'') (\<lambda>(kemPub, offset).
     go_bind (read_field data offset 0 ''data too short for suite'') (\<lambda>(suite, offset).
     Ok \<lparr>req_KEMPublicKey = kemPub, req_AlgorithmSuite = string_of_bytes suite\<rparr>)))"

definition DeserializeHandshakeAgree :: "bytes \<Rightarrow> HandshakeAgree res" where
  "DeserializeHandshakeAgree data =
     go_bind (check_header data MsgHandshakeAgree) (\<lambda>_.
     go_bind (read_field data 1 2 ''data too short for public key'') (\<lambda>(kemPub, offset).
     go_bind (read_field data offset 2 ''data too short for ciphertext'') (\<lambda>(ciphertext, offset).
     go_bind (read_field data offset 0 ''data too short for suite'') (\<lambda>(suite, offset).
     Ok \<lparr>agr_KEMPublicKey = kemPub, agr_PeerCiphertext = ciphertext,
         agr_AlgorithmSuite = string_of_bytes suite\<rparr>))))"

definition DeserializeHandshakeFinish :: "bytes \<Rightarrow> HandshakeFinish res" where
  "DeserializeHandshakeFinish data =
     go_bind (check_header data MsgHandshakeFinish) (\<lambda>_.
     go_bind (read_field data 1 0 ''data too short for ciphertext'') (\<lambda>(ciphertext, offset).
     Ok \<lparr>fin_Ciphertext = ciphertext\<rparr>))"

definition DeserializeIdentityMsg :: "bytes \<Rightarrow> IdentityMsg res" where
  "DeserializeIdentityMsg data =
     go_bind (check_header data MsgIdentityMessage) (\<lambda>_.
     go_bind (read_field data 1 0 ''data too short for public key'') (\<lambda>(pub, offset).
     Ok \<lparr>PublicKeyEncrypted = pub\<rparr>))"

definition DeserializeChallenge :: "bytes \<Rightarrow> Challenge res" where
  "DeserializeChallenge data =
     go_bind (check_header data MsgChallenge) (\<lambda>_.
     go_bind (read_field data 1 0 ''data too short for nonce'') (\<lambda>(nonce, offset).
     Ok \<lparr>EncryptedNonce = nonce\<rparr>))"

definition DeserializeSignatureResponse :: "bytes \<Rightarrow> SignatureResponse res" where
  "DeserializeSignatureResponse data =
     go_bind (check_header data MsgSignatureResponse) (\<lambda>_.
     go_bind (read_field data 1 0 ''data too short for signature'') (\<lambda>(sig, offset).
     Ok \<lparr>EncryptedSignature = sig\<rparr>))"

section \<open>The wire format\<close>

definition field :: "bytes \<Rightarrow> bytes" where
  "field f = be16 (len16 f) @ f"

definition fits16 :: "bytes \<Rightarrow> bool" where
  "fits16 f \<longleftrightarrow> length f < 2 ^ 16"

lemma length_field [simp, wire_simps]: "length (field f) = length f + 2"
  by (simp add: field_def)

lemma unat_len16: "unat (len16 f) = length f mod 2 ^ 16"
  by (simp add: len16_def unat_of_nat take_bit_eq_mod)

lemma unat_len16_fits [simp, wire_simps]: "fits16 f \<Longrightarrow> unat (len16 f) = length f"
  by (simp add: unat_len16 fits16_def)

lemma append_field_Ok:
  assumes "buf_ok b"
  obtains b' where "append_field b f = Ok b'" "buf_ok b'" "buf_bytes b' = buf_bytes b @ field f"
proof -
  obtain b1 where "buf_put_tail (buf_append b [0, 0]) (length (be16 (len16 f))) (be16 (len16 f)) = Ok b1"
    "buf_ok b1" "buf_bytes b1 = buf_bytes b @ be16 (len16 f)"
    by (rule buf_put_tail_append [OF assms, of "[0, 0]" "be16 (len16 f)"]) simp_all
  then show thesis
    by (intro that [of "buf_append b1 f"]) (simp_all add: append_field_def field_def)
qed

lemma one_field_wire:
  "go_bind (append_field (buf_append (make_buf 0 cap) [flag]) f) (\<lambda>buf. Ok (buf_bytes buf)) =
    Ok (flag # field f)"
  by (rule append_field_Ok [of "buf_append (make_buf 0 cap) [flag]" f]) simp_all

lemma HandshakeFinish_wire:
  "HandshakeFinish_Serialize m = Ok (MsgHandshakeFinish # field (fin_Ciphertext m))"
  by (simp add: HandshakeFinish_Serialize_def one_field_wire)

lemma IdentityMsg_wire:
  "IdentityMsg_Serialize m = Ok (MsgIdentityMessage # field (PublicKeyEncrypted m))"
  by (simp add: IdentityMsg_Serialize_def one_field_wire)

lemma Challenge_wire:
  "Challenge_Serialize m = Ok (MsgChallenge # field (EncryptedNonce m))"
  by (simp add: Challenge_Serialize_def one_field_wire)

lemma SignatureResponse_wire:
  "SignatureResponse_Serialize m = Ok (MsgSignatureResponse # field (EncryptedSignature m))"
  by (simp add: SignatureResponse_Serialize_def one_field_wire)

lemma HandshakeAgree_wire:
  "HandshakeAgree_Serialize m = Ok (MsgHandshakeAgree # field (agr_KEMPublicKey m) @
     field (agr_PeerCiphertext m) @ field (bytes_of_string (agr_AlgorithmSuite m)))"
proof -
  define b0 where "b0 = buf_append (make_buf 0 (1 + 2 + length (agr_KEMPublicKey m) + 2 +
    length (agr_PeerCiphertext m) + 2 + length (bytes_of_string (agr_AlgorithmSuite m)))) [MsgHandshakeAgree]"
  have b0: "buf_ok b0" "buf_bytes b0 = [MsgHandshakeAgree]" by (simp_all add: b0_def)
  obtain b1 where b1: "append_field b0 (agr_KEMPublicKey m) = Ok b1" "buf_ok b1"
    "buf_bytes b1 = buf_bytes b0 @ field (agr_KEMPublicKey m)"
    using b0(1) by (rule append_field_Ok)
  obtain b2 where b2: "append_field b1 (agr_PeerCiphertext m) = Ok b2" "buf_ok b2"
    "buf_bytes b2 = buf_bytes b1 @ field (agr_PeerCiphertext m)"
    using b1(2) by (rule append_field_Ok)
  obtain b3 where b3: "append_field b2 (bytes_of_string (agr_AlgorithmSuite m)) = Ok b3" "buf_ok b3"
    "buf_bytes b3 = buf_bytes b2 @ field (bytes_of_string (agr_AlgorithmSuite m))"
    using b2(2) by (rule append_field_Ok)
  show ?thesis
    unfolding HandshakeAgree_Serialize_def Let_def b0_def [symmetric]
    by (simp add: b0 b1 b2 b3)
qed

lemma HandshakeRequest_wire:
  "HandshakeRequest_Serialize m = Ok (MsgHandshakeRequest # field (req_KEMPublicKey m) @
     field (bytes_of_string (req_AlgorithmSuite m)))"
proof -
  let ?k = "req_KEMPublicKey m" and ?s = "bytes_of_string (req_AlgorithmSuite m)"
  define b0 where "b0 = buf_append (make_buf 0 (1 + 2 + length ?k + 2 + length ?s)) [MsgHandshakeRequest]"
  have b0: "buf_ok b0" "buf_bytes b0 = [MsgHandshakeRequest]" "blen b0 = 1"
    "buf_cap b0 = 5 + length ?k + length ?s"
    by (simp_all add: b0_def)
  obtain b1 where b1: "buf_put b0 1 3 (be16 (len16 ?k)) = Ok b1" "buf_ok b1"
    "buf_bytes b1 = [MsgHandshakeRequest]" "blen b1 = 1" "buf_cap b1 = 5 + length ?k + length ?s"
    by (rule buf_put_beyond [of b0 1 "be16 (len16 ?k)" 3]) (use b0 in simp_all)
  define b2 where "b2 = buf_append (buf_append b1 [0, 0]) ?k"
  have b2: "buf_ok b2" "buf_bytes b2 = MsgHandshakeRequest # [0, 0] @ ?k" "blen b2 = 3 + length ?k"
    "buf_cap b2 = 5 + length ?k + length ?s"
    using b1 by (simp_all add: b2_def)
  obtain b3 where b3: "buf_put b2 (3 + length ?k) (5 + length ?k) (be16 (len16 ?s)) = Ok b3"
    "buf_ok b3" "buf_bytes b3 = MsgHandshakeRequest # [0, 0] @ ?k" "blen b3 = 3 + length ?k"
    by (rule buf_put_beyond [of b2 "3 + length ?k" "be16 (len16 ?s)" "5 + length ?k"])
      (use b2 in simp_all)
  define b4 where "b4 = buf_append (buf_append b3 [0, 0]) ?s"
  have b4: "buf_ok b4" "buf_bytes b4 = [MsgHandshakeRequest] @ [0, 0] @ (?k @ [0, 0] @ ?s)"
    using b3 by (simp_all add: b4_def)
  obtain b5 where b5: "buf_put b4 1 3 (be16 (len16 ?k)) = Ok b5" "buf_ok b5"
    "buf_bytes b5 = [MsgHandshakeRequest] @ be16 (len16 ?k) @ (?k @ [0, 0] @ ?s)"
    by (rule buf_put_inside [OF b4, of "be16 (len16 ?k)" 1 3]) simp_all
  have b5': "buf_bytes b5 = (MsgHandshakeRequest # be16 (len16 ?k) @ ?k) @ [0, 0] @ ?s"
    using b5(3) by simp
  obtain b6 where b6: "buf_put b5 (3 + length ?k) (5 + length ?k) (be16 (len16 ?s)) = Ok b6"
    "buf_bytes b6 = (MsgHandshakeRequest # be16 (len16 ?k) @ ?k) @ be16 (len16 ?s) @ ?s"
    by (rule buf_put_inside [OF b5(2) b5', of "be16 (len16 ?s)" "3 + length ?k" "5 + length ?k"])
      simp_all
  have "HandshakeRequest_Serialize m = Ok (buf_bytes b6)"
    unfolding HandshakeRequest_Serialize_def Let_def b0_def [symmetric]
    using b0(3) b1(1,4) b3(1) b5(1) b6(1) b2(3)
    by (simp add: b2_def [symmetric] b4_def [symmetric] numeral_eq_Suc)
  then show ?thesis
    by (simp add: b6(2) field_def)
qed

lemmas wire_formats = HandshakeRequest_wire HandshakeAgree_wire HandshakeFinish_wire
  IdentityMsg_wire Challenge_wire SignatureResponse_wire

section \<open>Parsing one field\<close>

lemma go_slice_mid [wire_simps]:
  "go_slice (pre @ mid @ post) (length pre) (length pre + length mid) = Ok mid"
  by (simp add: go_slice_def)

lemma read_field_Ok:
  assumes "fits16 f" "extra \<le> length post" "offset = length pre"
  shows "read_field (pre @ field f @ post) offset extra msg = Ok (f, offset + 2 + length f)"
proof -
  have "go_slice (pre @ field f @ post) offset (offset + 2) = Ok (be16 (len16 f))"
    using go_slice_mid [of pre "be16 (len16 f)" "f @ post"] assms(3) by (simp add: field_def)
  moreover have "Uint16 (be16 (len16 f)) = Ok (len16 f)"
    using Uint16_be16 [of "len16 f" "[]"] by simp
  moreover have "go_slice (pre @ field f @ post) (offset + 2) (offset + 2 + length f) = Ok f"
    using go_slice_mid [of "pre @ be16 (len16 f)" f post] assms(3) by (simp add: field_def)
  ultimately show ?thesis
    using assms by (simp add: read_field_def)
qed

lemma read_field_inv:
  assumes "read_field data offset extra msg = Ok (f, offset')"
  obtains post where "drop offset data = field f @ post" "offset' = offset + 2 + length f"
    "fits16 f" "extra \<le> length post" "offset' + extra \<le> length data"
proof -
  from assms obtain hdr n where hdr: "go_slice data offset (offset + 2) = Ok hdr" "Uint16 hdr = Ok n"
    and len: "offset + 2 + unat n + extra \<le> length data"
    and f: "f = take (unat n) (drop (offset + 2) data)" and off: "offset' = offset + 2 + unat n"
    by (auto simp: read_field_def res_iff not_less split: if_splits)
  have lf: "length f = unat n" using f len by simp
  have "be16 n = take 2 (drop offset data)"
    using be16_Uint16 [OF hdr(2)] hdr(1) by (auto simp: go_slice_def split: if_splits)
  moreover have "len16 f = n" by (simp add: len16_def lf)
  ultimately have "drop offset data = field f @ drop (unat n) (drop (offset + 2) data)"
    using f by (metis append.assoc append_take_drop_id drop_drop field_def add.commute)
  then show thesis
  proof (rule that)
    show "fits16 f"
      using lf unsigned_less [of n, where ?'a = nat] by (simp add: fits16_def)
  qed (use len lf off in simp_all)
qed

lemma read_field_no_panic:
  assumes "offset + 2 \<le> length data"
  shows "\<not> is_panic (read_field data offset extra msg)"
proof -
  have "2 \<le> length (take 2 (drop offset data))" using assms by simp
  then obtain n where "Uint16 (take 2 (drop offset data)) = Ok n"
    using Uint16_total by blast
  with assms show ?thesis
    by (simp add: read_field_def Let_def)
qed

lemma check_header_Ok_iff:
  "check_header data flag = Ok () \<longleftrightarrow> 3 \<le> length data \<and> hd data = flag"
  by (cases data) (auto simp: check_header_def)

lemma check_header_no_panic [simp]: "\<not> is_panic (check_header data flag)"
  by (cases data) (auto simp: check_header_def)

lemma check_header_Cons [simp]: "2 \<le> length rest \<Longrightarrow> check_header (flag # rest) flag = Ok ()"
  by (simp add: check_header_Ok_iff)

section \<open>The contract of a codec\<close>

text \<open>
  What a serializer and a parser promise each other. \<open>wf\<close> says which values the format
  can carry. The laws are about parsing a prefix: a parser ignores what follows the
  message, as the parsers of the repository do.
\<close>

locale codec =
  fixes ser :: "'m \<Rightarrow> bytes res"
    and des :: "bytes \<Rightarrow> 'm res"
    and wf :: "'m \<Rightarrow> bool"
  assumes ser_total: "\<exists>bs. ser m = Ok bs"
    and des_ser: "wf m \<Longrightarrow> ser m = Ok bs \<Longrightarrow> des (bs @ rest) = Ok m"
    and ser_des: "des data = Ok m \<Longrightarrow> wf m \<and> (\<exists>bs rest. ser m = Ok bs \<and> data = bs @ rest)"
    and des_no_panic: "\<not> is_panic (des data)"
begin

lemma des_iff: "des data = Ok m \<longleftrightarrow> wf m \<and> (\<exists>bs rest. ser m = Ok bs \<and> data = bs @ rest)"
  using des_ser ser_des by blast

lemma des_more: "des data = Ok m \<Longrightarrow> des (data @ rest) = Ok m"
  by (auto simp: des_iff)

lemma prefix_free:
  assumes "wf m" "wf m'" "ser m = Ok bs" "ser m' = Ok bs'" "bs @ r = bs' @ r'"
  shows "m = m' \<and> r = r'"
proof -
  have "des (bs @ r) = Ok m" "des (bs @ r) = Ok m'"
    using des_ser [OF assms(1,3), of r] des_ser [OF assms(2,4), of r'] assms(5) by simp_all
  with assms(3-5) show ?thesis by simp
qed

lemma truncated_rejected:
  assumes "wf m" "ser m = Ok bs" "n < length bs"
  obtains e where "des (take n bs) = Err e"
proof (cases "des (take n bs)")
  case (Ok m')
  from des_more [OF Ok, of "drop n bs"] des_ser [OF assms(1,2), of "[]"] have "m' = m" by simp
  with ser_des [OF Ok] assms(2) obtain rest where "take n bs = bs @ rest" by auto
  then have "length bs \<le> n" by (metis length_append length_take le_add1 min.bounded_iff)
  with assms(3) show thesis by simp
next
  case (Panic p)
  with des_no_panic [of "take n bs"] show thesis by simp
qed (rule that)

end

locale tagged_codec = codec +
  fixes tag :: byte
  assumes ser_tag: "ser m = Ok bs \<Longrightarrow> bs \<noteq> [] \<and> hd bs = tag"
begin

lemma des_tag: "des data = Ok m \<Longrightarrow> hd data = tag"
  using ser_des ser_tag by fastforce

lemma other_tag_rejected:
  assumes "hd data \<noteq> tag"
  obtains e where "des data = Err e"
  using assms des_tag [of data] des_no_panic [of data] that by (cases "des data") auto

end

section \<open>The six codecs\<close>

definition request_fits :: "HandshakeRequest \<Rightarrow> bool" where
  "request_fits m \<longleftrightarrow> fits16 (req_KEMPublicKey m) \<and> fits16 (bytes_of_string (req_AlgorithmSuite m))"

definition agree_fits :: "HandshakeAgree \<Rightarrow> bool" where
  "agree_fits m \<longleftrightarrow> fits16 (agr_KEMPublicKey m) \<and> fits16 (agr_PeerCiphertext m) \<and>
     fits16 (bytes_of_string (agr_AlgorithmSuite m))"

text \<open>The parsers of the four messages with one field differ only in names.\<close>

definition parse_one :: "MessageFlag \<Rightarrow> string \<Rightarrow> bytes \<Rightarrow> bytes res" where
  "parse_one flag msg data = go_bind (check_header data flag) (\<lambda>_.
     go_bind (read_field data 1 0 msg) (\<lambda>(f, offset). Ok f))"

lemma parse_one_Ok: "fits16 f \<Longrightarrow> parse_one flag msg (flag # field f @ rest) = Ok f"
  using read_field_Ok [of f 0 rest 1 "[flag]" msg] by (simp add: parse_one_def)

lemma parse_one_inv:
  assumes "parse_one flag msg data = Ok f"
  obtains rest where "fits16 f" "data = flag # field f @ rest"
proof -
  from assms obtain offset' where h: "check_header data flag = Ok ()"
    and r: "read_field data 1 0 msg = Ok (f, offset')"
    by (auto simp: parse_one_def res_iff)
  from r show thesis
  proof (rule read_field_inv)
    fix post assume "drop 1 data = field f @ post" "fits16 f"
    with h show thesis
      by (cases data) (auto simp: check_header_Ok_iff intro: that)
  qed
qed

lemma parse_one_no_panic: "\<not> is_panic (parse_one flag msg data)"
  by (auto simp: parse_one_def res_iff check_header_Ok_iff
      simp del: One_nat_def dest!: read_field_no_panic [of 1 data 0 msg, simplified] split: prod.splits)

lemma parse_as_one:
  "DeserializeHandshakeFinish data =
     go_bind (parse_one MsgHandshakeFinish ''data too short for ciphertext'' data)
       (\<lambda>f. Ok \<lparr>fin_Ciphertext = f\<rparr>)"
  "DeserializeIdentityMsg data =
     go_bind (parse_one MsgIdentityMessage ''data too short for public key'' data)
       (\<lambda>f. Ok \<lparr>PublicKeyEncrypted = f\<rparr>)"
  "DeserializeChallenge data =
     go_bind (parse_one MsgChallenge ''data too short for nonce'' data)
       (\<lambda>f. Ok \<lparr>EncryptedNonce = f\<rparr>)"
  "DeserializeSignatureResponse data =
     go_bind (parse_one MsgSignatureResponse ''data too short for signature'' data)
       (\<lambda>f. Ok \<lparr>EncryptedSignature = f\<rparr>)"
  by (simp_all add: parse_one_def go_bind_assoc case_prod_unfold
      DeserializeHandshakeFinish_def DeserializeIdentityMsg_def DeserializeChallenge_def
      DeserializeSignatureResponse_def)

text \<open>One proof for the four of them: a record with one field is that field.\<close>

lemma one_field_codec:
  assumes ser: "\<And>m. ser m = Ok (flag # field (get m))"
    and des: "\<And>data. des data = go_bind (parse_one flag msg data) (\<lambda>f. Ok (mk f))"
    and mk: "\<And>m. mk (get m) = m" "\<And>f. get (mk f) = f"
  shows "tagged_codec ser des (\<lambda>m. fits16 (get m)) flag"
proof unfold_locales
  fix data show "\<not> is_panic (des data)"
    by (simp add: des res_iff parse_one_no_panic)
next
  fix data m assume "des data = Ok m"
  then obtain f where f: "parse_one flag msg data = Ok f" "m = mk f"
    by (auto simp: des res_iff)
  from f(1) show "fits16 (get m) \<and> (\<exists>bs rest. ser m = Ok bs \<and> data = bs @ rest)"
    by (rule parse_one_inv) (simp add: f(2) ser mk)
qed (auto simp: ser des parse_one_Ok mk)

interpretation finish: tagged_codec HandshakeFinish_Serialize DeserializeHandshakeFinish
    "\<lambda>m. fits16 (fin_Ciphertext m)" MsgHandshakeFinish
  by (rule one_field_codec [OF HandshakeFinish_wire parse_as_one(1)]) simp_all

interpretation identity_msg: tagged_codec IdentityMsg_Serialize DeserializeIdentityMsg
    "\<lambda>m. fits16 (PublicKeyEncrypted m)" MsgIdentityMessage
  by (rule one_field_codec [OF IdentityMsg_wire parse_as_one(2)]) simp_all

interpretation challenge: tagged_codec Challenge_Serialize DeserializeChallenge
    "\<lambda>m. fits16 (EncryptedNonce m)" MsgChallenge
  by (rule one_field_codec [OF Challenge_wire parse_as_one(3)]) simp_all

interpretation response: tagged_codec SignatureResponse_Serialize DeserializeSignatureResponse
    "\<lambda>m. fits16 (EncryptedSignature m)" MsgSignatureResponse
  by (rule one_field_codec [OF SignatureResponse_wire parse_as_one(4)]) simp_all

interpretation request: tagged_codec HandshakeRequest_Serialize DeserializeHandshakeRequest
    request_fits MsgHandshakeRequest
proof unfold_locales
  fix m bs rest
  assume wf: "request_fits m" and ser: "HandshakeRequest_Serialize m = Ok bs"
  let ?k = "req_KEMPublicKey m" and ?s = "bytes_of_string (req_AlgorithmSuite m)"
  have k: "read_field (MsgHandshakeRequest # field ?k @ field ?s @ rest) 1 2 msg =
      Ok (?k, 3 + length ?k)" for msg
    using wf read_field_Ok [of ?k 2 "field ?s @ rest" 1 "[MsgHandshakeRequest]" msg]
    by (simp add: request_fits_def)
  have s: "read_field (MsgHandshakeRequest # field ?k @ field ?s @ rest) (3 + length ?k) 0 msg =
      Ok (?s, 5 + length ?k + length ?s)" for msg
    using wf read_field_Ok [of ?s 0 rest "3 + length ?k" "MsgHandshakeRequest # field ?k" msg]
    by (simp add: request_fits_def)
  show "DeserializeHandshakeRequest (bs @ rest) = Ok m"
    using ser by (auto simp: HandshakeRequest_wire DeserializeHandshakeRequest_def k s
        simp del: One_nat_def)
next
  fix data m
  assume "DeserializeHandshakeRequest data = Ok m"
  then obtain off k off' s where h: "check_header data MsgHandshakeRequest = Ok ()"
    and k: "read_field data 1 2 ''data too short for public key'' = Ok (k, off)"
    and s: "read_field data off 0 ''data too short for suite'' = Ok (s, off')"
    and m: "m = \<lparr>req_KEMPublicKey = k, req_AlgorithmSuite = string_of_bytes s\<rparr>"
    by (auto simp: DeserializeHandshakeRequest_def res_iff)
  from k obtain post where post: "drop 1 data = field k @ post" "off = 3 + length k" "fits16 k"
    by (rule read_field_inv) simp
  from s obtain rest where rest: "drop off data = field s @ rest" "fits16 s"
    by (rule read_field_inv)
  have "drop off data = post"
    using arg_cong [OF post(1), of "drop (length k + 2)"] by (simp add: post(2) numeral_3_eq_3)
  then have "data = MsgHandshakeRequest # field k @ field s @ rest"
    using h post(1) rest(1) by (cases data) (auto simp: check_header_Ok_iff)
  then show "request_fits m \<and> (\<exists>bs rest. HandshakeRequest_Serialize m = Ok bs \<and> data = bs @ rest)"
    using post(3) rest(2) by (simp add: m request_fits_def HandshakeRequest_wire)
next
  fix data
  show "\<not> is_panic (DeserializeHandshakeRequest data)"
    by (auto simp: DeserializeHandshakeRequest_def res_iff check_header_Ok_iff
        split: prod.splits elim!: read_field_inv
        dest!: read_field_no_panic [THEN notE, rotated])
qed (auto simp: HandshakeRequest_wire)

interpretation agree: tagged_codec HandshakeAgree_Serialize DeserializeHandshakeAgree
    agree_fits MsgHandshakeAgree
proof unfold_locales
  fix m bs rest
  assume wf: "agree_fits m" and ser: "HandshakeAgree_Serialize m = Ok bs"
  let ?k = "agr_KEMPublicKey m" and ?c = "agr_PeerCiphertext m"
    and ?s = "bytes_of_string (agr_AlgorithmSuite m)"
  let ?data = "MsgHandshakeAgree # field ?k @ field ?c @ field ?s @ rest"
  have k: "read_field ?data 1 2 msg = Ok (?k, 3 + length ?k)" for msg
    using wf read_field_Ok [of ?k 2 "field ?c @ field ?s @ rest" 1 "[MsgHandshakeAgree]" msg]
    by (simp add: agree_fits_def)
  have c: "read_field ?data (3 + length ?k) 2 msg = Ok (?c, 5 + length ?k + length ?c)" for msg
    using wf read_field_Ok [of ?c 2 "field ?s @ rest" "3 + length ?k" "MsgHandshakeAgree # field ?k" msg]
    by (simp add: agree_fits_def)
  have s: "read_field ?data (5 + length ?k + length ?c) 0 msg =
      Ok (?s, 7 + length ?k + length ?c + length ?s)" for msg
    using wf read_field_Ok [of ?s 0 rest "5 + length ?k + length ?c"
        "MsgHandshakeAgree # field ?k @ field ?c" msg]
    by (simp add: agree_fits_def)
  show "DeserializeHandshakeAgree (bs @ rest) = Ok m"
    using ser by (auto simp: HandshakeAgree_wire DeserializeHandshakeAgree_def k c s
        simp del: One_nat_def)
next
  fix data m
  assume "DeserializeHandshakeAgree data = Ok m"
  then obtain off k off' c off'' s where h: "check_header data MsgHandshakeAgree = Ok ()"
    and k: "read_field data 1 2 ''data too short for public key'' = Ok (k, off)"
    and c: "read_field data off 2 ''data too short for ciphertext'' = Ok (c, off')"
    and s: "read_field data off' 0 ''data too short for suite'' = Ok (s, off'')"
    and m: "m = \<lparr>agr_KEMPublicKey = k, agr_PeerCiphertext = c,
      agr_AlgorithmSuite = string_of_bytes s\<rparr>"
    by (auto simp: DeserializeHandshakeAgree_def res_iff)
  from k obtain p1 where p1: "drop 1 data = field k @ p1" "off = 3 + length k" "fits16 k"
    by (rule read_field_inv) simp
  from c obtain p2 where p2: "drop off data = field c @ p2" "off' = off + 2 + length c" "fits16 c"
    by (rule read_field_inv)
  from s obtain rest where p3: "drop off' data = field s @ rest" "fits16 s"
    by (rule read_field_inv)
  have "drop off data = p1"
    using arg_cong [OF p1(1), of "drop (length k + 2)"] by (simp add: p1(2) numeral_3_eq_3)
  then have one: "p1 = field c @ p2" using p2(1) by simp
  have "drop off' data = drop (2 + length c) (drop off data)" by (simp add: p2(2) add.commute)
  also have "\<dots> = p2" by (simp add: p2(1))
  finally have "data = MsgHandshakeAgree # field k @ field c @ field s @ rest"
    using h p1(1) one p3(1) by (cases data) (auto simp: check_header_Ok_iff)
  then show "agree_fits m \<and> (\<exists>bs rest. HandshakeAgree_Serialize m = Ok bs \<and> data = bs @ rest)"
    using p1(3) p2(3) p3(2) by (simp add: m agree_fits_def HandshakeAgree_wire)
next
  fix data
  show "\<not> is_panic (DeserializeHandshakeAgree data)"
    by (auto simp: DeserializeHandshakeAgree_def res_iff check_header_Ok_iff
        split: prod.splits elim!: read_field_inv
        dest!: read_field_no_panic [THEN notE, rotated])
qed (auto simp: HandshakeAgree_wire)

section \<open>Properties\<close>

text \<open>
  Every serializer produces exactly the documented layout (flag, then each field
  behind its two-byte big-endian length), for fields of any length: none of its slice
  expressions is out of range and no buffer outgrows the capacity computed for it, although
  the request writes its length fields past the end of the buffer first and overwrites them.
\<close>

theorem serializers_match_wire_format:
  "HandshakeRequest_Serialize q = Ok (0x01 # field (req_KEMPublicKey q) @
     field (bytes_of_string (req_AlgorithmSuite q)))
   \<and> HandshakeAgree_Serialize a = Ok (0x02 # field (agr_KEMPublicKey a) @
     field (agr_PeerCiphertext a) @ field (bytes_of_string (agr_AlgorithmSuite a)))
   \<and> HandshakeFinish_Serialize f = Ok (0x03 # field (fin_Ciphertext f))
   \<and> IdentityMsg_Serialize i = Ok (0x10 # field (PublicKeyEncrypted i))
   \<and> Challenge_Serialize n = Ok (0x11 # field (EncryptedNonce n))
   \<and> SignatureResponse_Serialize s = Ok (0x12 # field (EncryptedSignature s))"
  by (simp add: wire_formats flag_defs)

text \<open>
  C15. Round trip: a message whose fields are shorter than 65536 bytes is serialized
  without a panic, and parsing the bytes gives the message back, whatever follows them.
\<close>

theorem messages_roundtrip:
  assumes "request_fits q" and "agree_fits a" and "fits16 (fin_Ciphertext f)"
    and "fits16 (PublicKeyEncrypted i)" and "fits16 (EncryptedNonce n)"
    and "fits16 (EncryptedSignature s)"
  shows "(\<exists>bs. HandshakeRequest_Serialize q = Ok bs \<and>
        DeserializeHandshakeRequest (bs @ rest) = Ok q)
   \<and> (\<exists>bs. HandshakeAgree_Serialize a = Ok bs \<and> DeserializeHandshakeAgree (bs @ rest) = Ok a)
   \<and> (\<exists>bs. HandshakeFinish_Serialize f = Ok bs \<and> DeserializeHandshakeFinish (bs @ rest) = Ok f)
   \<and> (\<exists>bs. IdentityMsg_Serialize i = Ok bs \<and> DeserializeIdentityMsg (bs @ rest) = Ok i)
   \<and> (\<exists>bs. Challenge_Serialize n = Ok bs \<and> DeserializeChallenge (bs @ rest) = Ok n)
   \<and> (\<exists>bs. SignatureResponse_Serialize s = Ok bs \<and>
        DeserializeSignatureResponse (bs @ rest) = Ok s)"
  using request.ser_total request.des_ser [OF assms(1)] agree.ser_total agree.des_ser [OF assms(2)]
    finish.ser_total finish.des_ser [OF assms(3)] identity_msg.ser_total
    identity_msg.des_ser [OF assms(4)] challenge.ser_total challenge.des_ser [OF assms(5)]
    response.ser_total response.des_ser [OF assms(6)]
  by meson

theorem messages_roundtrip_witness:
  "\<exists>bs. HandshakeRequest_Serialize \<lparr>req_KEMPublicKey = [1, 2], req_AlgorithmSuite = ''ab''\<rparr> = Ok bs
     \<and> DeserializeHandshakeRequest (bs @ [9]) =
        Ok \<lparr>req_KEMPublicKey = [1, 2], req_AlgorithmSuite = ''ab''\<rparr>"
proof -
  have "request_fits \<lparr>req_KEMPublicKey = [1, 2], req_AlgorithmSuite = ''ab''\<rparr>"
    "agree_fits \<lparr>agr_KEMPublicKey = [], agr_PeerCiphertext = [], agr_AlgorithmSuite = []\<rparr>"
    "fits16 []"
    by (simp_all add: request_fits_def agree_fits_def fits16_def)
  from messages_roundtrip [OF this(1,2), of "\<lparr>fin_Ciphertext = []\<rparr>" "\<lparr>PublicKeyEncrypted = []\<rparr>"
      "\<lparr>EncryptedNonce = []\<rparr>" "\<lparr>EncryptedSignature = []\<rparr>" "[9]"] this(3)
  show ?thesis by simp
qed

text \<open>
  C14. What a parser accepts: exactly the data that begins with the serialization of the
  message it returns. So every accepted message has been read completely, from within the
  data; and no input of any length makes a parser index out of range.
\<close>

theorem parsers_are_exact:
  "(DeserializeHandshakeRequest data = Ok q \<longleftrightarrow> request_fits q \<and>
      (\<exists>bs rest. HandshakeRequest_Serialize q = Ok bs \<and> data = bs @ rest))
   \<and> (DeserializeHandshakeAgree data = Ok a \<longleftrightarrow> agree_fits a \<and>
      (\<exists>bs rest. HandshakeAgree_Serialize a = Ok bs \<and> data = bs @ rest))
   \<and> (DeserializeHandshakeFinish data = Ok f \<longleftrightarrow> fits16 (fin_Ciphertext f) \<and>
      (\<exists>bs rest. HandshakeFinish_Serialize f = Ok bs \<and> data = bs @ rest))
   \<and> (DeserializeIdentityMsg data = Ok i \<longleftrightarrow> fits16 (PublicKeyEncrypted i) \<and>
      (\<exists>bs rest. IdentityMsg_Serialize i = Ok bs \<and> data = bs @ rest))
   \<and> (DeserializeChallenge data = Ok n \<longleftrightarrow> fits16 (EncryptedNonce n) \<and>
      (\<exists>bs rest. Challenge_Serialize n = Ok bs \<and> data = bs @ rest))
   \<and> (DeserializeSignatureResponse data = Ok s \<longleftrightarrow> fits16 (EncryptedSignature s) \<and>
      (\<exists>bs rest. SignatureResponse_Serialize s = Ok bs \<and> data = bs @ rest))
   \<and> \<not> is_panic (DeserializeHandshakeRequest data) \<and> \<not> is_panic (DeserializeHandshakeAgree data)
   \<and> \<not> is_panic (DeserializeHandshakeFinish data) \<and> \<not> is_panic (DeserializeIdentityMsg data)
   \<and> \<not> is_panic (DeserializeChallenge data) \<and> \<not> is_panic (DeserializeSignatureResponse data)"
  by (intro conjI request.des_iff agree.des_iff finish.des_iff identity_msg.des_iff
      challenge.des_iff response.des_iff request.des_no_panic agree.des_no_panic
      finish.des_no_panic identity_msg.des_no_panic challenge.des_no_panic response.des_no_panic)

text \<open>
  A message cut short anywhere is refused with an error: no proper prefix of a
  serialized request or agree message parses, so a receiver never acts on a partial key.
\<close>

theorem truncated_handshake_messages_rejected:
  assumes "request_fits q" and "HandshakeRequest_Serialize q = Ok bs" and "n < length bs"
    and "agree_fits a" and "HandshakeAgree_Serialize a = Ok cs" and "k < length cs"
  shows "(\<exists>e. DeserializeHandshakeRequest (take n bs) = Err e) \<and>
    (\<exists>e. DeserializeHandshakeAgree (take k cs) = Err e)"
  using request.truncated_rejected [OF assms(1-3)] agree.truncated_rejected [OF assms(4-6)]
  by metis

theorem truncated_handshake_messages_rejected_witness:
  "(\<exists>e. DeserializeHandshakeRequest (take 6 (0x01 # field [7, 8] @ field [])) = Err e)"
proof -
  have q: "request_fits \<lparr>req_KEMPublicKey = [7, 8], req_AlgorithmSuite = []\<rparr>"
    "agree_fits \<lparr>agr_KEMPublicKey = [], agr_PeerCiphertext = [], agr_AlgorithmSuite = []\<rparr>"
    by (simp_all add: request_fits_def agree_fits_def fits16_def)
  have w: "HandshakeRequest_Serialize \<lparr>req_KEMPublicKey = [7, 8], req_AlgorithmSuite = []\<rparr> =
      Ok (0x01 # field [7, 8] @ field [])"
    "HandshakeAgree_Serialize \<lparr>agr_KEMPublicKey = [], agr_PeerCiphertext = [],
      agr_AlgorithmSuite = []\<rparr> = Ok (0x02 # field [] @ field [] @ field [])"
    by (simp_all add: wire_formats flag_defs bytes_of_string_def)
  have "6 < length (0x01 # field [7, 8] @ field [] :: bytes)"
    "0 < length (0x02 # field [] @ field [] @ field [] :: bytes)"
    by simp_all
  from truncated_handshake_messages_rejected [OF q(1) w(1) this(1) q(2) w(2) this(2)]
  show ?thesis by blast
qed

text \<open>
  C40. The length field is 16 bits wide and the serializers do not check that a field fits:
  a ciphertext of any length is sent with its length modulo 65536, and the receiver takes
  the first that many bytes of it for the whole, without an error. The round trip is exact
  below 65536 bytes and loses data from there on.
\<close>

theorem finish_length_wraps:
  "\<exists>bs. HandshakeFinish_Serialize f = Ok bs \<and>
     DeserializeHandshakeFinish bs =
       Ok \<lparr>fin_Ciphertext = take (length (fin_Ciphertext f) mod 65536) (fin_Ciphertext f)\<rparr> \<and>
     (DeserializeHandshakeFinish bs = Ok f \<longleftrightarrow> length (fin_Ciphertext f) < 65536)"
proof -
  let ?c = "fin_Ciphertext f"
  let ?t = "take (length ?c mod 65536) ?c"
  have len: "length ?t = length ?c mod 65536" by simp
  then have fits: "fits16 ?t" by (simp add: fits16_def)
  have "len16 ?t = len16 ?c"
    by (rule word_unat_eq_iff [THEN iffD2]) (simp add: unat_len16 len)
  then have "0x03 # field ?c = 0x03 # field ?t @ drop (length ?c mod 65536) ?c"
    by (simp add: field_def)
  moreover have "HandshakeFinish_Serialize \<lparr>fin_Ciphertext = ?t\<rparr> = Ok (0x03 # field ?t)"
    by (simp add: HandshakeFinish_wire flag_defs)
  then have "DeserializeHandshakeFinish ((0x03 # field ?t) @ drop (length ?c mod 65536) ?c) =
      Ok \<lparr>fin_Ciphertext = ?t\<rparr>"
    by (intro finish.des_ser) (simp_all add: fits)
  ultimately have des: "DeserializeHandshakeFinish (0x03 # field ?c) = Ok \<lparr>fin_Ciphertext = ?t\<rparr>"
    by simp
  have "\<lparr>fin_Ciphertext = ?t\<rparr> = f \<longleftrightarrow> ?t = ?c"
    by (cases f) simp
  also have "\<dots> \<longleftrightarrow> length ?c < 65536"
    using mod_less_divisor [of 65536 "length ?c"] by (auto simp: take_all_iff)
  finally show ?thesis
    using des by (simp add: HandshakeFinish_wire flag_defs)
qed

text \<open>
  The flag byte keeps the messages apart: of the six parsers at most one accepts a
  given byte string.
\<close>

theorem at_most_one_parser_accepts:
  "length (filter id [is_ok (DeserializeHandshakeRequest data), is_ok (DeserializeHandshakeAgree data),
     is_ok (DeserializeHandshakeFinish data), is_ok (DeserializeIdentityMsg data),
     is_ok (DeserializeChallenge data), is_ok (DeserializeSignatureResponse data)]) \<le> 1"
proof -
  have tag: "is_ok r \<Longrightarrow> (\<And>m. r = Ok m \<Longrightarrow> hd data = t) \<Longrightarrow> hd data = t" for r :: "'a res" and t
    by (cases r) auto
  have "is_ok (DeserializeHandshakeRequest data) \<Longrightarrow> hd data = 0x01"
    "is_ok (DeserializeHandshakeAgree data) \<Longrightarrow> hd data = 0x02"
    "is_ok (DeserializeHandshakeFinish data) \<Longrightarrow> hd data = 0x03"
    "is_ok (DeserializeIdentityMsg data) \<Longrightarrow> hd data = 0x10"
    "is_ok (DeserializeChallenge data) \<Longrightarrow> hd data = 0x11"
    "is_ok (DeserializeSignatureResponse data) \<Longrightarrow> hd data = 0x12"
    using request.des_tag agree.des_tag finish.des_tag identity_msg.des_tag challenge.des_tag
      response.des_tag tag unfolding flag_defs by metis+
  then show ?thesis
    by (cases "hd data = 0x01"; cases "hd data = 0x02"; cases "hd data = 0x03";
        cases "hd data = 0x10"; cases "hd data = 0x11"; auto)
qed

end
