(* ===== verification/Handshake.thy ===== *)
theory Handshake
  imports Messages Crypto
begin

text \<open>
  The key-encapsulation handshake, after \<open>pkg/protocol/handshake.go\<close>: the \<open>KEMHandshake\<close>
  object, its four protocol methods, the derivation of the session key and the accessors.

  A method works on the object and the tape of random numbers. The mutex serialises the
  methods and is not part of the state. \<open>hs_step\<close> is the relation between the object
  before and after any call of the protocol methods, with any argument and any randomness
  (\<open>SetState\<close>, which exists for the tests and is called by nothing else, is not among them);
  the invariant of the reachable objects is proved over it by rule induction. The last
  sections show what a run of the two parties gives.
\<close>

section \<open>State\<close>

text \<open>\<open>type HandshakeState int\<close>: \<open>SetState\<close> accepts any integer.\<close>

type_synonym HandshakeState = int

definition StateInit :: HandshakeState where "StateInit = 0"
definition StateWaitAgree :: HandshakeState where "StateWaitAgree = 1"
definition StateWaitFinish :: HandshakeState where "StateWaitFinish = 2"
definition StateEstablished :: HandshakeState where "StateEstablished = 3"
definition StateFailed :: HandshakeState where "StateFailed = 4"

lemmas state_defs = StateInit_def StateWaitAgree_def StateWaitFinish_def StateEstablished_def
  StateFailed_def

definition HandshakeState_String :: "HandshakeState \<Rightarrow> string" where
  "HandshakeState_String s =
     (if s = StateInit then ''INIT''
      else if s = StateWaitAgree then ''WAIT_AGREE''
      else if s = StateWaitFinish then ''WAIT_FINISH''
      else if s = StateEstablished then ''ESTABLISHED''
      else if s = StateFailed then ''FAILED''
      else ''UNKNOWN'')"

record KEMHandshake =
  state :: HandshakeState
  isInitiator :: bool
  myKEMKeypair :: "MLKEMKeyPair option"
  peerPubkey :: bytes
  sharedSecrets :: "string \<rightharpoonup> bytes"

definition NewKEMHandshake :: "bool \<Rightarrow> KEMHandshake" where
  "NewKEMHandshake initiator = \<lparr>state = StateInit, isInitiator = initiator, myKEMKeypair = None,
     peerPubkey = [], sharedSecrets = Map.empty\<rparr>"

section \<open>Methods\<close>

text \<open>
  \<open>h.myKEMKeypair, err = crypto.GenerateMLKEMKeypair()\<close> assigns nil when the generation
  fails, before the error is returned.
\<close>

definition generate_keypair :: "crypto_lib \<Rightarrow> (KEMHandshake, MLKEMKeyPair) meth" where
  "generate_keypair c = (\<lambda>(h, r). case GenerateMLKEMKeypair c r of
      (r', Ok kp) \<Rightarrow> ((h\<lparr>myKEMKeypair := Some kp\<rparr>, r'), Ok kp)
    | (r', Err e) \<Rightarrow> ((h\<lparr>myKEMKeypair := None\<rparr>, r'), Err e)
    | (r', Panic p) \<Rightarrow> ((h, r'), Panic p))"

definition set_secret :: "string \<Rightarrow> bytes \<Rightarrow> KEMHandshake \<Rightarrow> KEMHandshake" where
  "set_secret k ss h = h\<lparr>sharedSecrets := (sharedSecrets h)(k \<mapsto> ss)\<rparr>"

definition Initiate :: "crypto_lib \<Rightarrow> (KEMHandshake, bytes) meth" where
  "Initiate c =
     st_bind (generate_keypair c) (\<lambda>kp.
     let msg = \<lparr>req_KEMPublicKey = kem_Public kp, req_AlgorithmSuite = ''ML-KEM-768_AES-GCM''\<rparr> in
     st_bind (assign (state_update (\<lambda>_. StateWaitAgree))) (\<lambda>_.
     st_lift (HandshakeRequest_Serialize msg)))"

definition HandleRequest :: "crypto_lib \<Rightarrow> bytes \<Rightarrow> (KEMHandshake, bytes) meth" where
  "HandleRequest c request =
     st_bind (st_lift (DeserializeHandshakeRequest request)) (\<lambda>req.
     st_bind (generate_keypair c) (\<lambda>kp.
     st_bind (assign (peerPubkey_update (\<lambda>_. req_KEMPublicKey req))) (\<lambda>_.
     st_bind (drawing (MLKEMEncapsulate c (req_KEMPublicKey req))) (\<lambda>(ciphertext, ssB2A).
     st_bind (assign (set_secret ''ss_B2A'' ssB2A)) (\<lambda>_.
     let msg = \<lparr>agr_KEMPublicKey = kem_Public kp, agr_PeerCiphertext = ciphertext,
                agr_AlgorithmSuite = ''ML-KEM-768_AES-GCM''\<rparr> in
     st_bind (assign (state_update (\<lambda>_. StateWaitFinish))) (\<lambda>_.
     st_lift (HandshakeAgree_Serialize msg)))))))"

definition HandleAgree :: "crypto_lib \<Rightarrow> bytes \<Rightarrow> (KEMHandshake, bytes) meth" where
  "HandleAgree c agree =
     st_bind (reading state) (\<lambda>s.
     if s \<noteq> StateWaitAgree then st_lift (Err (ErrMsg ''invalid state for HandleAgree'')) else
     st_bind (st_lift (DeserializeHandshakeAgree agree)) (\<lambda>agr.
     st_bind (reading myKEMKeypair) (\<lambda>p.
     st_bind (st_lift (deref p)) (\<lambda>kp.
     st_bind (st_lift (MLKEMDecapsulate c (kem_Private kp) (agr_PeerCiphertext agr))) (\<lambda>ssB2A.
     st_bind (assign (set_secret ''ss_B2A'' ssB2A)) (\<lambda>_.
     st_bind (assign (peerPubkey_update (\<lambda>_. agr_KEMPublicKey agr))) (\<lambda>_.
     st_bind (drawing (MLKEMEncapsulate c (agr_KEMPublicKey agr))) (\<lambda>(ciphertext, ssA2B).
     st_bind (assign (set_secret ''ss_A2B'' ssA2B)) (\<lambda>_.
     let msg = \<lparr>fin_Ciphertext = ciphertext\<rparr> in
     st_bind (assign (state_update (\<lambda>_. StateEstablished))) (\<lambda>_.
     st_lift (HandshakeFinish_Serialize msg)))))))))))"

definition HandleFinish :: "crypto_lib \<Rightarrow> bytes \<Rightarrow> (KEMHandshake, unit) meth" where
  "HandleFinish c finish =
     st_bind (reading state) (\<lambda>s.
     if s \<noteq> StateWaitFinish then st_lift (Err (ErrMsg ''invalid state for HandleFinish'')) else
     st_bind (st_lift (DeserializeHandshakeFinish finish)) (\<lambda>fin.
     st_bind (reading myKEMKeypair) (\<lambda>p.
     st_bind (st_lift (deref p)) (\<lambda>kp.
     st_bind (st_lift (MLKEMDecapsulate c (kem_Private kp) (fin_Ciphertext fin))) (\<lambda>ssA2B.
     st_bind (assign (set_secret ''ss_A2B'' ssA2B)) (\<lambda>_.
     st_bind (assign (state_update (\<lambda>_. StateEstablished))) (\<lambda>_.
     let privateKey = kem_Private kp in
     st_bind (drawing (SecureClear privateKey)) (\<lambda>_.
     assign (myKEMKeypair_update (\<lambda>_. None))))))))))"

definition DeriveSessionKey :: "crypto_lib \<Rightarrow> KEMHandshake \<Rightarrow> bytes res" where
  "DeriveSessionKey c h =
     (if state h \<noteq> StateEstablished then Err (ErrMsg ''handshake not established'')
      else case (sharedSecrets h ''ss_B2A'', sharedSecrets h ''ss_A2B'') of
        (Some ssB2A, Some ssA2B) \<Rightarrow>
          HKDF c (ssB2A @ ssA2B) [] (bytes_of_string ''ML-KEM-768-session-key-v1'') 32
      | _ \<Rightarrow> Err (ErrMsg ''shared secrets not available''))"

definition State :: "KEMHandshake \<Rightarrow> HandshakeState" where
  "State h = state h"

definition MyKEMPublicKey :: "KEMHandshake \<Rightarrow> bytes" where
  "MyKEMPublicKey h = (case myKEMKeypair h of Some kp \<Rightarrow> kem_Public kp | None \<Rightarrow> [])"

definition PeerPubkey :: "KEMHandshake \<Rightarrow> bytes" where
  "PeerPubkey h = peerPubkey h"

definition SetState :: "HandshakeState \<Rightarrow> KEMHandshake \<Rightarrow> KEMHandshake" where
  "SetState s h = h\<lparr>state := s\<rparr>"

section \<open>What each method does\<close>

text \<open>
  One equation per method, over the outcome of the calls into the crypto library: all the
  later proofs split these and never unfold the methods.
\<close>

named_theorems hs_eqs \<open>the methods as case distinctions\<close>

lemma Initiate_eq [hs_eqs]:
  "Initiate c (h, r) = (case GenerateMLKEMKeypair c r of
      (r', Ok kp) \<Rightarrow> ((h\<lparr>myKEMKeypair := Some kp, state := StateWaitAgree\<rparr>, r'),
         HandshakeRequest_Serialize \<lparr>req_KEMPublicKey = kem_Public kp,
           req_AlgorithmSuite = ''ML-KEM-768_AES-GCM''\<rparr>)
    | (r', Err e) \<Rightarrow> ((h\<lparr>myKEMKeypair := None\<rparr>, r'), Err e)
    | (r', Panic p) \<Rightarrow> ((h, r'), Panic p))"
  by (simp add: Initiate_def generate_keypair_def st_bind_def assign_def
      split: prod.splits res.splits)

lemma HandleRequest_eq [hs_eqs]:
  "HandleRequest c data (h, r) = (case DeserializeHandshakeRequest data of
      Err e \<Rightarrow> ((h, r), Err e)
    | Panic p \<Rightarrow> ((h, r), Panic p)
    | Ok req \<Rightarrow> (case GenerateMLKEMKeypair c r of
         (r', Err e) \<Rightarrow> ((h\<lparr>myKEMKeypair := None\<rparr>, r'), Err e)
       | (r', Panic p) \<Rightarrow> ((h, r'), Panic p)
       | (r', Ok kp) \<Rightarrow> (let h' = h\<lparr>myKEMKeypair := Some kp, peerPubkey := req_KEMPublicKey req\<rparr>
          in case MLKEMEncapsulate c (req_KEMPublicKey req) r' of
            (r'', Err e) \<Rightarrow> ((h', r''), Err e)
          | (r'', Panic p) \<Rightarrow> ((h', r''), Panic p)
          | (r'', Ok (ct, ss)) \<Rightarrow> (((set_secret ''ss_B2A'' ss h')\<lparr>state := StateWaitFinish\<rparr>, r''),
              HandshakeAgree_Serialize \<lparr>agr_KEMPublicKey = kem_Public kp, agr_PeerCiphertext = ct,
                agr_AlgorithmSuite = ''ML-KEM-768_AES-GCM''\<rparr>))))"
  by (simp add: HandleRequest_def generate_keypair_def st_bind_def assign_def drawing_def Let_def
      split: prod.splits res.splits)

lemma HandleAgree_eq [hs_eqs]:
  "HandleAgree c data (h, r) =
    (if state h \<noteq> StateWaitAgree then ((h, r), Err (ErrMsg ''invalid state for HandleAgree''))
     else case DeserializeHandshakeAgree data of
      Err e \<Rightarrow> ((h, r), Err e)
    | Panic p \<Rightarrow> ((h, r), Panic p)
    | Ok agr \<Rightarrow> (case myKEMKeypair h of None \<Rightarrow> ((h, r), Panic ''nil pointer dereference'')
       | Some kp \<Rightarrow> (case MLKEMDecapsulate c (kem_Private kp) (agr_PeerCiphertext agr) of
            Err e \<Rightarrow> ((h, r), Err e)
          | Panic p \<Rightarrow> ((h, r), Panic p)
          | Ok ss \<Rightarrow> (let h' = (set_secret ''ss_B2A'' ss h)\<lparr>peerPubkey := agr_KEMPublicKey agr\<rparr>
             in case MLKEMEncapsulate c (agr_KEMPublicKey agr) r of
               (r', Err e) \<Rightarrow> ((h', r'), Err e)
             | (r', Panic p) \<Rightarrow> ((h', r'), Panic p)
             | (r', Ok (ct, ss')) \<Rightarrow> (((set_secret ''ss_A2B'' ss' h')\<lparr>state := StateEstablished\<rparr>, r'),
                 HandshakeFinish_Serialize \<lparr>fin_Ciphertext = ct\<rparr>)))))"
  by (simp add: HandleAgree_def st_bind_def assign_def reading_def drawing_def Let_def
      split: prod.splits res.splits option.splits)

lemma HandleFinish_eq [hs_eqs]:
  "HandleFinish c data (h, r) =
    (if state h \<noteq> StateWaitFinish then ((h, r), Err (ErrMsg ''invalid state for HandleFinish''))
     else case DeserializeHandshakeFinish data of
      Err e \<Rightarrow> ((h, r), Err e)
    | Panic p \<Rightarrow> ((h, r), Panic p)
    | Ok fin \<Rightarrow> (case myKEMKeypair h of None \<Rightarrow> ((h, r), Panic ''nil pointer dereference'')
       | Some kp \<Rightarrow> (case MLKEMDecapsulate c (kem_Private kp) (fin_Ciphertext fin) of
            Err e \<Rightarrow> ((h, r), Err e)
          | Panic p \<Rightarrow> ((h, r), Panic p)
          | Ok ss \<Rightarrow> (let h' = (set_secret ''ss_A2B'' ss h)\<lparr>state := StateEstablished\<rparr>
             in case SecureClear (kem_Private kp) r of
               (r', Err e) \<Rightarrow> ((h', r'), Err e)
             | (r', Panic p) \<Rightarrow> ((h', r'), Panic p)
             | (r', Ok _) \<Rightarrow> ((h'\<lparr>myKEMKeypair := None\<rparr>, r'), Ok ())))))"
  by (simp add: HandleFinish_def st_bind_def assign_def reading_def drawing_def Let_def
      split: prod.splits res.splits option.splits)

lemma set_secret_simps [simp]:
  "state (set_secret k ss h) = state h"
  "isInitiator (set_secret k ss h) = isInitiator h"
  "myKEMKeypair (set_secret k ss h) = myKEMKeypair h"
  "peerPubkey (set_secret k ss h) = peerPubkey h"
  "sharedSecrets (set_secret k ss h) = (sharedSecrets h)(k \<mapsto> ss)"
  by (simp_all add: set_secret_def)

text \<open>\<open>SecureClear\<close> returns no error: it succeeds or the random source stops the program.\<close>

lemma clear_value_no_Err: "snd (clear_value k r) \<noteq> Err e"
  by (cases "(1::nat, r)" rule: ReadFull.cases)
     (auto simp: clear_value_def rand_Read_def st_bind_def go_index_def)

lemma clear_round_no_Err: "snd (clear_round k is data r) \<noteq> Err e"
proof (induction k "is" data arbitrary: r rule: clear_round.induct)
  case (2 k i "is" data)
  then show ?case
    using clear_value_no_Err [of k r e] by (auto simp: st_bind_def split: prod.splits res.splits)
qed simp

lemma clear_rounds_no_Err: "snd (clear_rounds ks data r) \<noteq> Err e"
proof (induction ks data arbitrary: r rule: clear_rounds.induct)
  case (2 k ks data)
  then show ?case
    using clear_round_no_Err [of k "[0..<length data]" data r e]
    by (auto simp: st_bind_def split: prod.splits res.splits)
qed simp

lemma SecureClear_no_Err: "SecureClear data r \<noteq> (r', Err e)"
  using clear_rounds_no_Err [of "[0..<4]" data r e] by (auto simp: SecureClear_def)

section \<open>Reachable objects\<close>

inductive hs_step :: "crypto_lib \<Rightarrow> KEMHandshake \<Rightarrow> KEMHandshake \<Rightarrow> bool" for c where
  step_Initiate: "Initiate c (h, r) = ((h', r'), x) \<Longrightarrow> hs_step c h h'"
| step_HandleRequest: "HandleRequest c data (h, r) = ((h', r'), x) \<Longrightarrow> hs_step c h h'"
| step_HandleAgree: "HandleAgree c data (h, r) = ((h', r'), x) \<Longrightarrow> hs_step c h h'"
| step_HandleFinish: "HandleFinish c data (h, r) = ((h', r'), y) \<Longrightarrow> hs_step c h h'"

text \<open>
  The objects a call can leave behind: an early return keeps what was assigned before it.
\<close>

inductive_cases hs_stepE: "hs_step c h h'"

lemma Initiate_leaves:
  "Initiate c (h, r) = ((h', r'), x) \<Longrightarrow> h' = h \<or> h' = h\<lparr>myKEMKeypair := None\<rparr> \<or>
     (\<exists>kp. h' = h\<lparr>myKEMKeypair := Some kp, state := StateWaitAgree\<rparr>)"
  by (auto simp: hs_eqs split: prod.splits res.splits)

lemma HandleRequest_leaves:
  assumes "HandleRequest c data (h, r) = ((h', r'), x)"
  shows "h' = h \<or> h' = h\<lparr>myKEMKeypair := None\<rparr> \<or>
     (\<exists>kp pk. h' = h\<lparr>myKEMKeypair := Some kp, peerPubkey := pk\<rparr>) \<or>
     (\<exists>kp pk ss. h' = set_secret ''ss_B2A'' ss
         (h\<lparr>myKEMKeypair := Some kp, peerPubkey := pk\<rparr>)\<lparr>state := StateWaitFinish\<rparr>)"
proof (cases "DeserializeHandshakeRequest data")
  case (Ok req)
  obtain r1 g where g: "GenerateMLKEMKeypair c r = (r1, g)" by fastforce
  obtain r2 e where e: "MLKEMEncapsulate c (req_KEMPublicKey req) r1 = (r2, e)" by fastforce
  show ?thesis
    using assms by (cases g; cases e; clarsimp simp: hs_eqs Ok g e; blast)
qed (use assms in \<open>simp_all add: hs_eqs\<close>)

lemma HandleAgree_leaves:
  assumes "HandleAgree c data (h, r) = ((h', r'), x)"
  shows "h' = h \<or> state h = StateWaitAgree \<and>
     ((\<exists>ss pk. h' = (set_secret ''ss_B2A'' ss h)\<lparr>peerPubkey := pk\<rparr>) \<or>
      (\<exists>ss pk ss'. h' = (set_secret ''ss_A2B'' ss'
          ((set_secret ''ss_B2A'' ss h)\<lparr>peerPubkey := pk\<rparr>))\<lparr>state := StateEstablished\<rparr>))"
proof (cases "DeserializeHandshakeAgree data")
  case (Ok agr)
  obtain r1 e where e: "MLKEMEncapsulate c (agr_KEMPublicKey agr) r = (r1, e)" by fastforce
  show ?thesis
    using assms by (cases e; clarsimp simp: hs_eqs Ok e Let_def split: if_splits option.splits res.splits; blast)
qed (use assms in \<open>simp_all add: hs_eqs split: if_splits\<close>)

lemma HandleFinish_leaves:
  assumes "HandleFinish c data (h, r) = ((h', r'), x)"
  shows "h' = h \<or> state h = StateWaitFinish \<and>
     (\<exists>ss. h' = (set_secret ''ss_A2B'' ss h)\<lparr>state := StateEstablished\<rparr> \<or>
           h' = (set_secret ''ss_A2B'' ss h)\<lparr>state := StateEstablished, myKEMKeypair := None\<rparr>)"
proof (cases "DeserializeHandshakeFinish data")
  case (Ok fin)
  then show ?thesis
    using assms by (auto simp: hs_eqs Ok Let_def split: if_splits option.splits res.splits prod.splits)
qed (use assms in \<open>simp_all add: hs_eqs split: if_splits\<close>)

lemmas hs_leaves = Initiate_leaves HandleRequest_leaves HandleAgree_leaves HandleFinish_leaves

text \<open>
  The states an object goes through, and which secrets it holds in them.
\<close>

definition hs_inv :: "KEMHandshake \<Rightarrow> bool" where
  "hs_inv h \<longleftrightarrow> state h \<in> {StateInit, StateWaitAgree, StateWaitFinish, StateEstablished}
     \<and> (state h \<in> {StateWaitFinish, StateEstablished} \<longrightarrow> sharedSecrets h ''ss_B2A'' \<noteq> None)
     \<and> (state h = StateEstablished \<longrightarrow> sharedSecrets h ''ss_A2B'' \<noteq> None)"

lemma hs_inv_New: "hs_inv (NewKEMHandshake b)"
  by (simp add: hs_inv_def NewKEMHandshake_def state_defs)

lemma hs_inv_step: "hs_step c h h' \<Longrightarrow> hs_inv h \<Longrightarrow> hs_inv h'"
  by (erule hs_stepE; drule hs_leaves; elim disjE exE conjE;
      clarsimp simp: hs_inv_def state_defs)

lemma hs_inv_reachable: "(hs_step c)\<^sup>*\<^sup>* (NewKEMHandshake b) h \<Longrightarrow> hs_inv h"
  by (induction rule: rtranclp_induct) (simp_all add: hs_inv_New hs_inv_step)

lemma hs_step_role: "hs_step c h h' \<Longrightarrow> isInitiator h' = isInitiator h"
  by (erule hs_stepE; drule hs_leaves; elim disjE exE conjE; simp)

lemma DeriveSessionKey_Established:
  assumes "hash_laws c" "state h = StateEstablished"
    "sharedSecrets h ''ss_B2A'' = Some s1" "sharedSecrets h ''ss_A2B'' = Some s2"
  shows "DeriveSessionKey c h = Ok (lib_hkdf c (s1 @ s2) (replicate 32 0)
    (string_of_bytes (bytes_of_string ''ML-KEM-768-session-key-v1'')) 32)"
  using assms by (simp add: DeriveSessionKey_def HKDF_def hkdf_Key_def)

section \<open>A run of the two parties\<close>

text \<open>
  What the parties send and hold when the random source supplies \<open>a\<close>, \<open>a'\<close> to the
  initiator and \<open>b\<close>, \<open>b'\<close> to the responder.
\<close>

definition keypair_of :: "crypto_lib \<Rightarrow> bytes \<Rightarrow> MLKEMKeyPair" where
  "keypair_of c a = \<lparr>DecapsulationKey = Some (fit 64 a),
     EncapsulationKey = Some (lib_kem_ek c (fit 64 a))\<rparr>"

definition suite :: string where "suite = ''ML-KEM-768_AES-GCM''"

definition request_of :: "crypto_lib \<Rightarrow> bytes \<Rightarrow> HandshakeRequest" where
  "request_of c a = \<lparr>req_KEMPublicKey = lib_kem_ek c (fit 64 a), req_AlgorithmSuite = suite\<rparr>"

definition encaps_of :: "crypto_lib \<Rightarrow> bytes \<Rightarrow> bytes \<Rightarrow> bytes \<times> bytes" where
  "encaps_of c a b = lib_kem_encaps c (lib_kem_ek c (fit 64 a)) (fit 32 b)"

definition agree_of :: "crypto_lib \<Rightarrow> bytes \<Rightarrow> bytes \<Rightarrow> bytes \<Rightarrow> HandshakeAgree" where
  "agree_of c a b b' = \<lparr>agr_KEMPublicKey = lib_kem_ek c (fit 64 b),
     agr_PeerCiphertext = snd (encaps_of c a b'), agr_AlgorithmSuite = suite\<rparr>"

lemma kem_Public_keypair_of [simp]: "kem_Public (keypair_of c a) = lib_kem_ek c (fit 64 a)"
  and kem_Private_keypair_of [simp]: "kem_Private (keypair_of c a) = fit 64 a"
  by (simp_all add: keypair_of_def kem_key_defs)

lemma GenerateMLKEMKeypair_keypair_of: "GenerateMLKEMKeypair c (Some a # r) = (r, Ok (keypair_of c a))"
  by (simp add: keypair_of_def)

lemma run_sizes:
  assumes "kem_laws c"
  shows "length (lib_kem_ek c (fit 64 a)) = 1184"
    and "length (fst (encaps_of c a b)) = 32"
    and "length (snd (encaps_of c a b)) = 1088"
    and "lib_kem_valid c (lib_kem_ek c (fit 64 a))"
    and "lib_kem_decaps c (fit 64 a) (snd (encaps_of c a b)) = fst (encaps_of c a b)"
  by (simp_all add: encaps_of_def kem_law_facts [OF assms])

lemma run_fits:
  assumes "kem_laws c"
  shows "request_fits (request_of c a)" "agree_fits (agree_of c a b b')"
    "fits16 (snd (encaps_of c a b))"
  by (simp_all add: request_fits_def agree_fits_def request_of_def agree_of_def fits16_def suite_def
      run_sizes [OF assms] bytes_of_string_def)

lemma Initiate_run:
  assumes "HandshakeRequest_Serialize (request_of c a) = Ok m"
  shows "Initiate c (h, Some a # r) =
    ((h\<lparr>myKEMKeypair := Some (keypair_of c a), state := StateWaitAgree\<rparr>, r), Ok m)"
  using assms by (simp add: hs_eqs GenerateMLKEMKeypair_keypair_of request_of_def suite_def
      del: GenerateMLKEMKeypair_Some)

lemma HandleRequest_run:
  assumes c: "kem_laws c" and req: "HandshakeRequest_Serialize (request_of c a) = Ok m"
    and agr: "HandshakeAgree_Serialize (agree_of c a b b') = Ok m'"
  shows "HandleRequest c m (h, Some b # Some b' # r) =
    ((h\<lparr>myKEMKeypair := Some (keypair_of c b), peerPubkey := lib_kem_ek c (fit 64 a),
        sharedSecrets := (sharedSecrets h)(''ss_B2A'' \<mapsto> fst (encaps_of c a b')),
        state := StateWaitFinish\<rparr>, r), Ok m')"
proof -
  have "DeserializeHandshakeRequest m = Ok (request_of c a)"
    using request.des_ser [OF run_fits(1) [OF c] req, of "[]"] by simp
  moreover have "MLKEMEncapsulate c (lib_kem_ek c (fit 64 a)) (Some b' # r) =
      (r, Ok (snd (encaps_of c a b'), fst (encaps_of c a b')))"
    by (simp add: run_sizes [OF c] encaps_of_def)
  ultimately show ?thesis
    using agr by (simp add: hs_eqs GenerateMLKEMKeypair_keypair_of request_of_def agree_of_def
        suite_def set_secret_def del: GenerateMLKEMKeypair_Some)
qed

lemma HandleAgree_run:
  assumes c: "kem_laws c" and agr: "HandshakeAgree_Serialize (agree_of c a b b') = Ok m"
    and fin: "HandshakeFinish_Serialize \<lparr>fin_Ciphertext = snd (encaps_of c b a')\<rparr> = Ok m'"
    and h: "state h = StateWaitAgree" "myKEMKeypair h = Some (keypair_of c a)"
  shows "HandleAgree c m (h, Some a' # r) =
    ((h\<lparr>peerPubkey := lib_kem_ek c (fit 64 b),
        sharedSecrets := (sharedSecrets h)(''ss_B2A'' \<mapsto> fst (encaps_of c a b'),
          ''ss_A2B'' \<mapsto> fst (encaps_of c b a')),
        state := StateEstablished\<rparr>, r), Ok m')"
proof -
  have "DeserializeHandshakeAgree m = Ok (agree_of c a b b')"
    using agree.des_ser [OF run_fits(2) [OF c] agr, of "[]"] by simp
  moreover have "MLKEMDecapsulate c (fit 64 a) (snd (encaps_of c a b')) = Ok (fst (encaps_of c a b'))"
    by (simp add: MLKEMDecapsulate_def mlkem_SeedSize_def mlkem_CiphertextSize768_def run_sizes [OF c])
  moreover have "MLKEMEncapsulate c (lib_kem_ek c (fit 64 b)) (Some a' # r) =
      (r, Ok (snd (encaps_of c b a'), fst (encaps_of c b a')))"
    by (simp add: run_sizes [OF c] encaps_of_def)
  ultimately show ?thesis
    using fin h by (simp add: hs_eqs agree_of_def set_secret_def)
qed

lemma HandleFinish_run:
  assumes c: "kem_laws c"
    and fin: "HandshakeFinish_Serialize \<lparr>fin_Ciphertext = snd (encaps_of c b a')\<rparr> = Ok m"
    and h: "state h = StateWaitFinish" "myKEMKeypair h = Some (keypair_of c b)"
    and ds: "length ds = 64"
  shows "HandleFinish c m (h, map Some ds @ r) =
    ((h\<lparr>sharedSecrets := (sharedSecrets h)(''ss_A2B'' \<mapsto> fst (encaps_of c b a')),
        state := StateEstablished, myKEMKeypair := None\<rparr>, r), Ok ())"
proof -
  have "DeserializeHandshakeFinish m = Ok \<lparr>fin_Ciphertext = snd (encaps_of c b a')\<rparr>"
    using finish.des_ser [OF _ fin, of "[]"] run_fits(3) [OF c] by simp
  moreover have "MLKEMDecapsulate c (fit 64 b) (snd (encaps_of c b a')) = Ok (fst (encaps_of c b a'))"
    by (simp add: MLKEMDecapsulate_def mlkem_SeedSize_def mlkem_CiphertextSize768_def run_sizes [OF c])
  ultimately show ?thesis
    using h SecureClear_random [of ds "fit 64 b" r] ds by (simp add: hs_eqs set_secret_def)
qed

section \<open>Properties\<close>

text \<open>
  C1. The handshake succeeds and agrees. Whatever the two objects went through before (the
  initiator and the responder may be in any state, with any leftovers), passing each other's
  messages on ends with both established and holding the same 32-byte session key; each side
  has recorded the other's ephemeral public key; the responder has dropped its key pair and
  the initiator still holds its own.
\<close>

theorem handshake_agreement:
  assumes "kem_laws c" and "hash_laws c" and "length ds = 64"
  shows "\<exists>m1 m2 m3 hA1 hB1 hA2 hB2 key.
      Initiate c (hA, Some a # Some a' # rA) = ((hA1, Some a' # rA), Ok m1)
    \<and> HandleRequest c m1 (hB, Some b # Some b' # map Some ds @ rB) = ((hB1, map Some ds @ rB), Ok m2)
    \<and> HandleAgree c m2 (hA1, Some a' # rA) = ((hA2, rA), Ok m3)
    \<and> HandleFinish c m3 (hB1, map Some ds @ rB) = ((hB2, rB), Ok ())
    \<and> State hA2 = StateEstablished \<and> State hB2 = StateEstablished
    \<and> DeriveSessionKey c hA2 = Ok key \<and> DeriveSessionKey c hB2 = Ok key \<and> length key = 32
    \<and> PeerPubkey hB2 = MyKEMPublicKey hA2 \<and> PeerPubkey hA2 = MyKEMPublicKey hB1
    \<and> MyKEMPublicKey hB2 = [] \<and> myKEMKeypair hA2 = Some (keypair_of c a)"
proof -
  obtain m1 m2 m3 where m: "HandshakeRequest_Serialize (request_of c a) = Ok m1"
      "HandshakeAgree_Serialize (agree_of c a b b') = Ok m2"
      "HandshakeFinish_Serialize \<lparr>fin_Ciphertext = snd (encaps_of c b a')\<rparr> = Ok m3"
    using request.ser_total agree.ser_total finish.ser_total by metis
  note runs = Initiate_run [OF m(1), of hA "Some a' # rA"]
    HandleRequest_run [OF assms(1) m(1,2), of hB "map Some ds @ rB"]
    HandleAgree_run [OF assms(1) m(2,3)] HandleFinish_run [OF assms(1) m(3) _ _ assms(3), of _ rB]
  show ?thesis
    by (rule exI [of _ m1], rule exI [of _ m2], rule exI [of _ m3])
       (simp add: runs State_def PeerPubkey_def MyKEMPublicKey_def hash_law_facts [OF assms(2)]
        DeriveSessionKey_Established [OF assms(2)])
qed

theorem handshake_agreement_witness:
  "\<exists>hA hB. State hA = StateEstablished \<and> State hB = StateEstablished \<and> \<not> isInitiator hB \<and>
     is_ok (DeriveSessionKey demo_lib hA) \<and> DeriveSessionKey demo_lib hA = DeriveSessionKey demo_lib hB"
proof -
  obtain m1 m2 m3 hA1 hB1 hA2 hB2 key r where run:
      "HandleRequest demo_lib m1 (NewKEMHandshake False, [Some [3], Some [4]] @ map Some (replicate 64 []))
         = ((hB1, r), Ok m2)"
      "HandleFinish demo_lib m3 (hB1, r) = ((hB2, []), Ok ())"
    and res: "State hA2 = StateEstablished" "State hB2 = StateEstablished"
      "DeriveSessionKey demo_lib hA2 = Ok key" "DeriveSessionKey demo_lib hB2 = Ok key"
    using handshake_agreement [OF demo_laws(1,4), of "replicate 64 []" "NewKEMHandshake True" "[1]" "[2]"
        "[]" "NewKEMHandshake False" "[3]" "[4]" "[]"] by auto
  have "hs_step demo_lib (NewKEMHandshake False) hB1" "hs_step demo_lib hB1 hB2"
    using run by (auto intro: hs_step.intros)
  then have "\<not> isInitiator hB2"
    using hs_step_role by (simp add: NewKEMHandshake_def)
  with res show ?thesis
    by (intro exI [of _ hA2] exI [of _ hB2]) simp
qed

text \<open>
  C11. In every object the protocol methods can produce, from either role and in any order
  of calls, with any messages and any randomness: the state is INIT, WAIT_AGREE, WAIT_FINISH
  or ESTABLISHED (FAILED is never entered), a session key can be derived exactly in
  ESTABLISHED, it has 32 bytes, and deriving it never panics.
\<close>

theorem session_key_iff_established:
  assumes "hash_laws c" and "(hs_step c)\<^sup>*\<^sup>* (NewKEMHandshake role) h"
  shows "HandshakeState_String (State h) \<in> {''INIT'', ''WAIT_AGREE'', ''WAIT_FINISH'', ''ESTABLISHED''}
    \<and> (is_ok (DeriveSessionKey c h) \<longleftrightarrow> State h = StateEstablished)
    \<and> \<not> is_panic (DeriveSessionKey c h)
    \<and> (\<forall>key. DeriveSessionKey c h = Ok key \<longrightarrow> length key = 32)"
proof (cases "state h = StateEstablished")
  case True
  with hs_inv_reachable [OF assms(2)] obtain s1 s2
    where "sharedSecrets h ''ss_B2A'' = Some s1" "sharedSecrets h ''ss_A2B'' = Some s2"
    by (auto simp: hs_inv_def)
  from DeriveSessionKey_Established [OF assms(1) True this] True show ?thesis
    by (simp add: State_def HandshakeState_String_def state_defs hash_law_facts [OF assms(1)])
next
  case False
  then show ?thesis
    using hs_inv_reachable [OF assms(2)]
    by (auto simp: hs_inv_def State_def DeriveSessionKey_def HandshakeState_String_def state_defs)
qed

theorem session_key_iff_established_witness:
  "\<not> is_ok (DeriveSessionKey demo_lib (NewKEMHandshake True\<lparr>myKEMKeypair := Some (keypair_of demo_lib [1]),
     state := StateWaitAgree\<rparr>))"
proof -
  obtain m where "HandshakeRequest_Serialize (request_of demo_lib [1]) = Ok m"
    using request.ser_total by blast
  then have "hs_step demo_lib (NewKEMHandshake True) (NewKEMHandshake True\<lparr>myKEMKeypair :=
      Some (keypair_of demo_lib [1]), state := StateWaitAgree\<rparr>)"
    by (rule step_Initiate [OF Initiate_run])
  from session_key_iff_established [OF demo_laws(4) r_into_rtranclp, OF this] show ?thesis
    by (simp add: State_def state_defs)
qed

text \<open>
  C10. What each method does to the state machine, whatever the object, the message and the
  random source. \<open>Initiate\<close> goes to WAIT_AGREE when it succeeds and \<open>HandleRequest\<close> to
  WAIT_FINISH, from any state and in either role; so neither of them enters ESTABLISHED.
  \<open>HandleAgree\<close> enters it exactly when it succeeds, which needs WAIT_AGREE, and \<open>HandleFinish\<close>
  likewise from WAIT_FINISH: in any other state they change nothing, draw nothing and return
  their error. A call that fails leaves the state as it was, with one exception: \<open>HandleFinish\<close>
  has already entered ESTABLISHED when the erasure of the private key panics for want of
  randomness. The role never changes. (\<open>SetState\<close>, which only the tests call, sets any state.)
\<close>

theorem handshake_guards:
  "(case Initiate c (h, r) of ((h', r'), x) \<Rightarrow>
      isInitiator h' = isInitiator h \<and> state h' = (if is_ok x then StateWaitAgree else state h))
   \<and> (case HandleRequest c data (h, r) of ((h', r'), x) \<Rightarrow>
      isInitiator h' = isInitiator h \<and> state h' = (if is_ok x then StateWaitFinish else state h))
   \<and> (case HandleAgree c data (h, r) of ((h', r'), x) \<Rightarrow>
      isInitiator h' = isInitiator h \<and> state h' = (if is_ok x then StateEstablished else state h)
      \<and> (state h = StateWaitAgree \<or>
         h' = h \<and> r' = r \<and> x = Err (ErrMsg ''invalid state for HandleAgree'')))
   \<and> (case HandleFinish c data (h, r) of ((h', r'), y) \<Rightarrow>
      isInitiator h' = isInitiator h
      \<and> (state h' = (if is_ok y then StateEstablished else state h) \<or> is_panic y \<and> state h' = StateEstablished)
      \<and> (state h = StateWaitFinish \<or>
         h' = h \<and> r' = r \<and> y = Err (ErrMsg ''invalid state for HandleFinish'')))"
proof (intro conjI)
  show "case Initiate c (h, r) of ((h', r'), x) \<Rightarrow>
      isInitiator h' = isInitiator h \<and> state h' = (if is_ok x then StateWaitAgree else state h)"
    by (simp add: hs_eqs HandshakeRequest_wire split: prod.splits res.splits)
  show "case HandleRequest c data (h, r) of ((h', r'), x) \<Rightarrow>
      isInitiator h' = isInitiator h \<and> state h' = (if is_ok x then StateWaitFinish else state h)"
    by (simp add: hs_eqs HandshakeAgree_wire Let_def split: prod.splits res.splits)
  show "case HandleAgree c data (h, r) of ((h', r'), x) \<Rightarrow>
      isInitiator h' = isInitiator h \<and> state h' = (if is_ok x then StateEstablished else state h)
      \<and> (state h = StateWaitAgree \<or>
         h' = h \<and> r' = r \<and> x = Err (ErrMsg ''invalid state for HandleAgree''))"
    by (simp add: hs_eqs HandshakeFinish_wire Let_def split: prod.splits res.splits option.splits)
  show "case HandleFinish c data (h, r) of ((h', r'), y) \<Rightarrow>
      isInitiator h' = isInitiator h
      \<and> (state h' = (if is_ok y then StateEstablished else state h) \<or> is_panic y \<and> state h' = StateEstablished)
      \<and> (state h = StateWaitFinish \<or>
         h' = h \<and> r' = r \<and> y = Err (ErrMsg ''invalid state for HandleFinish''))"
    using SecureClear_no_Err by (auto simp: hs_eqs Let_def split: prod.splits res.splits option.splits)
qed

theorem handshake_guards_witness:
  "HandleFinish demo_lib [1, 2] (NewKEMHandshake False, []) =
     ((NewKEMHandshake False, []), Err (ErrMsg ''invalid state for HandleFinish''))"
  using handshake_guards [where c = demo_lib and h = "NewKEMHandshake False" and r = "[]" and data = "[1, 2]"]
  by (simp add: NewKEMHandshake_def state_defs split: prod.splits)

text \<open>
  C34. When \<open>HandleAgree\<close> accepts, for a random source that delivers: the object is in
  WAIT_AGREE with a usable key pair, the message parses, its ciphertext has 1088 bytes and its
  key is a valid encapsulation key. Nothing else is checked: neither who sent it nor the
  algorithm suite it names. It panics exactly when the key pair is missing.
\<close>

theorem HandleAgree_acceptance:
  "(is_ok (snd (HandleAgree c data (h, Some coins # r))) \<longleftrightarrow>
      state h = StateWaitAgree \<and>
      (\<exists>agr kp. DeserializeHandshakeAgree data = Ok agr \<and> myKEMKeypair h = Some kp \<and>
         length (kem_Private kp) = 64 \<and> length (agr_PeerCiphertext agr) = 1088 \<and>
         lib_kem_valid c (agr_KEMPublicKey agr)))
   \<and> (is_panic (snd (HandleAgree c data (h, Some coins # r))) \<longleftrightarrow>
      state h = StateWaitAgree \<and> is_ok (DeserializeHandshakeAgree data) \<and> myKEMKeypair h = None)"
proof (cases "DeserializeHandshakeAgree data")
  case (Ok agr)
  then show ?thesis
    by (cases "lib_kem_valid c (agr_KEMPublicKey agr)"; cases "myKEMKeypair h")
       (auto simp: hs_eqs Let_def MLKEMDecapsulate_def mlkem_SeedSize_def mlkem_CiphertextSize768_def
         HandshakeFinish_wire MLKEMEncapsulate_invalid)
next
  case (Panic p)
  then show ?thesis using agree.des_no_panic [of data] by simp
qed (simp add: hs_eqs)

text \<open>
  C35. A second \<open>Initiate\<close> whose key generation fails returns an error but leaves the object in
  WAIT_AGREE without a key pair; the next well-formed agree message, which any peer can send,
  then dereferences nil.
\<close>

theorem failed_restart_panics:
  assumes "DeserializeHandshakeAgree data = Ok agr"
  shows "\<exists>h1 h2 m e. Initiate c (NewKEMHandshake True, [Some a, None]) = ((h1, [None]), Ok m)
    \<and> Initiate c (h1, [None]) = ((h2, []), Err e)
    \<and> State h2 = StateWaitAgree
    \<and> HandleAgree c data (h2, r) = ((h2, r), Panic ''nil pointer dereference'')"
proof -
  obtain m where m: "HandshakeRequest_Serialize (request_of c a) = Ok m"
    using request.ser_total by blast
  let ?h1 = "NewKEMHandshake True\<lparr>myKEMKeypair := Some (keypair_of c a), state := StateWaitAgree\<rparr>"
  show ?thesis
    using assms Initiate_run [OF m, of "NewKEMHandshake True" "[None]"]
    by (intro exI [of _ ?h1] exI [of _ "?h1\<lparr>myKEMKeypair := None\<rparr>"] exI [of _ m])
       (simp add: hs_eqs GenerateMLKEMKeypair_def State_def st_bind_def)
qed

theorem failed_restart_panics_witness:
  "\<exists>h2. State h2 = StateWaitAgree \<and>
     HandleAgree demo_lib [0x02, 0, 0, 0, 0, 0, 0] (h2, []) = ((h2, []), Panic ''nil pointer dereference'')"
proof -
  have "DeserializeHandshakeAgree ([0x02, 0, 0, 0, 0, 0, 0] @ []) =
      Ok \<lparr>agr_KEMPublicKey = [], agr_PeerCiphertext = [], agr_AlgorithmSuite = []\<rparr>"
    by (rule agree.des_ser)
       (simp_all add: agree_fits_def fits16_def HandshakeAgree_wire flag_defs field_def len16_def
         be16_def bytes_of_string_def)
  from failed_restart_panics [of "[0x02, 0, 0, 0, 0, 0, 0]", OF this [simplified append_Nil2],
      of demo_lib "[1]" "[]"]
  show ?thesis by blast
qed

end
