(* ===== verification/Fragment.thy ===== *)
theory Fragment
  imports Messages "HOL-Library.Multiset"
begin

text \<open>
  \<open>pkg/protocol/fragment.go\<close>: the fragment header, the \<open>Transport\<close> interface, sending a
  message in fragments and reassembling it.

  A \<open>Transport\<close> is a pair of methods over a connection state. What the protocol may expect
  of one is the locale \<open>transport\<close>; the connections of \<open>pkg/transport\<close> interpret it.
  A \<open>Recv\<close> that waits for ever is \<open>None\<close>. The receive loop has no bound in the code, so it is a
  \<open>partial_function\<close>, and theorems say when it returns and when not. The clock, the message
  identifiers and the iteration order of Go maps are arguments.
\<close>

section \<open>The fragment header\<close>

record FragmentHeader =
  fh_Flag :: MessageFlag
  fh_Index :: u16
  fh_Total :: u16
  fh_MsgLen :: u32
  fh_MsgID :: u32

text \<open>A buffer of 13 zero bytes, filled field by field.\<close>

definition MarshalBinary :: "FragmentHeader \<Rightarrow> bytes res" where
  "MarshalBinary h =
    (let buf = make_buf 13 13
     in go_bind (buf_put buf 0 1 [fh_Flag h]) (\<lambda>buf.
        go_bind (buf_put buf 1 3 (be16 (fh_Index h))) (\<lambda>buf.
        go_bind (buf_put buf 3 5 (be16 (fh_Total h))) (\<lambda>buf.
        go_bind (buf_put buf 5 9 (be32 (fh_MsgLen h))) (\<lambda>buf.
        go_bind (buf_put buf 9 13 (be32 (fh_MsgID h))) (\<lambda>buf.
        Ok (buf_bytes buf)))))))"

definition UnmarshalBinary :: "bytes \<Rightarrow> FragmentHeader res" where
  "UnmarshalBinary data =
     (if length data < 13 then Err (ErrMsg ''invalid fragment header size'')
      else go_bind (go_index data 0) (\<lambda>flag.
           go_bind (go_bind (go_slice data 1 3) Uint16) (\<lambda>index.
           go_bind (go_bind (go_slice data 3 5) Uint16) (\<lambda>tot.
           go_bind (go_bind (go_slice data 5 9) Uint32) (\<lambda>msgLen.
           go_bind (go_bind (go_slice data 9 13) Uint32) (\<lambda>msgID.
           Ok \<lparr>fh_Flag = flag, fh_Index = index, fh_Total = tot, fh_MsgLen = msgLen,
               fh_MsgID = msgID\<rparr>))))))"

definition header_bytes :: "FragmentHeader \<Rightarrow> bytes" where
  "header_bytes h = fh_Flag h # be16 (fh_Index h) @ be16 (fh_Total h) @ be32 (fh_MsgLen h) @
     be32 (fh_MsgID h)"

section \<open>Transport\<close>

text \<open>A \<open>Recv\<close> that waits for ever is \<open>None\<close>.\<close>

record 't Transport =
  tr_Send :: "bytes \<Rightarrow> ('t, unit) st"
  tr_Recv :: "'t \<Rightarrow> ('t \<times> bytes res) option"

section \<open>Sending\<close>

text \<open>\<open>for i := uint16(0); i < total; i++\<close> runs through these values.\<close>

definition u16_range :: "u16 \<Rightarrow> u16 list" where
  "u16_range tot = map of_nat [0..<unat tot]"

fun send_loop :: "'t Transport \<Rightarrow> bytes \<Rightarrow> MessageFlag \<Rightarrow> int \<Rightarrow> u16 \<Rightarrow> u32 \<Rightarrow> u16 list \<Rightarrow> ('t, unit) st"
  where
  "send_loop tr data flag maxFragmentSize tot msgID [] = st_lift (Ok ())"
| "send_loop tr data flag maxFragmentSize tot msgID (i # is) =
    (let offset = int (unat i) * maxFragmentSize;
         stop = offset + maxFragmentSize;
         stop = (if stop > int (length data) then int (length data) else stop)
     in st_bind (st_lift (go_slice data (nat offset) (nat stop))) (\<lambda>chunk.
        let header = \<lparr>fh_Flag = flag, fh_Index = i, fh_Total = tot,
              fh_MsgLen = of_nat (length data), fh_MsgID = msgID\<rparr>
        in st_bind (st_lift (MarshalBinary header)) (\<lambda>hb.
           st_bind (tr_Send tr (hb @ chunk)) (\<lambda>_.
           send_loop tr data flag maxFragmentSize tot msgID is))))"

text \<open>\<open>rnd\<close> is what \<open>rand.Uint32()\<close> returns and \<open>nano\<close> what \<open>time.Now().UnixNano()\<close> does.\<close>

definition SendFragmented ::
  "'t Transport \<Rightarrow> bytes \<Rightarrow> MessageFlag \<Rightarrow> int \<Rightarrow> u32 \<Rightarrow> int \<Rightarrow> ('t, unit) st" where
  "SendFragmented tr data flag maxFragmentSize rnd nano =
     (if maxFragmentSize < 100 then st_lift (Err (ErrMsg ''max fragment size too small''))
      else let msgID = rnd;
               msgID = (if msgID = 0 then word_of_int nano else msgID)
      in if int (length data) \<le> maxFragmentSize
         then let header = \<lparr>fh_Flag = flag, fh_Index = 0, fh_Total = 1,
                    fh_MsgLen = of_nat (length data), fh_MsgID = msgID\<rparr>
              in st_bind (st_lift (MarshalBinary header)) (\<lambda>hb. tr_Send tr (hb @ data))
         else let tot = word_of_int ((int (length data) + maxFragmentSize - 1) div maxFragmentSize)
              in send_loop tr data flag maxFragmentSize tot msgID (u16_range tot))"

section \<open>Reassembly\<close>

record FragmentBuffer =
  fragments :: "(u32 \<times> (u16 \<times> bytes) list) list"
  fb_timeout :: int
  lastClean :: int

definition NewFragmentBuffer :: "int \<Rightarrow> int \<Rightarrow> FragmentBuffer" where
  "NewFragmentBuffer tmo now = \<lparr>fragments = [], fb_timeout = tmo, lastClean = now\<rparr>"

text \<open>
  What one pass through the loop reads from outside: the clock, twice, and the order in
  which \<open>range\<close> enumerates the keys of \<open>fb.fragments\<close> if a cleanup runs.
\<close>

record recv_env =
  env_since :: int
  env_now :: int
  env_order :: "u32 list"

fun cleanup_loop :: "u32 list \<Rightarrow> (u32 \<times> 'v) list \<Rightarrow> (u32 \<times> 'v) list" where
  "cleanup_loop [] frs = frs"
| "cleanup_loop (msgID # ids) frs =
    (let frs = AList.delete msgID frs
     in if length frs < 50 then frs else cleanup_loop ids frs)"

definition cleanup :: "u32 list \<Rightarrow> FragmentBuffer \<Rightarrow> FragmentBuffer" where
  "cleanup order fb =
     (if length (fragments fb) > 100 then fb\<lparr>fragments := cleanup_loop order (fragments fb)\<rparr>
      else fb)"

text \<open>
  \<open>fb.fragments[msgID][index] = payload\<close>. The inner map of a missing entry is nil; writing to a
  nil map panics, while reading it or taking its length is allowed.
\<close>

definition put_frag ::
  "u32 \<Rightarrow> u16 \<Rightarrow> bytes \<Rightarrow> (u32 \<times> (u16 \<times> bytes) list) list \<Rightarrow> (u32 \<times> (u16 \<times> bytes) list) list res" where
  "put_frag msgID index payload frs = (case map_of frs msgID of
      None \<Rightarrow> Panic ''assignment to entry in nil map''
    | Some m \<Rightarrow> Ok (AList.update msgID (AList.update index payload m) frs))"


definition get_frags :: "(u32 \<times> (u16 \<times> bytes) list) list \<Rightarrow> u32 \<Rightarrow> (u16 \<times> bytes) list" where
  "get_frags frs msgID = (case map_of frs msgID of None \<Rightarrow> [] | Some m \<Rightarrow> m)"

fun reassemble :: "(u16 \<times> bytes) list \<Rightarrow> u16 list \<Rightarrow> bytes \<Rightarrow> bytes" where
  "reassemble m [] result = result"
| "reassemble m (i # is) result =
     reassemble m is (result @ (case map_of m i of None \<Rightarrow> [] | Some p \<Rightarrow> p))"

text \<open>The body of the loop after \<open>Recv\<close>; \<open>None\<close> is going round again.\<close>

definition handle_packet ::
  "recv_env \<Rightarrow> bytes \<Rightarrow> FragmentBuffer \<Rightarrow> FragmentBuffer \<times> (MessageFlag \<times> bytes) res option" where
  "handle_packet env packet fb =
     (if length packet < 13
      then (fb, Some (Err (ErrMsg ''packet too short for fragment header'')))
      else case go_bind (go_slice packet 0 13) UnmarshalBinary of
        Err e \<Rightarrow> (fb, Some (Err e))
      | Panic p \<Rightarrow> (fb, Some (Panic p))
      | Ok header \<Rightarrow>
         (let payload = drop 13 packet
          in if fh_Total header = 1 then (fb, Some (Ok (fh_Flag header, payload)))
          else
            let fb = (if env_since env - lastClean fb > fb_timeout fb
                  then (cleanup (env_order env) fb)\<lparr>lastClean := env_now env\<rparr> else fb);
                frs = (if fh_MsgID header \<notin> keys (fragments fb)
                  then AList.update (fh_MsgID header) [] (fragments fb) else fragments fb)
            in case put_frag (fh_MsgID header) (fh_Index header) payload frs of
              Err e \<Rightarrow> (fb\<lparr>fragments := frs\<rparr>, Some (Err e))
            | Panic p \<Rightarrow> (fb\<lparr>fragments := frs\<rparr>, Some (Panic p))
            | Ok frs \<Rightarrow>
               (let m = get_frags frs (fh_MsgID header)
                in if (of_nat (length m) :: u16) = fh_Total header
                   then (fb\<lparr>fragments := AList.delete (fh_MsgID header) frs\<rparr>,
                         Some (Ok (fh_Flag header, reassemble m (u16_range (fh_Total header)) [])))
                   else (fb\<lparr>fragments := frs\<rparr>, None))))"

text \<open>The \<open>k\<close>-th pass of a call reads \<open>env k\<close>. \<open>None\<close> is a call that never returns.\<close>

partial_function (option) ReceiveFragmented ::
  "'t Transport \<Rightarrow> (nat \<Rightarrow> recv_env) \<Rightarrow> nat \<Rightarrow> FragmentBuffer \<Rightarrow> 't \<Rightarrow>
     ('t \<times> FragmentBuffer \<times> (MessageFlag \<times> bytes) res) option" where
  "ReceiveFragmented tr env k fb t =
    (case tr_Recv tr t of None \<Rightarrow> None
    | Some (t', r) \<Rightarrow>
      (case r of
        Err e \<Rightarrow> Some (t', fb, Err e)
      | Panic p \<Rightarrow> Some (t', fb, Panic p)
      | Ok packet \<Rightarrow>
         (case handle_packet (env k) packet fb of (fb', out) \<Rightarrow>
           (case out of
             Some res \<Rightarrow> Some (t', fb', res)
           | None \<Rightarrow> ReceiveFragmented tr env (Suc k) fb' t'))))"

section \<open>The header codec\<close>

lemma MarshalBinary_eq: "MarshalBinary h = Ok (header_bytes h)"
  by (simp add: MarshalBinary_def buf_put_def make_buf_def buf_bytes_def header_bytes_def
      be16_def be32_def numeral_eq_Suc)

lemma length_header_bytes [simp, wire_simps]: "length (header_bytes h) = 13"
  by (simp add: header_bytes_def)

lemma UnmarshalBinary_header [simp]: "UnmarshalBinary (header_bytes h @ rest) = Ok h"
proof -
  have slices: "go_slice (header_bytes h @ rest) 1 3 = Ok (be16 (fh_Index h))"
    "go_slice (header_bytes h @ rest) 3 5 = Ok (be16 (fh_Total h))"
    "go_slice (header_bytes h @ rest) 5 9 = Ok (be32 (fh_MsgLen h))"
    "go_slice (header_bytes h @ rest) 9 13 = Ok (be32 (fh_MsgID h))"
    by (simp_all add: header_bytes_def go_slice_def be16_def be32_def numeral_eq_Suc)
  have ints: "Uint16 (be16 v) = Ok v" "Uint32 (be32 w) = Ok w" for v w
    using Uint16_be16 [of v "[]"] Uint32_be32 [of w "[]"] by simp_all
  show ?thesis
    unfolding UnmarshalBinary_def slices go_bind.simps ints
    by (simp add: go_index_def header_bytes_def)
qed

lemma UnmarshalBinary_inv:
  assumes "UnmarshalBinary data = Ok h"
  shows "data = header_bytes h @ drop 13 data"
proof -
  from assms have len: "13 \<le> length data"
    and flag: "data ! 0 = fh_Flag h"
    and ix: "Uint16 (take 2 (drop 1 data)) = Ok (fh_Index h)"
    and tot: "Uint16 (take 2 (drop 3 data)) = Ok (fh_Total h)"
    and ml: "Uint32 (take 4 (drop 5 data)) = Ok (fh_MsgLen h)"
    and mi: "Uint32 (take 4 (drop 9 data)) = Ok (fh_MsgID h)"
    by (auto simp: UnmarshalBinary_def res_iff not_less go_index_def split: if_splits)
  have "header_bytes h = data ! 0 # take 2 (drop 1 data) @ take 2 (drop 3 data) @
      take 4 (drop 5 data) @ take 4 (drop 9 data)"
    using be16_Uint16 [OF ix] be16_Uint16 [OF tot] be32_Uint32 [OF ml] be32_Uint32 [OF mi] flag
    by (simp add: header_bytes_def)
  also have "\<dots> = take 13 data"
    using len by (auto simp: numeral_eq_Suc Suc_le_length_iff)
  finally show ?thesis by simp
qed

lemma UnmarshalBinary_total:
  assumes "13 \<le> length data"
  obtains h where "UnmarshalBinary data = Ok h"
proof -
  obtain i where "Uint16 (take 2 (drop 1 data)) = Ok i"
    using Uint16_total [of "take 2 (drop 1 data)"] assms by auto
  moreover obtain n where "Uint16 (take 2 (drop 3 data)) = Ok n"
    using Uint16_total [of "take 2 (drop 3 data)"] assms by auto
  moreover obtain l where "Uint32 (take 4 (drop 5 data)) = Ok l"
    using Uint32_total [of "take 4 (drop 5 data)"] assms by auto
  moreover obtain m where "Uint32 (take 4 (drop 9 data)) = Ok m"
    using Uint32_total [of "take 4 (drop 9 data)"] assms by auto
  ultimately show thesis
    using assms that by (cases data) (simp_all add: UnmarshalBinary_def go_index_def)
qed

interpretation header: codec MarshalBinary UnmarshalBinary "\<lambda>_. True"
proof unfold_locales
  fix data show "\<not> is_panic (UnmarshalBinary data)"
  proof (cases "length data < 13")
    case True
    then show ?thesis by (simp add: UnmarshalBinary_def)
  next
    case False
    then obtain h where "UnmarshalBinary data = Ok h"
      using UnmarshalBinary_total [of data] by auto
    then show ?thesis by simp
  qed
next
  fix data m assume "UnmarshalBinary data = Ok m"
  then show "True \<and> (\<exists>bs rest. MarshalBinary m = Ok bs \<and> data = bs @ rest)"
    using UnmarshalBinary_inv [of data m] by (auto simp: MarshalBinary_eq)
qed (auto simp: MarshalBinary_eq)

section \<open>The fragments of a message\<close>

text \<open>
  The abstract description of what is on the wire: \<open>fragment_count\<close> packets, the \<open>i\<close>-th
  with the \<open>i\<close>-th chunk of the data behind a header that carries \<open>i\<close>, the count, the length
  and the identifier.
\<close>

definition chunk :: "bytes \<Rightarrow> nat \<Rightarrow> nat \<Rightarrow> bytes" where
  "chunk data m i = take m (drop (i * m) data)"

definition fragment_count :: "bytes \<Rightarrow> nat \<Rightarrow> nat" where
  "fragment_count data m = (if length data \<le> m then 1 else (length data + m - 1) div m)"

definition frag_packet :: "MessageFlag \<Rightarrow> u16 \<Rightarrow> u32 \<Rightarrow> bytes \<Rightarrow> nat \<Rightarrow> u16 \<Rightarrow> bytes" where
  "frag_packet flag tot msgID data m i =
     header_bytes \<lparr>fh_Flag = flag, fh_Index = i, fh_Total = tot,
       fh_MsgLen = of_nat (length data), fh_MsgID = msgID\<rparr> @ chunk data m (unat i)"

definition message_packets :: "MessageFlag \<Rightarrow> u32 \<Rightarrow> bytes \<Rightarrow> nat \<Rightarrow> bytes list" where
  "message_packets flag msgID data m =
     (let tot = of_nat (fragment_count data m)
      in map (frag_packet flag tot msgID data m) (u16_range tot))"

lemma length_u16_range [simp]: "length (u16_range w) = unat w"
  by (simp add: u16_range_def)

lemma nth_u16_range [simp]: "k < unat w \<Longrightarrow> u16_range w ! k = of_nat k"
  by (simp add: u16_range_def)

lemma set_u16_range: "set (u16_range w) = {i. i < w}"
proof -
  have "i \<in> of_nat ` {0..<unat w} \<longleftrightarrow> i < w" for i :: u16
  proof
    assume "i \<in> of_nat ` {0..<unat w}"
    then obtain k where k: "i = of_nat k" "k < unat w" by auto
    then have "k < 2 ^ 16" using unsigned_less [of w, where ?'a = nat] by simp
    with k show "i < w" by (simp add: word_less_nat_alt unat_of_nat take_bit_nat_eq_self)
  next
    assume "i < w"
    then have "unat i \<in> {0..<unat w}" by (simp add: word_less_nat_alt)
    then show "i \<in> of_nat ` {0..<unat w}" by (intro image_eqI [of _ _ "unat i"]) simp_all
  qed
  then show ?thesis by (auto simp: u16_range_def)
qed

lemma map_unat_u16_range: "map unat (u16_range w) = [0..<unat w]"
proof (rule nth_equalityI)
  fix k assume "k < length (map unat (u16_range w))"
  then have k: "k < unat w" by simp
  then have "k < 2 ^ 16" using unsigned_less [of w, where ?'a = nat] by simp
  then show "map unat (u16_range w) ! k = [0..<unat w] ! k"
    using k by (simp add: unat_of_nat take_bit_nat_eq_self)
qed simp

lemma distinct_u16_range [simp]: "distinct (u16_range w)"
  by (metis distinct_map distinct_upt map_unat_u16_range)

lemma card_u16_below: "card {i :: u16. i < w} = unat w"
  by (metis distinct_card distinct_u16_range length_u16_range set_u16_range)

lemma concat_chunks: "concat (map (chunk data m) [0..<n]) = take (n * m) data"
  by (induction n) (simp_all add: chunk_def add.commute flip: take_add)

lemma concat_chunks_u16:
  "length data \<le> unat w * m \<Longrightarrow> concat (map (\<lambda>i. chunk data m (unat i)) (u16_range w)) = data"
  using concat_chunks [of data m "unat w"] map_unat_u16_range [of w]
  by (metis (no_types, lifting) comp_apply map_eq_conv map_map take_all)

lemma fragment_count_pos: "0 < m \<Longrightarrow> 0 < fragment_count data m"
  by (auto simp: fragment_count_def div_greater_zero_iff)

lemma fragment_count_covers: "0 < m \<Longrightarrow> length data \<le> fragment_count data m * m"
proof -
  assume m: "0 < m"
  show ?thesis
  proof (cases "length data \<le> m")
    case False
    have "length data + m - 1 = (length data + m - 1) div m * m + (length data + m - 1) mod m"
      by simp
    moreover have "(length data + m - 1) mod m < m" using m by simp
    ultimately have "length data \<le> (length data + m - 1) div m * m"
      using m by linarith
    then show ?thesis using False by (simp add: fragment_count_def)
  qed (simp add: fragment_count_def)
qed

lemma chunk_in_range: "i < fragment_count data m \<Longrightarrow> m < length data \<Longrightarrow> i * m < length data"
proof -
  assume i: "i < fragment_count data m" and m: "m < length data"
  then have "0 < m" "Suc i \<le> (length data + m - 1) div m"
    by (cases m; simp add: fragment_count_def split: if_splits)+
  then have "Suc i * m \<le> length data + m - 1"
    by (simp only: less_eq_div_iff_mult_less_eq)
  then show "i * m < length data" using \<open>0 < m\<close> by simp
qed

lemma chunk_slice:
  assumes "i * m < length data"
  shows "go_slice data (nat (int i * int m))
    (nat (if int i * int m + int m > int (length data) then int (length data)
       else int i * int m + int m)) = Ok (chunk data m i)"
proof -
  have "nat (int i * int m) = i * m"
    by (metis nat_int of_nat_mult)
  moreover have "int i * int m + int m = int (i * m + m)" by simp
  ultimately show ?thesis
    using assms by (auto simp: go_slice_def chunk_def simp del: of_nat_add of_nat_mult)
qed

section \<open>One packet at a time\<close>

lemma reassemble_concat:
  "reassemble m ix result =
     result @ concat (map (\<lambda>i. case map_of m i of None \<Rightarrow> [] | Some p \<Rightarrow> p) ix)"
  by (induction m ix result rule: reassemble.induct) simp_all

lemma get_frags_update [simp]:
  "get_frags (AList.update k v frs) j = (if j = k then v else get_frags frs j)"
  by (simp add: get_frags_def AList.update_conv')

lemma get_frags_none: "k \<notin> keys frs \<Longrightarrow> get_frags frs k = []"
  using map_of_eq_None_iff [of frs k] by (simp add: get_frags_def)

text \<open>With an inner map in place a fragment can be stored.\<close>

lemma put_frag_Ok [simp]:
  "msgID \<in> keys frs \<Longrightarrow>
    put_frag msgID i p frs = Ok (AList.update msgID (AList.update i p (get_frags frs msgID)) frs)"
  "put_frag msgID i p (AList.update msgID [] frs) = Ok (AList.update msgID [(i, p)] frs)"
  by (auto simp: put_frag_def get_frags_def AList.update_conv' AList.update_last map_of_eq_None_iff
      split: option.splits)

lemma cleanup_small [simp]: "length (fragments fb) \<le> 100 \<Longrightarrow> cleanup order fb = fb"
  by (simp add: cleanup_def)

definition next_clean :: "recv_env \<Rightarrow> FragmentBuffer \<Rightarrow> int" where
  "next_clean env fb =
     (if env_since env - lastClean fb > fb_timeout fb then env_now env else lastClean fb)"

text \<open>
  The body of the loop on a well-formed packet of a message with several fragments, while no
  more than 100 messages are in progress, so that a due cleanup drops nothing.
\<close>

lemma handle_packet_multi:
  assumes "fh_Total h \<noteq> 1" "length (fragments fb) \<le> 100"
  shows "handle_packet env (header_bytes h @ payload) fb =
    (let m = AList.update (fh_Index h) payload (get_frags (fragments fb) (fh_MsgID h))
     in if (of_nat (length m) :: u16) = fh_Total h
        then (fb\<lparr>fragments := AList.delete (fh_MsgID h) (fragments fb), lastClean := next_clean env fb\<rparr>,
              Some (Ok (fh_Flag h, reassemble m (u16_range (fh_Total h)) [])))
        else (fb\<lparr>fragments := AList.update (fh_MsgID h) m (fragments fb),
                 lastClean := next_clean env fb\<rparr>, None))"
proof -
  have "UnmarshalBinary (header_bytes h) = Ok h"
    using UnmarshalBinary_header [of h "[]"] by simp
  then show ?thesis
    using assms
    by (simp add: handle_packet_def Let_def next_clean_def AList.update_last
        AList.delete_update_same get_frags_none)
qed

lemma handle_packet_single:
  assumes "fh_Total h = 1"
  shows "handle_packet env (header_bytes h @ payload) fb = (fb, Some (Ok (fh_Flag h, payload)))"
proof -
  have "UnmarshalBinary (header_bytes h) = Ok h"
    using UnmarshalBinary_header [of h "[]"] by simp
  then show ?thesis using assms by (simp add: handle_packet_def)
qed

text \<open>
  The state of a reassembly: the buffer holds what it held before (\<open>fr0\<close>) and, once the first
  fragment is in, an entry with exactly the chunks whose index is in \<open>S\<close>.
\<close>

definition collecting ::
  "(u32 \<times> (u16 \<times> bytes) list) list \<Rightarrow> u32 \<Rightarrow> bytes \<Rightarrow> nat \<Rightarrow> u16 set \<Rightarrow> FragmentBuffer \<Rightarrow> bool" where
  "collecting fr0 msgID data m S fb \<longleftrightarrow> (\<exists>al. distinct (map fst al) \<and>
     fragments fb = (if S = {} then fr0 else AList.update msgID al fr0) \<and>
     (\<forall>i. map_of al i = (if i \<in> S then Some (chunk data m (unat i)) else None)))"

lemma collecting_start: "fragments fb = fr0 \<Longrightarrow> collecting fr0 msgID data m {} fb"
  by (auto simp: collecting_def intro!: exI [of _ "[]"])

lemma collecting_step:
  assumes coll: "collecting fr0 msgID data m S fb" and new: "msgID \<notin> keys fr0" "length fr0 < 100"
  obtains al where "distinct (map fst al)" "length al = card (insert i S)"
    "\<And>j. map_of al j = (if j \<in> insert i S then Some (chunk data m (unat j)) else None)"
    "tot \<noteq> 1 \<Longrightarrow> handle_packet env (frag_packet flag tot msgID data m i) fb =
      (if (of_nat (length al) :: u16) = tot
       then (fb\<lparr>fragments := fr0, lastClean := next_clean env fb\<rparr>,
             Some (Ok (flag, reassemble al (u16_range tot) [])))
       else (fb\<lparr>fragments := AList.update msgID al fr0, lastClean := next_clean env fb\<rparr>, None))"
proof -
  obtain al where al: "distinct (map fst al)"
    "fragments fb = (if S = {} then fr0 else AList.update msgID al fr0)"
    "\<And>j. map_of al j = (if j \<in> S then Some (chunk data m (unat j)) else None)"
    using coll unfolding collecting_def by blast
  have empty: "al = []" if "S = {}"
    using al(3) that by (cases al) (auto split: if_splits, metis map_of_Cons_code(2) option.distinct(1) surj_pair)
  have len: "length (fragments fb) \<le> 100"
    using new(2) al(2) by (simp add: length_update_alist)
  have get: "get_frags (fragments fb) msgID = al"
    using al(2) empty get_frags_none [OF new(1)] by simp
  let ?al = "AList.update i (chunk data m (unat i)) al"
  have del: "AList.delete msgID (fragments fb) = fr0"
    using al(2) new(1) by (simp add: AList.delete_update_same)
  have upd: "AList.update msgID v (fragments fb) = AList.update msgID v fr0" for v
    using al(2) by (simp add: AList.update_last)
  have "dom (map_of al) = S"
    using al(3) by (auto simp: dom_def split: if_splits)
  then have "keys ?al = insert i S"
    by (simp only: keys_update_alist dom_map_of_conv_image_fst)
  moreover have "distinct (map fst ?al)"
    by (simp add: al(1) AList.distinct_update)
  ultimately have "length ?al = card (insert i S)"
    by (simp add: length_alist_card)
  moreover have "map_of ?al j = (if j \<in> insert i S then Some (chunk data m (unat j)) else None)" for j
    using al(3) by (simp add: AList.update_conv')
  ultimately show thesis
    using \<open>distinct (map fst ?al)\<close> that
    by (simp add: frag_packet_def handle_packet_multi [OF _ len] get del upd Let_def)
qed

lemma collect_more:
  assumes "collecting fr0 msgID data m S fb" "msgID \<notin> keys fr0" "length fr0 < 100"
    and "tot \<noteq> 1" "insert i S \<subset> {j. j < tot}"
  obtains fb' where "handle_packet env (frag_packet flag tot msgID data m i) fb = (fb', None)"
    "collecting fr0 msgID data m (insert i S) fb'"
proof -
  obtain al where al: "distinct (map fst al)" "length al = card (insert i S)"
    "\<And>j. map_of al j = (if j \<in> insert i S then Some (chunk data m (unat j)) else None)"
    "handle_packet env (frag_packet flag tot msgID data m i) fb =
      (if (of_nat (length al) :: u16) = tot
       then (fb\<lparr>fragments := fr0, lastClean := next_clean env fb\<rparr>,
             Some (Ok (flag, reassemble al (u16_range tot) [])))
       else (fb\<lparr>fragments := AList.update msgID al fr0, lastClean := next_clean env fb\<rparr>, None))"
    using collecting_step [OF assms(1-3), of i tot env flag] assms(4) by metis
  have "card (insert i S) < unat tot"
    using psubset_card_mono [OF _ assms(5)] by (simp add: card_u16_below)
  moreover have "unat tot < 2 ^ 16"
    using unsigned_less [of tot, where ?'a = nat] by simp
  ultimately have "(of_nat (length al) :: u16) \<noteq> tot"
    using al(2) by (auto simp: unat_of_nat take_bit_nat_eq_self)
  then show thesis
    using al that by (auto simp: collecting_def)
qed

lemma collect_last:
  assumes "collecting fr0 msgID data m S fb" "msgID \<notin> keys fr0" "length fr0 < 100"
    and "tot \<noteq> 1" "insert i S = {j. j < tot}" "length data \<le> unat tot * m"
  obtains fb' where "handle_packet env (frag_packet flag tot msgID data m i) fb =
    (fb', Some (Ok (flag, data)))" "fragments fb' = fr0"
proof -
  obtain al where al: "length al = card (insert i S)"
    "\<And>j. map_of al j = (if j \<in> insert i S then Some (chunk data m (unat j)) else None)"
    "handle_packet env (frag_packet flag tot msgID data m i) fb =
      (if (of_nat (length al) :: u16) = tot
       then (fb\<lparr>fragments := fr0, lastClean := next_clean env fb\<rparr>,
             Some (Ok (flag, reassemble al (u16_range tot) [])))
       else (fb\<lparr>fragments := AList.update msgID al fr0, lastClean := next_clean env fb\<rparr>, None))"
    using collecting_step [OF assms(1-3), of i tot env flag] assms(4) by metis
  have "of_nat (length al) = tot"
    using al(1) assms(5) by (simp add: card_u16_below)
  moreover have "reassemble al (u16_range tot) [] =
      concat (map (\<lambda>j. chunk data m (unat j)) (u16_range tot))"
    using assms(5) al(2) by (auto simp: reassemble_concat set_u16_range intro!: arg_cong [of _ _ concat])
  ultimately show thesis
    using al(3) that by (simp add: concat_chunks_u16 [OF assms(6)])
qed

section \<open>A peer that never stops\<close>

text \<open>
  The loop has no bound of its own: a peer that repeats one fragment of a longer message for
  ever keeps it busy for ever.
\<close>

lemma ReceiveFragmented_endless:
  assumes endless: "\<And>t. P t \<Longrightarrow> \<exists>t'. tr_Recv tr t = Some (t', Ok (header_bytes h @ payload)) \<and> P t'"
    and tot: "fh_Total h \<noteq> 1"
    and start: "P t" "fragments fb = [] \<or> fragments fb = [(fh_MsgID h, [(fh_Index h, payload)])]"
  shows "ReceiveFragmented tr env k fb t = None"
proof -
  let ?I = "\<lambda>t fb. P t \<and> (fragments fb = [] \<or> fragments fb = [(fh_MsgID h, [(fh_Index h, payload)])])"
  have "tr = tr \<longrightarrow> \<not> ?I t fb" if returned: "ReceiveFragmented tr env k fb t = Some y" for y
  proof (rule ReceiveFragmented.raw_induct [where P = "\<lambda>tr' env k fb t y. tr' = tr \<longrightarrow> \<not> ?I t fb", OF _ returned])
    fix loop tr' env k fb t y
    assume IH: "\<And>tr' env k fb t y. loop tr' env k fb t = Some y \<Longrightarrow> tr' = tr \<longrightarrow> \<not> ?I t fb"
      and eq: "(case tr_Recv tr' t of None \<Rightarrow> None
        | Some (t', r) \<Rightarrow> (case r of Err e \<Rightarrow> Some (t', fb, Err e) | Panic p \<Rightarrow> Some (t', fb, Panic p)
          | Ok packet \<Rightarrow> (case handle_packet (env k) packet fb of (fb', out) \<Rightarrow>
              (case out of Some res \<Rightarrow> Some (t', fb', res) | None \<Rightarrow> loop tr' env (Suc k) fb' t')))) = Some y"
    show "tr' = tr \<longrightarrow> \<not> ?I t fb"
    proof (intro impI notI)
      assume "tr' = tr" and I: "?I t fb"
      then obtain t1 where t1: "tr_Recv tr t = Some (t1, Ok (header_bytes h @ payload))" "P t1"
        using endless by blast
      have "get_frags (fragments fb) (fh_MsgID h) \<in> {[], [(fh_Index h, payload)]}" "length (fragments fb) \<le> 100"
        using I by (auto simp: get_frags_def)
      then obtain fb1 where "handle_packet (env k) (header_bytes h @ payload) fb = (fb1, None)"
        and "fragments fb1 = [(fh_MsgID h, [(fh_Index h, payload)])]"
        using I tot [symmetric] by (auto simp: handle_packet_multi [OF tot] Let_def)
      with eq t1 IH [of tr env "Suc k" fb1 t1 y] \<open>tr' = tr\<close> show False by simp
    qed
  qed
  with start show ?thesis by (cases "ReceiveFragmented tr env k fb t") auto
qed

section \<open>The contract of a transport\<close>

text \<open>
  What the protocol needs of a connection: while it is up, a packet sent is appended to what
  the peer will see and packets arrive in the order in which they are pending; when nothing
  is pending, receiving ends in an error (the read deadline). Both views are ghost functions
  of the connection state.
\<close>

lemma mset_eq_map: "mset ys = mset (map f xs) \<Longrightarrow> \<exists>zs. mset zs = mset xs \<and> ys = map f zs"
proof (induction ys arbitrary: xs)
  case (Cons y ys)
  then have "y \<in> set (map f xs)" by (metis list.set_intros(1) mset_eq_setD)
  then obtain x where x: "x \<in> set xs" "y = f x" by auto
  have "image_mset f (mset xs) = add_mset (f x) (mset ys)"
    using Cons.prems x(2) by simp
  then have "mset ys = mset (map f (remove1 x xs))"
    using x(1) by (simp add: image_mset_Diff)
  from Cons.IH [OF this] obtain zs where zs: "mset zs = mset (remove1 x xs)" "ys = map f zs" by blast
  have "mset (x # zs) = mset xs" using x(1) unfolding mset.simps zs(1) by simp
  moreover have "y # ys = map f (x # zs)" unfolding x(2) zs(2) by simp
  ultimately show ?case by (intro exI [of _ "x # zs"] conjI)
qed simp

lemma length_message_packets:
  "fragment_count data m < 2 ^ 16 \<Longrightarrow> length (message_packets flag msgID data m) = fragment_count data m"
  by (simp add: message_packets_def Let_def unat_of_nat take_bit_nat_eq_self)

text \<open>A permutation of the packets of a message in several fragments, by its indices.\<close>

lemma message_packets_ids:
  assumes "mset ds = mset (message_packets flag msgID data m)" "0 < m"
    and "fragment_count data m < 2 ^ 16" "\<not> length data \<le> m"
  obtains ids where "ds = map (frag_packet flag (of_nat (fragment_count data m)) msgID data m) ids"
    "distinct ids" "set ids = {j. j < of_nat (fragment_count data m)}"
    "(of_nat (fragment_count data m) :: u16) \<noteq> 1"
    "length data \<le> unat (of_nat (fragment_count data m) :: u16) * m"
proof -
  let ?tot = "of_nat (fragment_count data m) :: u16"
  have unat: "unat ?tot = fragment_count data m"
    using assms(3) by (simp add: unat_of_nat take_bit_nat_eq_self)
  have cov: "length data \<le> unat ?tot * m"
    using fragment_count_covers [OF assms(2)] by (simp add: unat)
  have tot: "?tot \<noteq> 1"
  proof
    assume "?tot = 1"
    then have "unat ?tot = 1" by simp
    with cov assms(4) show False by simp
  qed
  obtain ids where ids: "mset ids = mset (u16_range ?tot)" "ds = map (frag_packet flag ?tot msgID data m) ids"
    using assms(1) mset_eq_map [of ds "frag_packet flag ?tot msgID data m" "u16_range ?tot"]
    by (auto simp: message_packets_def Let_def)
  have "distinct ids" "set ids = {j. j < ?tot}"
    using ids(1) distinct_u16_range [of ?tot] set_u16_range [of ?tot]
    by (metis mset_eq_imp_distinct_iff, metis mset_eq_setD)
  then show thesis using ids(2) tot cov by (intro that)
qed

text \<open>Such a sequence of packets cut in two, the last packet in the second part.\<close>

lemma message_packets_cut:
  assumes "mset (ds1 @ ds2) = mset (message_packets flag msgID data m)" "0 < m"
    and "fragment_count data m < 2 ^ 16" "\<not> length data \<le> m" "ds2 \<noteq> []"
  obtains tot ix iy j where "ds1 = map (frag_packet flag tot msgID data m) ix"
    "ds2 = map (frag_packet flag tot msgID data m) (iy @ [j])" "set ix \<subset> {j. j < tot}"
    "j \<notin> set ix \<union> set iy" "insert j (set ix \<union> set iy) = {j. j < tot}"
    "tot \<noteq> 1" "length data \<le> unat tot * m"
proof -
  let ?tot = "of_nat (fragment_count data m) :: u16"
  let ?pkt = "frag_packet flag (of_nat (fragment_count data m)) msgID data m"
  obtain ids where ids: "ds1 @ ds2 = map ?pkt ids" "distinct ids" "set ids = {j. j < ?tot}"
    and tot: "?tot \<noteq> 1" "length data \<le> unat ?tot * m"
    by (rule message_packets_ids [OF assms(1-4)])
  define ix where "ix = take (length ds1) ids"
  obtain iy j where iy: "drop (length ds1) ids = iy @ [j]"
    using ids(1) assms(5) by (metis append_butlast_last_id append_eq_conv_conj drop_map map_is_Nil_conv)
  have idx: "ids = ix @ iy @ [j]" by (simp add: ix_def iy [symmetric])
  have "ds1 = map ?pkt ix" "ds2 = map ?pkt (iy @ [j])"
    using ids(1) by (simp_all add: ix_def iy [symmetric] append_eq_conv_conj take_map drop_map)
  moreover have j: "j \<notin> set ix \<union> set iy" "insert j (set ix \<union> set iy) = {j. j < ?tot}"
    using ids(2,3) by (auto simp: idx)
  moreover have "set ix \<subset> {j. j < ?tot}" using j by auto
  ultimately show thesis using tot by (intro that)
qed

locale transport =
  fixes tr :: "'t Transport"
    and up :: "'t \<Rightarrow> bool"
    and sent :: "'t \<Rightarrow> bytes list"
    and pending :: "'t \<Rightarrow> bytes list"
  assumes send_up: "up t \<Longrightarrow> \<exists>t'. tr_Send tr p t = (t', Ok ()) \<and> up t' \<and>
        sent t' = sent t @ [p] \<and> pending t' = pending t"
    and recv_up: "up t \<Longrightarrow> pending t = p # ps \<Longrightarrow> \<exists>t'. tr_Recv tr t = Some (t', Ok p) \<and> up t' \<and>
        sent t' = sent t \<and> pending t' = ps"
    and recv_none: "up t \<Longrightarrow> pending t = [] \<Longrightarrow> \<exists>t' e. tr_Recv tr t = Some (t', Err e) \<and>
        sent t' = sent t"
begin

lemma send_loop_sends:
  assumes "up t" "100 \<le> m" "int m < int (length data)"
    and "\<forall>i \<in> set is. unat i < fragment_count data m"
  shows "\<exists>t'. send_loop tr data flag (int m) tot msgID is t = (t', Ok ()) \<and> up t' \<and>
    sent t' = sent t @ map (frag_packet flag tot msgID data m) is \<and> pending t' = pending t"
  using assms(1,4)
proof (induction "is" arbitrary: t)
  case Nil
  then show ?case by (auto simp: st_lift_def)
next
  case (Cons i ix)
  let ?p = "frag_packet flag tot msgID data m i"
  obtain t1 where t1: "tr_Send tr ?p t = (t1, Ok ())" "up t1" "sent t1 = sent t @ [?p]"
    "pending t1 = pending t"
    using send_up [OF Cons.prems(1)] by blast
  obtain t2 where t2: "send_loop tr data flag (int m) tot msgID ix t1 = (t2, Ok ())" "up t2"
    "sent t2 = sent t1 @ map (frag_packet flag tot msgID data m) ix" "pending t2 = pending t1"
    using Cons.IH [OF t1(2)] Cons.prems(2) by auto
  have below: "unat i * m < length data"
    using Cons.prems(2) assms(3) by (intro chunk_in_range) auto
  then have "send_loop tr data flag (int m) tot msgID (i # ix) t = (t2, Ok ())"
    using t1(1) t2(1) chunk_slice [OF below]
    by (simp add: MarshalBinary_eq frag_packet_def Let_def del: of_nat_unat of_nat_mult)
  then show ?case using t1 t2 by simp
qed

lemma SendFragmented_sends:
  assumes "up t" "100 \<le> m"
  shows "\<exists>t'. SendFragmented tr data flag (int m) rnd nano t = (t', Ok ()) \<and> up t' \<and>
    pending t' = pending t \<and>
    sent t' = sent t @ message_packets flag (if rnd = 0 then word_of_int nano else rnd) data m"
proof -
  define msgID where "msgID = (if rnd = 0 then word_of_int nano else rnd)"
  have "\<exists>t'. SendFragmented tr data flag (int m) rnd nano t = (t', Ok ()) \<and> up t' \<and>
    pending t' = pending t \<and> sent t' = sent t @ message_packets flag msgID data m"
  proof (cases "length data \<le> m")
    case True
    have range: "u16_range 1 = [0]" by (simp add: u16_range_def)
    have one: "message_packets flag msgID data m = [frag_packet flag 1 msgID data m 0]"
      using True by (simp add: message_packets_def fragment_count_def range)
    have "SendFragmented tr data flag (int m) rnd nano t =
        tr_Send tr (frag_packet flag 1 msgID data m 0) t"
      using assms(2) True
      by (simp add: SendFragmented_def MarshalBinary_eq frag_packet_def chunk_def msgID_def Let_def)
    then show ?thesis
      using send_up [OF assms(1), of "frag_packet flag 1 msgID data m 0"] by (auto simp: one)
  next
    case False
    let ?tot = "of_nat (fragment_count data m) :: u16"
    have "int (length data) + int m - 1 = int (length data + m - 1)"
      using assms(2) by (simp add: of_nat_diff)
    then have "(int (length data) + int m - 1) div int m = int (fragment_count data m)"
      using False by (simp only: fragment_count_def of_nat_div if_False)
    then have tot: "word_of_int ((int (length data) + int m - 1) div int m) = ?tot"
      by simp
    have "unat ?tot \<le> fragment_count data m"
      by (simp add: unat_of_nat take_bit_nat_less_eq_self)
    then have "\<forall>i \<in> set (u16_range ?tot). unat i < fragment_count data m"
      by (auto simp: set_u16_range word_less_nat_alt)
    from send_loop_sends [OF assms(1,2) _ this, of flag ?tot msgID] False
    obtain t' where "send_loop tr data flag (int m) ?tot msgID (u16_range ?tot) t = (t', Ok ())"
      "up t'" "sent t' = sent t @ message_packets flag msgID data m" "pending t' = pending t"
      by (auto simp: message_packets_def Let_def)
    then show ?thesis
      using False assms(2)
      by (intro exI [of _ t']) (simp add: SendFragmented_def Let_def tot msgID_def [symmetric])
  qed
  then show ?thesis by (simp add: msgID_def)
qed

text \<open>A call of the receive loop always comes back: the pending packets run out.\<close>

lemma ReceiveFragmented_returns:
  "up t \<Longrightarrow> \<exists>t' fb' r. ReceiveFragmented tr env k fb t = Some (t', fb', r)"
proof (induction "pending t" arbitrary: t k fb)
  case Nil
  then show ?case
    using recv_none [of t] by (force simp: ReceiveFragmented.simps [of tr env k fb t])
next
  case (Cons p ps)
  obtain t1 where t1: "tr_Recv tr t = Some (t1, Ok p)" "up t1" "pending t1 = ps"
    using recv_up [OF Cons.prems] Cons.hyps(2) by metis
  obtain fb1 out where h: "handle_packet (env k) p fb = (fb1, out)"
    by (cases "handle_packet (env k) p fb")
  show ?case
    using Cons.hyps(1) [of t1 "Suc k" fb1] t1 h
    by (cases out) (auto simp: ReceiveFragmented.simps [of tr env k fb t])
qed

text \<open>Receiving fragments of one message, in any order and with repetitions.\<close>

lemma receive_prefix:
  assumes "up t" "pending t = map (frag_packet flag tot msgID data m) ix @ ps"
    and "collecting fr0 msgID data m S fb" "msgID \<notin> keys fr0" "length fr0 < 100"
    and "tot \<noteq> 1" "S \<union> set ix \<subset> {j. j < tot}"
  shows "\<exists>t' fb'. ReceiveFragmented tr env k fb t = ReceiveFragmented tr env (k + length ix) fb' t'
    \<and> up t' \<and> pending t' = ps \<and> sent t' = sent t \<and> collecting fr0 msgID data m (S \<union> set ix) fb'"
  using assms(1-3,7)
proof (induction ix arbitrary: t S fb k)
  case Nil
  then show ?case by auto
next
  case (Cons i ix)
  obtain t1 where t1: "tr_Recv tr t = Some (t1, Ok (frag_packet flag tot msgID data m i))" "up t1"
    "pending t1 = map (frag_packet flag tot msgID data m) ix @ ps" "sent t1 = sent t"
    using recv_up [OF Cons.prems(1)] Cons.prems(2) by auto
  have "insert i S \<subset> {j. j < tot}" using Cons.prems(4) by auto
  then obtain fb1 where fb1:
    "handle_packet (env k) (frag_packet flag tot msgID data m i) fb = (fb1, None)"
    "collecting fr0 msgID data m (insert i S) fb1"
    using collect_more [OF Cons.prems(3) assms(4,5,6)] by metis
  have "insert i S \<union> set ix \<subset> {j. j < tot}" using Cons.prems(4) by auto
  from Cons.IH [OF t1(2,3) fb1(2) this, of "Suc k"] show ?case
    using t1 fb1(1) by (auto simp: ReceiveFragmented.simps [of tr env k fb t])
qed

lemma receive_rest:
  assumes "up t" "pending t = map (frag_packet flag tot msgID data m) (ix @ [j]) @ ps"
    and "collecting fr0 msgID data m S fb" "msgID \<notin> keys fr0" "length fr0 < 100"
    and "tot \<noteq> 1" "j \<notin> S \<union> set ix" "insert j (S \<union> set ix) = {j. j < tot}" "length data \<le> unat tot * m"
  shows "\<exists>t' fb'. ReceiveFragmented tr env k fb t = Some (t', fb', Ok (flag, data))
    \<and> up t' \<and> pending t' = ps \<and> sent t' = sent t \<and> fragments fb' = fr0"
proof -
  have psub: "S \<union> set ix \<subset> {j. j < tot}" using assms(7,8) by auto
  obtain t1 fb1 where 1: "ReceiveFragmented tr env k fb t =
      ReceiveFragmented tr env (k + length ix) fb1 t1" "up t1"
    "pending t1 = frag_packet flag tot msgID data m j # ps" "sent t1 = sent t"
    "collecting fr0 msgID data m (S \<union> set ix) fb1"
    using receive_prefix [OF assms(1) _ assms(3-6) psub,
        where flag = flag and k = k and env = env
        and ps = "frag_packet flag tot msgID data m j # ps"] assms(2) by auto
  obtain t2 where t2: "tr_Recv tr t1 = Some (t2, Ok (frag_packet flag tot msgID data m j))" "up t2"
    "pending t2 = ps" "sent t2 = sent t1"
    using recv_up [OF 1(2,3)] by auto
  obtain fb2 where "handle_packet (env (k + length ix)) (frag_packet flag tot msgID data m j) fb1 =
      (fb2, Some (Ok (flag, data)))" "fragments fb2 = fr0"
    using collect_last [OF 1(5) assms(4,5,6) assms(8,9)] by metis
  then show ?thesis
    using 1 t2 by (auto simp: ReceiveFragmented.simps [of tr env _ fb1 t1])
qed

text \<open>When the fragments stop too early the call fails, and the buffer keeps what has arrived.\<close>

lemma receive_incomplete:
  assumes "up t" "pending t = map (frag_packet flag tot msgID data m) ix"
    and "collecting fr0 msgID data m S fb" "msgID \<notin> keys fr0" "length fr0 < 100"
    and "tot \<noteq> 1" "S \<union> set ix \<subset> {j. j < tot}"
  shows "\<exists>t' fb' e. ReceiveFragmented tr env k fb t = Some (t', fb', Err e)
    \<and> sent t' = sent t \<and> collecting fr0 msgID data m (S \<union> set ix) fb'"
proof -
  obtain t1 fb1 where 1: "ReceiveFragmented tr env k fb t =
      ReceiveFragmented tr env (k + length ix) fb1 t1" "up t1" "pending t1 = []" "sent t1 = sent t"
    "collecting fr0 msgID data m (S \<union> set ix) fb1"
    using receive_prefix [OF assms(1) _ assms(3-7), where flag = flag and k = k and env = env
        and ps = "[]"] assms(2) by auto
  from recv_none [OF 1(2,3)] show ?thesis
    using 1 by (auto simp: ReceiveFragmented.simps [of tr env _ fb1 t1])
qed

lemma receive_single:
  assumes "up t" "pending t = frag_packet flag 1 msgID data m 0 # ps" "length data \<le> m"
  shows "\<exists>t'. ReceiveFragmented tr env k fb t = Some (t', fb, Ok (flag, data))
    \<and> up t' \<and> pending t' = ps \<and> sent t' = sent t"
proof -
  obtain t' where "tr_Recv tr t = Some (t', Ok (frag_packet flag 1 msgID data m 0))" "up t'"
    "pending t' = ps" "sent t' = sent t"
    using recv_up [OF assms(1,2)] by auto
  moreover have "handle_packet (env k) (frag_packet flag 1 msgID data m 0) fb =
      (fb, Some (Ok (flag, data)))"
    using assms(3) by (simp add: frag_packet_def handle_packet_single chunk_def)
  ultimately show ?thesis
    by (auto simp: ReceiveFragmented.simps [of tr env k fb t])
qed

text \<open>What one side sends with \<open>SendFragmented\<close> the other receives, in whatever order it arrives.\<close>

lemma receive_message_packets:
  assumes "up t" "pending t = ds @ ps" "mset ds = mset (message_packets flag msgID data m)" "0 < m"
    and "fragment_count data m < 2 ^ 16" "msgID \<notin> keys (fragments fb)" "length (fragments fb) < 100"
  shows "\<exists>t' fb'. ReceiveFragmented tr env k fb t = Some (t', fb', Ok (flag, data))
    \<and> up t' \<and> pending t' = ps \<and> sent t' = sent t \<and> fragments fb' = fragments fb"
proof (cases "length data \<le> m")
  case True
  have "u16_range 1 = [0]" by (simp add: u16_range_def)
  then have "message_packets flag msgID data m = [frag_packet flag 1 msgID data m 0]"
    using True by (simp add: message_packets_def fragment_count_def)
  then have "ds = [frag_packet flag 1 msgID data m 0]" using assms(3) by simp
  then show ?thesis
    using receive_single [OF assms(1) _ True, where flag = flag and msgID = msgID and ps = ps
        and env = env and k = k and fb = fb] assms(2) by auto
next
  case False
  let ?tot = "of_nat (fragment_count data m) :: u16"
  obtain ids where ids: "ds = map (frag_packet flag ?tot msgID data m) ids" "distinct ids"
    "set ids = {j. j < ?tot}" and tot: "?tot \<noteq> 1" "length data \<le> unat ?tot * m"
    by (rule message_packets_ids [OF assms(3,4,5) False])
  have "ids \<noteq> []" using False tot(2) ids(3) by (metis (mono_tags) empty_iff empty_set
      le_zero_eq mem_Collect_eq mult_0 unat_0 word_gt_0 linorder_le_cases)
  then obtain ix j where ix: "ids = ix @ [j]"
    by (metis append_butlast_last_id)
  have "j \<notin> {} \<union> set ix" "insert j ({} \<union> set ix) = {j. j < ?tot}"
    using ids(2,3) by (auto simp: ix)
  then show ?thesis
    using receive_rest [OF assms(1) _ collecting_start [OF refl] assms(6,7) tot(1) _ _ tot(2),
        where ix = ix and j = j and flag = flag and ps = ps and k = k and env = env] assms(2)
    by (simp add: ids(1) ix)
qed

end

section \<open>The buffer as a data structure\<close>

text \<open>
  Well-formedness: one entry per message, one payload per index, and no empty entries (a
  Go map never has the first two wrong; the model's lists have to keep them).
\<close>

definition fb_wf :: "FragmentBuffer \<Rightarrow> bool" where
  "fb_wf fb \<longleftrightarrow> distinct (map fst (fragments fb)) \<and>
     (\<forall>(msgID, m) \<in> set (fragments fb). distinct (map fst m) \<and> m \<noteq> [])"

lemma set_delete_subset: "set (AList.delete k m) \<subseteq> set m"
  by (induction m) auto

lemma cleanup_loop_subset: "set (cleanup_loop order frs) \<subseteq> set frs"
proof (induction order frs rule: cleanup_loop.induct)
  case (2 msgID ids frs)
  then show ?case
    using set_delete_subset [of msgID frs] by (simp add: Let_def) (meson subset_trans)
qed simp

lemma cleanup_loop_distinct:
  "distinct (map fst frs) \<Longrightarrow> distinct (map fst (cleanup_loop order frs))"
  by (induction order frs rule: cleanup_loop.induct) (auto simp: Let_def AList.distinct_delete)

lemma cleanup_loop_length: "length (cleanup_loop order frs) \<le> length frs"
proof (induction order frs rule: cleanup_loop.induct)
  case (2 msgID ids frs)
  then show ?case
    using AList.length_delete_le [of msgID frs] by (auto simp: Let_def intro: le_trans)
qed simp

text \<open>Deleting the keys one after the other stops as soon as 49 are left.\<close>

lemma cleanup_loop_49:
  assumes "distinct (map fst frs)" "distinct order" "set order \<subseteq> keys frs" "50 \<le> length frs"
    "length frs \<le> length order + 49"
  shows "length (cleanup_loop order frs) = 49"
  using assms
proof (induction order frs rule: cleanup_loop.induct)
  case (2 msgID ids frs)
  let ?d = "AList.delete msgID frs"
  have d: "length ?d = length frs - 1" "distinct (map fst ?d)" "keys ?d = keys frs - {msgID}"
    using "2.prems" by (auto simp: length_delete_alist AList.distinct_delete keys_delete_alist)
  show ?case
  proof (cases "length ?d < 50")
    case True
    then show ?thesis using d(1) "2.prems"(4) by simp
  next
    case False
    then have "length (cleanup_loop ids ?d) = 49"
      using "2.prems" d by (intro "2.IH") auto
    then show ?thesis using False by (simp add: Let_def)
  qed
qed simp

lemma fb_wf_subset:
  assumes "fb_wf fb" "set frs \<subseteq> set (fragments fb)" "distinct (map fst frs)"
  shows "fb_wf (fb\<lparr>fragments := frs\<rparr>)"
  using assms by (auto simp: fb_wf_def)

lemma fb_wf_cleanup: "fb_wf fb \<Longrightarrow> fb_wf (cleanup order fb)"
  using cleanup_loop_subset [of order "fragments fb"] cleanup_loop_distinct [of "fragments fb" order]
  by (auto simp: cleanup_def intro!: fb_wf_subset) (auto simp: fb_wf_def)

lemma set_update_subset: "set (AList.update k v m) \<subseteq> insert (k, v) (set m)"
  by (induction m) auto

lemma fb_wf_update:
  assumes "fb_wf fb" "distinct (map fst m)" "m \<noteq> []"
  shows "fb_wf (fb\<lparr>fragments := AList.update msgID m (fragments fb)\<rparr>)"
  using assms set_update_subset [of msgID m "fragments fb"]
  by (auto simp: fb_wf_def AList.distinct_update)

lemma fb_wf_delete: "fb_wf fb \<Longrightarrow> fb_wf (fb\<lparr>fragments := AList.delete msgID (fragments fb)\<rparr>)"
  using set_delete_subset [of msgID "fragments fb"]
  by (intro fb_wf_subset) (auto simp: fb_wf_def AList.distinct_delete)

lemma fb_wf_clean_stamp [simp]: "fb_wf (fb\<lparr>lastClean := n\<rparr>) = fb_wf fb"
  by (simp add: fb_wf_def)

lemma distinct_get_frags: "fb_wf fb \<Longrightarrow> distinct (map fst (get_frags (fragments fb) msgID))"
  by (auto simp: fb_wf_def get_frags_def split: option.split dest!: map_of_SomeD)

text \<open>The buffer a packet is stored into, after a cleanup that may be due.\<close>

definition cleaned :: "recv_env \<Rightarrow> FragmentBuffer \<Rightarrow> FragmentBuffer" where
  "cleaned env fb = (if env_since env - lastClean fb > fb_timeout fb
     then (cleanup (env_order env) fb)\<lparr>lastClean := env_now env\<rparr> else fb)"

lemma fb_wf_cleaned: "fb_wf fb \<Longrightarrow> fb_wf (cleaned env fb)"
  by (simp add: cleaned_def fb_wf_cleanup)

text \<open>The body of the loop in general: four outcomes.\<close>

lemma handle_packet_outcomes:
  obtains (short) "length packet < 13"
      "handle_packet env packet fb = (fb, Some (Err (ErrMsg ''packet too short for fragment header'')))"
    | (single) h where "packet = header_bytes h @ drop 13 packet" "fh_Total h = 1"
      "handle_packet env packet fb = (fb, Some (Ok (fh_Flag h, drop 13 packet)))"
    | (complete) h m where "packet = header_bytes h @ drop 13 packet" "fh_Total h \<noteq> 1"
      "m = AList.update (fh_Index h) (drop 13 packet) (get_frags (fragments (cleaned env fb)) (fh_MsgID h))"
      "(of_nat (length m) :: u16) = fh_Total h"
      "handle_packet env packet fb =
        ((cleaned env fb)\<lparr>fragments := AList.delete (fh_MsgID h) (fragments (cleaned env fb))\<rparr>,
         Some (Ok (fh_Flag h, reassemble m (u16_range (fh_Total h)) [])))"
    | (stored) h m where "packet = header_bytes h @ drop 13 packet" "fh_Total h \<noteq> 1"
      "m = AList.update (fh_Index h) (drop 13 packet) (get_frags (fragments (cleaned env fb)) (fh_MsgID h))"
      "(of_nat (length m) :: u16) \<noteq> fh_Total h"
      "handle_packet env packet fb =
        ((cleaned env fb)\<lparr>fragments := AList.update (fh_MsgID h) m (fragments (cleaned env fb))\<rparr>, None)"
proof (cases "length packet < 13")
  case True
  then show thesis by (intro short) (simp_all add: handle_packet_def)
next
  case False
  then obtain h where "UnmarshalBinary (take 13 packet) = Ok h"
    using UnmarshalBinary_total [of "take 13 packet"] by auto
  moreover from this have p: "packet = header_bytes h @ drop 13 packet"
    using UnmarshalBinary_inv [of "take 13 packet" h] by (metis append.right_neutral append_take_drop_id
        drop_all length_take min.cobounded2)
  ultimately have eq: "handle_packet env packet fb =
     (if fh_Total h = 1 then (fb, Some (Ok (fh_Flag h, drop 13 packet)))
      else let c = cleaned env fb;
               m = AList.update (fh_Index h) (drop 13 packet) (get_frags (fragments c) (fh_MsgID h))
           in if (of_nat (length m) :: u16) = fh_Total h
              then (c\<lparr>fragments := AList.delete (fh_MsgID h) (fragments c)\<rparr>,
                    Some (Ok (fh_Flag h, reassemble m (u16_range (fh_Total h)) [])))
              else (c\<lparr>fragments := AList.update (fh_MsgID h) m (fragments c)\<rparr>, None))"
    using False
    by (simp add: handle_packet_def Let_def AList.update_last AList.delete_update_same
        get_frags_none flip: cleaned_def)
  define m where "m = AList.update (fh_Index h) (drop 13 packet)
    (get_frags (fragments (cleaned env fb)) (fh_MsgID h))"
  show thesis
  proof (cases "fh_Total h = 1")
    case True
    with eq show thesis by (intro single [OF p]) simp_all
  next
    case False
    with eq show thesis
      by (cases "(of_nat (length m) :: u16) = fh_Total h")
         (auto simp: Let_def m_def intro: complete [OF p False m_def] stored [OF p False m_def])
  qed
qed

lemma cleanup_due_length:
  assumes "fb_wf fb" "distinct order" "set order = keys (fragments fb)"
  shows "length (fragments (cleanup order fb)) \<le> 100"
proof (cases "length (fragments fb) > 100")
  case True
  have "length order = length (fragments fb)"
    using assms by (simp add: fb_wf_def length_alist_card distinct_card [symmetric])
  then show ?thesis
    using True assms cleanup_loop_49 [of "fragments fb" order]
    by (simp add: cleanup_def fb_wf_def)
qed simp

lemma handle_packet_wf:
  assumes "fb_wf fb"
  shows "fb_wf (fst (handle_packet env packet fb))"
proof (cases rule: handle_packet_outcomes [of packet env fb])
  case (complete h m)
  then show ?thesis by (simp add: fb_wf_delete fb_wf_cleaned assms)
next
  case (stored h m)
  have "distinct (map fst m)"
    using stored(3) distinct_get_frags [OF fb_wf_cleaned [OF assms]]
    by (simp add: AList.distinct_update)
  moreover have "m \<noteq> []"
    using stored(3) by (simp add: AList.update_nonempty)
  ultimately show ?thesis
    using stored(5) by (simp add: fb_wf_update fb_wf_cleaned assms)
qed (simp_all add: assms)

section \<open>The buffer as a map of maps\<close>

definition frag_map :: "FragmentBuffer \<Rightarrow> u32 \<rightharpoonup> u16 \<rightharpoonup> bytes" where
  "frag_map fb msgID = map_option map_of (map_of (fragments fb) msgID)"

lemma frag_map_simps:
  "frag_map (fb\<lparr>fragments := AList.update i m frs\<rparr>) = (frag_map (fb\<lparr>fragments := frs\<rparr>))(i \<mapsto> map_of m)"
  "frag_map (fb\<lparr>fragments := AList.delete i frs\<rparr>) = (frag_map (fb\<lparr>fragments := frs\<rparr>))(i := None)"
  "frag_map (fb\<lparr>lastClean := n\<rparr>) = frag_map fb"
  by (rule ext, simp add: frag_map_def AList.update_conv' map_of_delete_alist)+

lemma dom_frag_map: "dom (frag_map fb) = keys (fragments fb)"
  by (simp add: frag_map_def [abs_def] dom_map_option dom_map_of_conv_image_fst)

lemma cleanup_loop_map_le: "map_of (cleanup_loop order frs) \<subseteq>\<^sub>m map_of frs"
proof (induction order frs rule: cleanup_loop.induct)
  case (2 msgID ids frs)
  have "map_of (AList.delete msgID frs) \<subseteq>\<^sub>m map_of frs"
    by (simp add: map_of_delete_alist map_le_def)
  with 2 show ?case by (auto simp: Let_def intro: map_le_trans)
qed simp

text \<open>What a cleanup does to the map.\<close>

lemma cleaned_frag_map:
  assumes "fb_wf fb"
  shows "frag_map (cleaned env fb) \<subseteq>\<^sub>m frag_map fb"
    and "env_since env - lastClean fb \<le> fb_timeout fb \<or> length (fragments fb) \<le> 100 \<longrightarrow>
      frag_map (cleaned env fb) = frag_map fb"
    and "env_since env - lastClean fb > fb_timeout fb \<and> distinct (env_order env) \<and>
      set (env_order env) = dom (frag_map fb) \<longrightarrow> card (dom (frag_map (cleaned env fb))) \<le> 100"
proof -
  have "map_of (fragments (cleaned env fb)) \<subseteq>\<^sub>m map_of (fragments fb)"
    by (simp add: cleaned_def cleanup_def cleanup_loop_map_le)
  then show "frag_map (cleaned env fb) \<subseteq>\<^sub>m frag_map fb"
    by (auto simp: map_le_def frag_map_def dom_def)
  show "env_since env - lastClean fb \<le> fb_timeout fb \<or> length (fragments fb) \<le> 100 \<longrightarrow>
      frag_map (cleaned env fb) = frag_map fb"
    by (auto simp: cleaned_def frag_map_simps)
  have "card (dom (frag_map (cleaned env fb))) = length (fragments (cleaned env fb))"
    using fb_wf_cleaned [OF assms, of env] by (simp add: dom_frag_map length_alist_card fb_wf_def)
  then show "env_since env - lastClean fb > fb_timeout fb \<and> distinct (env_order env) \<and>
      set (env_order env) = dom (frag_map fb) \<longrightarrow> card (dom (frag_map (cleaned env fb))) \<le> 100"
    using cleanup_due_length [OF assms, of "env_order env"] by (auto simp: cleaned_def dom_frag_map split: if_splits)
qed

text \<open>The inner map after a fragment is stored, and its size.\<close>

lemma stored_frag_map:
  assumes "fb_wf fb" "m = AList.update i p (get_frags (fragments fb) msgID)"
  shows "map_of m = (case frag_map fb msgID of None \<Rightarrow> Map.empty | Some M \<Rightarrow> M)(i \<mapsto> p)"
    and "card (dom (map_of m)) = length m"
proof -
  show "map_of m = (case frag_map fb msgID of None \<Rightarrow> Map.empty | Some M \<Rightarrow> M)(i \<mapsto> p)"
    by (rule ext) (simp add: assms(2) frag_map_def get_frags_def AList.update_conv' split: option.split)
  have "distinct (map fst m)"
    using distinct_get_frags [OF assms(1)] by (simp add: assms(2) AList.distinct_update)
  then show "card (dom (map_of m)) = length m"
    by (simp add: dom_map_of_conv_image_fst length_alist_card)
qed

section \<open>Properties\<close>

text \<open>
  C32. The fragment header: every header is encoded in exactly 13 bytes without a slice
  going out of range, decoding them (and ignoring what follows) gives the header back, and
  every 13 or more bytes decode to a header whose encoding is their first 13 bytes; fewer
  bytes are an error.
\<close>

theorem fragment_header_codec:
  "(\<exists>bs. MarshalBinary h = Ok bs \<and> length bs = 13 \<and> UnmarshalBinary (bs @ rest) = Ok h) \<and>
   (if length data < 13
    then UnmarshalBinary data = Err (ErrMsg ''invalid fragment header size'')
    else \<exists>h'. UnmarshalBinary data = Ok h' \<and> MarshalBinary h' = Ok (take 13 data))"
proof (intro conjI)
  show "\<exists>bs. MarshalBinary h = Ok bs \<and> length bs = 13 \<and> UnmarshalBinary (bs @ rest) = Ok h"
    by (simp add: MarshalBinary_eq)
next
  have "\<exists>h'. UnmarshalBinary data = Ok h' \<and> MarshalBinary h' = Ok (take 13 data)"
    if len: "13 \<le> length data"
  proof -
    obtain h' where h': "UnmarshalBinary data = Ok h'"
      using UnmarshalBinary_total [OF len] by blast
    then have "take 13 data = header_bytes h'"
      by (metis UnmarshalBinary_inv append_eq_conv_conj length_header_bytes)
    with h' show ?thesis by (simp add: MarshalBinary_eq)
  qed
  then show "if length data < 13
    then UnmarshalBinary data = Err (ErrMsg ''invalid fragment header size'')
    else \<exists>h'. UnmarshalBinary data = Ok h' \<and> MarshalBinary h' = Ok (take 13 data)"
    by (simp add: UnmarshalBinary_def)
qed

text \<open>
  C17. The buffer behaves as the map of maps it is in Go, whatever bytes arrive. A short packet
  is an error and a packet that is a whole message is returned; neither touches the buffer. Any
  other packet is stored under its message and index, in a map that exists by then, and changes
  no other message; when as many indices are present as its total says, modulo 65536, the
  message is returned, put together in the order of the indices, and its entry disappears. A
  cleanup that is due before drops whole messages only, and none while there are at most 100; it
  leaves at most 100 before the packet is stored. Nothing panics.
\<close>

theorem handle_packet_refines_maps:
  assumes "fb_wf fb"
  shows "(case UnmarshalBinary packet of
      Ok h \<Rightarrow> if fh_Total h = 1 then handle_packet env packet fb = (fb, Some (Ok (fh_Flag h, drop 13 packet)))
        else \<exists>B. B \<subseteq>\<^sub>m frag_map fb
          \<and> (env_since env - lastClean fb \<le> fb_timeout fb \<or> length (fragments fb) \<le> 100 \<longrightarrow> B = frag_map fb)
          \<and> (env_since env - lastClean fb > fb_timeout fb \<and> distinct (env_order env) \<and>
               set (env_order env) = dom (frag_map fb) \<longrightarrow> card (dom B) \<le> 100)
          \<and> (let M = (case B (fh_MsgID h) of None \<Rightarrow> Map.empty | Some M \<Rightarrow> M)(fh_Index h \<mapsto> drop 13 packet);
                 full = ((of_nat (card (dom M)) :: u16) = fh_Total h)
             in frag_map (fst (handle_packet env packet fb)) = B(fh_MsgID h := if full then None else Some M)
              \<and> snd (handle_packet env packet fb) = (if full
                  then Some (Ok (fh_Flag h, concat (map (\<lambda>i. case M i of None \<Rightarrow> [] | Some p \<Rightarrow> p) (u16_range (fh_Total h)))))
                  else None))
    | _ \<Rightarrow> length packet < 13 \<and>
        handle_packet env packet fb = (fb, Some (Err (ErrMsg ''packet too short for fragment header''))))
    \<and> fb_wf (fst (handle_packet env packet fb))"
proof (rule conjI [OF _ handle_packet_wf [OF assms]])
  let ?c = "cleaned env fb" and ?r = "handle_packet env packet fb"
  have wf: "fb_wf ?c" by (rule fb_wf_cleaned [OF assms])
  have B: "frag_map ?c \<subseteq>\<^sub>m frag_map fb"
    "env_since env - lastClean fb \<le> fb_timeout fb \<or> length (fragments fb) \<le> 100 \<longrightarrow> frag_map ?c = frag_map fb"
    "env_since env - lastClean fb > fb_timeout fb \<and> distinct (env_order env) \<and>
       set (env_order env) = dom (frag_map fb) \<longrightarrow> card (dom (frag_map ?c)) \<le> 100"
    using cleaned_frag_map [OF assms, of env] by blast+
  have step: "packet = header_bytes h @ drop 13 packet \<Longrightarrow> UnmarshalBinary packet = Ok h" for h
    by (metis UnmarshalBinary_header)
  show "case UnmarshalBinary packet of
      Ok h \<Rightarrow> if fh_Total h = 1 then ?r = (fb, Some (Ok (fh_Flag h, drop 13 packet)))
        else \<exists>B. B \<subseteq>\<^sub>m frag_map fb
          \<and> (env_since env - lastClean fb \<le> fb_timeout fb \<or> length (fragments fb) \<le> 100 \<longrightarrow> B = frag_map fb)
          \<and> (env_since env - lastClean fb > fb_timeout fb \<and> distinct (env_order env) \<and>
               set (env_order env) = dom (frag_map fb) \<longrightarrow> card (dom B) \<le> 100)
          \<and> (let M = (case B (fh_MsgID h) of None \<Rightarrow> Map.empty | Some M \<Rightarrow> M)(fh_Index h \<mapsto> drop 13 packet);
                 full = ((of_nat (card (dom M)) :: u16) = fh_Total h)
             in frag_map (fst ?r) = B(fh_MsgID h := if full then None else Some M)
              \<and> snd ?r = (if full
                  then Some (Ok (fh_Flag h, concat (map (\<lambda>i. case M i of None \<Rightarrow> [] | Some p \<Rightarrow> p) (u16_range (fh_Total h)))))
                  else None))
    | _ \<Rightarrow> length packet < 13 \<and> ?r = (fb, Some (Err (ErrMsg ''packet too short for fragment header'')))"
  proof (cases rule: handle_packet_outcomes [of packet env fb])
    case short
    then show ?thesis by (simp add: UnmarshalBinary_def)
  next
    case (single h)
    with step [OF single(1)] show ?thesis by simp
  next
    case (complete h m)
    note M = stored_frag_map [OF wf complete(3)]
    show ?thesis
      unfolding step [OF complete(1)] res.case if_not_P [OF complete(2)]
      by (rule exI [of _ "frag_map ?c"], unfold Let_def M(1) [symmetric] M(2))
        (simp add: B complete(4,5) frag_map_simps reassemble_concat)
  next
    case (stored h m)
    note M = stored_frag_map [OF wf stored(3)]
    show ?thesis
      unfolding step [OF stored(1)] res.case if_not_P [OF stored(2)]
      by (rule exI [of _ "frag_map ?c"], unfold Let_def M(1) [symmetric] M(2))
        (simp add: B stored(4,5) frag_map_simps)
  qed
qed

theorem handle_packet_refines_maps_witness:
  "frag_map (fst (handle_packet \<lparr>env_since = 1, env_now = 1, env_order = []\<rparr>
      (header_bytes \<lparr>fh_Flag = 1, fh_Index = 2, fh_Total = 3, fh_MsgLen = 9, fh_MsgID = 7\<rparr> @ [5])
      \<lparr>fragments = [(7, [(0, [1])])], fb_timeout = 5, lastClean = 0\<rparr>)) = [7 \<mapsto> [0 \<mapsto> [1], 2 \<mapsto> [5]]]"
proof -
  let ?fb = "\<lparr>fragments = [(7, [(0, [1])])], fb_timeout = 5, lastClean = 0\<rparr>"
  let ?h = "\<lparr>fh_Flag = 1, fh_Index = 2, fh_Total = 3, fh_MsgLen = 9, fh_MsgID = 7\<rparr>"
  have "fb_wf ?fb" by (simp add: fb_wf_def)
  from handle_packet_refines_maps [OF this, of "\<lparr>env_since = 1, env_now = 1, env_order = []\<rparr>" "header_bytes ?h @ [5]"]
  show ?thesis by (auto simp: frag_map_def fun_upd_twist split: if_splits)
qed

text \<open>
  C37. The cleanup does not look at age: with more than 100 messages in progress it deletes,
  in whatever order the map is enumerated, until exactly 49 are left, and what is left is
  what was there; with 100 or fewer it deletes nothing, however old they are.
\<close>

theorem cleanup_leaves_49:
  assumes "distinct (map fst (fragments fb))" and "distinct order"
    and "set order = keys (fragments fb)"
  shows "length (fragments (cleanup order fb)) =
      (if 100 < length (fragments fb) then 49 else length (fragments fb))
    \<and> set (fragments (cleanup order fb)) \<subseteq> set (fragments fb)"
proof -
  have "length order = length (fragments fb)"
    using assms by (simp add: length_alist_card distinct_card [symmetric])
  then show ?thesis
    using assms cleanup_loop_49 [of "fragments fb" order] cleanup_loop_subset [of order "fragments fb"]
    by (simp add: cleanup_def)
qed

theorem cleanup_leaves_49_witness:
  "length (fragments (cleanup (map of_nat [0..<101])
     \<lparr>fragments = map (\<lambda>i. (of_nat i, [(0, [])])) [0..<101], fb_timeout = 0, lastClean = 0\<rparr>)) = 49"
proof -
  let ?fb = "\<lparr>fragments = map (\<lambda>i. (of_nat i, [(0, [])])) [0..<101], fb_timeout = 0, lastClean = 0\<rparr>"
  have "inj_on (of_nat :: nat \<Rightarrow> u32) {0..<101}"
    by (rule inj_onI) (auto dest!: arg_cong [where f = unat] simp: unat_of_nat)
  then have "distinct (map fst (fragments ?fb))" "distinct (map of_nat [0..<101] :: u32 list)"
    "set (map of_nat [0..<101]) = keys (fragments ?fb)"
    by (auto simp: distinct_map comp_def image_image)
  from cleanup_leaves_49 [OF this] show ?thesis by simp
qed

text \<open>
  C36. A message counts as complete when as many distinct indices have arrived as its header
  announces; the indices are not compared with the count, and the announced length is not
  compared with the result. So two fragments of a two-fragment message with the indices 0
  and any \<open>k \<ge> 2\<close> complete it, and the receiver gets the first payload alone as the whole
  message, without an error.
\<close>

theorem stray_index_completes_message:
  assumes "msgID \<notin> keys (fragments fb)" and "length (fragments fb) < 100" and "2 \<le> k"
  shows "\<exists>fb1 fb2.
    handle_packet env (header_bytes \<lparr>fh_Flag = flag, fh_Index = 0, fh_Total = 2, fh_MsgLen = len,
        fh_MsgID = msgID\<rparr> @ p) fb = (fb1, None)
    \<and> handle_packet env' (header_bytes \<lparr>fh_Flag = flag, fh_Index = k, fh_Total = 2, fh_MsgLen = len,
        fh_MsgID = msgID\<rparr> @ q) fb1 = (fb2, Some (Ok (flag, p)))
    \<and> fragments fb2 = fragments fb"
proof -
  have k: "k \<noteq> 0" "k \<noteq> 1" using assms(3) by (auto simp: word_le_nat_alt)
  have range: "u16_range 2 = [0, 1]" by (simp add: u16_range_def upt_rec)
  show ?thesis
    using assms k
    by (simp add: handle_packet_multi get_frags_none Let_def length_update_alist
        AList.delete_update_same range)
qed

theorem stray_index_completes_message_witness:
  "\<forall>env env'. \<exists>fb1 fb2.
    handle_packet env (header_bytes \<lparr>fh_Flag = 0x10, fh_Index = 0, fh_Total = 2, fh_MsgLen = 6,
        fh_MsgID = 5\<rparr> @ [1, 2, 3]) (NewFragmentBuffer 9 0) = (fb1, None)
    \<and> handle_packet env' (header_bytes \<lparr>fh_Flag = 0x10, fh_Index = 7, fh_Total = 2, fh_MsgLen = 6,
        fh_MsgID = 5\<rparr> @ [4, 5, 6]) fb1 = (fb2, Some (Ok (0x10, [1, 2, 3])))
    \<and> fragments fb2 = fragments (NewFragmentBuffer 9 0)"
  by (intro allI, rule stray_index_completes_message) (simp_all add: NewFragmentBuffer_def)

end
