(* ===== verification/Identity.thy ===== *)
theory Identity
  imports Fragment Crypto
begin

text \<open>
  Identity verification, after \<open>pkg/identity/verifier.go\<close>: identity hashes and their
  hexadecimal form, the challenge-response exchange that proves possession of the identity
  key, and the cache of used nonces.

  The exchange is the object \<open>IdentityExchange\<close>; \<open>ix_step\<close> relates it before and after any
  call, and what \<open>isVerified\<close> means is an invariant over its runs. The nonce cache is an
  association list; its clock is an argument. \<open>append(nonce, channelBinding...)\<close> may write
  into the spare capacity behind \<open>nonce\<close>; no caller looks there and the model leaves it out.
\<close>

section \<open>Identity hashes\<close>

definition IDHashSize :: int where "IDHashSize = 32"

definition ComputeIDHash :: "crypto_lib \<Rightarrow> bytes \<Rightarrow> bytes res" where
  "ComputeIDHash c publicKey = SHAKE256 c publicKey IDHashSize"

text \<open>\<open>encoding/hex\<close>.\<close>

definition hextable :: string where "hextable = ''0123456789abcdef''"

definition hex_EncodeToString :: "bytes \<Rightarrow> string" where
  "hex_EncodeToString src =
     concat (map (\<lambda>b. [hextable ! unat (drop_bit 4 b), hextable ! unat (b AND 0x0F)]) src)"

definition fromHexChar :: "char \<Rightarrow> byte option" where
  "fromHexChar ch = (let n = (of_char ch :: nat) in
     if 48 \<le> n \<and> n \<le> 57 then Some (of_nat (n - 48))
     else if 97 \<le> n \<and> n \<le> 102 then Some (of_nat (n - 97 + 10))
     else if 65 \<le> n \<and> n \<le> 70 then Some (of_nat (n - 65 + 10))
     else None)"

fun hex_DecodeString :: "string \<Rightarrow> bytes res" where
  "hex_DecodeString [] = Ok []"
| "hex_DecodeString [p] = (case fromHexChar p of
      None \<Rightarrow> Err (ErrLib ''encoding/hex: invalid byte'')
    | Some _ \<Rightarrow> Err (ErrLib ''encoding/hex: odd length hex string''))"
| "hex_DecodeString (p # q # s) = (case (fromHexChar p, fromHexChar q) of
      (Some a, Some b) \<Rightarrow> go_bind (hex_DecodeString s) (\<lambda>rest. Ok ((push_bit 4 a OR b) # rest))
    | _ \<Rightarrow> Err (ErrLib ''encoding/hex: invalid byte''))"

definition FormatIDHash :: "bytes \<Rightarrow> string" where
  "FormatIDHash hash = hex_EncodeToString hash"

definition ParseIDHash :: "string \<Rightarrow> bytes res" where
  "ParseIDHash s = hex_DecodeString s"

section \<open>The exchange\<close>

record IdentityExchange =
  sessionKey :: bytes
  myDSAKeypair :: "MLDSAKeyPair option"
  peerIDHash :: bytes
  peerDSAPubkey :: bytes
  isVerified :: bool

definition NewIdentityExchange :: "bytes \<Rightarrow> MLDSAKeyPair option \<Rightarrow> bytes \<Rightarrow> IdentityExchange" where
  "NewIdentityExchange key kp idHash = \<lparr>sessionKey = key, myDSAKeypair = kp, peerIDHash = idHash,
     peerDSAPubkey = [], isVerified = False\<rparr>"

text \<open>
  \<open>SendIdentity\<close> changes nothing in the exchange; it draws a nonce and hands the serialized
  message to the transport as it is, without a fragment header.
\<close>

definition SendIdentity ::
  "crypto_lib \<Rightarrow> 't Transport \<Rightarrow> IdentityExchange \<Rightarrow> rng \<times> 't \<Rightarrow> (rng \<times> 't) \<times> unit res" where
  "SendIdentity c tr e = (\<lambda>(r, t).
     case deref (myDSAKeypair e) of
       Panic p \<Rightarrow> ((r, t), Panic p)
     | Err er \<Rightarrow> ((r, t), Err er)
     | Ok kp \<Rightarrow> (case AESGCMEncrypt c (sessionKey e) (dsa_Public kp) r of
          (r', Err er) \<Rightarrow> ((r', t), Err er)
        | (r', Panic p) \<Rightarrow> ((r', t), Panic p)
        | (r', Ok encrypted) \<Rightarrow>
            (case IdentityMsg_Serialize \<lparr>PublicKeyEncrypted = encrypted\<rparr> of
               Err er \<Rightarrow> ((r', t), Err er)
             | Panic p \<Rightarrow> ((r', t), Panic p)
             | Ok data \<Rightarrow> (case tr_Send tr data t of (t', x) \<Rightarrow> ((r', t'), x)))))"

text \<open>\<open>crypto/subtle\<close>: 1 when the slices are equal, 0 otherwise, also for unequal lengths.\<close>

definition ConstantTimeCompare :: "bytes \<Rightarrow> bytes \<Rightarrow> int" where
  "ConstantTimeCompare x y = (if x = y then 1 else 0)"

definition HandlePeerIdentity :: "crypto_lib \<Rightarrow> bytes \<Rightarrow> (IdentityExchange, bytes) meth" where
  "HandlePeerIdentity c encryptedPub =
     st_bind (reading id) (\<lambda>e.
     st_bind (st_lift (AESGCMDecrypt c (sessionKey e) encryptedPub)) (\<lambda>pubBytes.
     st_bind (st_lift (ComputeIDHash c pubBytes)) (\<lambda>computedHash.
     if ConstantTimeCompare computedHash (peerIDHash e) \<noteq> 1
     then st_lift (Err (ErrMsg ''peer ID hash mismatch'')) else
     st_bind (assign (peerDSAPubkey_update (\<lambda>_. pubBytes))) (\<lambda>_.
     st_bind (drawing (rand_Read 32)) (\<lambda>nonce.
     drawing (AESGCMEncrypt c (sessionKey e) nonce))))))"

definition HandleChallenge ::
  "crypto_lib \<Rightarrow> bytes \<Rightarrow> bytes \<Rightarrow> bytes \<Rightarrow> (IdentityExchange, bytes) meth" where
  "HandleChallenge c encryptedNonce channelBinding sessionID =
     st_bind (reading id) (\<lambda>e.
     st_bind (st_lift (AESGCMDecrypt c (sessionKey e) encryptedNonce)) (\<lambda>nonce.
     let message = nonce @ channelBinding;
         message = message @ sessionID in
     st_bind (st_lift (deref (myDSAKeypair e))) (\<lambda>kp.
     st_bind (st_lift (MLDSASign c (dsa_Private kp) message)) (\<lambda>signature.
     drawing (AESGCMEncrypt c (sessionKey e) signature)))))"

definition VerifyResponse ::
  "crypto_lib \<Rightarrow> bytes \<Rightarrow> bytes \<Rightarrow> bytes \<Rightarrow> bytes \<Rightarrow> (IdentityExchange, bool) meth" where
  "VerifyResponse c encryptedSig expectedNonce channelBinding sessionID =
     st_bind (reading id) (\<lambda>e.
     st_bind (st_lift (AESGCMDecrypt c (sessionKey e) encryptedSig)) (\<lambda>sig.
     let message = expectedNonce @ channelBinding;
         message = message @ sessionID in
     st_bind (st_lift (MLDSAVerify c (peerDSAPubkey e) message sig)) (\<lambda>valid.
     st_bind (if valid then assign (isVerified_update (\<lambda>_. True)) else st_lift (Ok ())) (\<lambda>_.
     st_lift (Ok valid)))))"

definition IsVerified :: "IdentityExchange \<Rightarrow> bool" where
  "IsVerified e = isVerified e"

section \<open>The nonce cache\<close>

record NonceCache =
  cache :: "(bytes \<times> int) list"
  ttl :: int

definition NewNonceCache :: "int \<Rightarrow> NonceCache" where
  "NewNonceCache t = \<lparr>cache = [], ttl = t\<rparr>"

text \<open>
  \<open>now\<close> is the reading of the clock. Each entry is kept or deleted by its own time, so the
  order in which Go enumerates the map does not matter.
\<close>

definition CheckAndAdd :: "int \<Rightarrow> bytes \<Rightarrow> bytes \<Rightarrow> NonceCache \<Rightarrow> NonceCache \<times> bool" where
  "CheckAndAdd now idHash nonce nc =
    (let key = idHash @ nonce;
         nc = (if length (cache nc) > 1000
               then nc\<lparr>cache := filter (\<lambda>(k, t). \<not> now - t > ttl nc) (cache nc)\<rparr> else nc)
     in case map_of (cache nc) key of
          Some _ \<Rightarrow> (nc, False)
        | None \<Rightarrow> (nc\<lparr>cache := AList.update key now (cache nc)\<rparr>, True))"

section \<open>Hexadecimal\<close>

lemma fromHexChar_hextable:
  assumes "n < 16"
  shows "fromHexChar (hextable ! n) = Some (of_nat n)"
proof -
  have "\<forall>n \<in> set [0..<16]. fromHexChar (hextable ! n) = Some (of_nat n)"
    by (simp add: upt_rec fromHexChar_def hextable_def)
  with assms show ?thesis by simp
qed

lemma nibbles:
  fixes b :: byte
  shows "push_bit 4 (drop_bit 4 b) OR (b AND 0x0F) = b"
    and "unat (drop_bit 4 b) < 16" and "unat (b AND 0x0F) < 16"
proof -
  have m: "b AND 0x0F = take_bit 4 b" using take_bit_eq_mask [of 4 b] by (simp add: mask_eq_exp_minus_1)
  show "push_bit 4 (drop_bit 4 b) OR (b AND 0x0F) = b"
    by (simp add: m, rule bit_word_eqI) (auto simp: bit_simps)
  have "b AND 0x0F \<le> 0x0F" by (rule word_and_le1)
  then show "unat (b AND 0x0F) < 16" by (simp add: word_le_nat_alt)
  have "unat b < 2 ^ LENGTH(8)" by (rule unsigned_less)
  then have "unat b < 16 * 16" by simp
  then have "unat b div 16 < 16" by (rule less_mult_imp_div_less)
  then show "unat (drop_bit 4 b) < 16" by (simp add: drop_bit_eq_div unat_div_distrib)
qed

definition to_lower :: "char \<Rightarrow> char" where
  "to_lower ch = (let n = (of_char ch :: nat) in
     if 65 \<le> n \<and> n \<le> 70 then char_of (n + 32) else ch)"

lemma fromHexChar_inv:
  assumes "fromHexChar ch = Some a"
  shows "hextable ! unat a = to_lower ch \<and> unat a < 16"
proof -
  let ?n = "of_char ch :: nat"
  have ch: "ch = char_of ?n" by simp
  have digits: "\<forall>n \<in> set [48..<58]. hextable ! (n - 48) = char_of n \<and> n - 48 < 16"
    by (simp add: upt_rec hextable_def char_of_def bit_0)
  have lower: "\<forall>n \<in> set [97..<103]. hextable ! (n - 97 + 10) = char_of n \<and> n - 97 + 10 < 16"
    by (simp add: upt_rec hextable_def char_of_def bit_0)
  have upper: "\<forall>n \<in> set [65..<71]. hextable ! (n - 65 + 10) = char_of (n + 32) \<and> n - 65 + 10 < 16"
    by (simp add: upt_rec hextable_def char_of_def bit_0)
  have unat: "unat (of_nat m :: byte) = m" if "m < 16" for m
    using that by (simp add: unat_of_nat)
  consider "48 \<le> ?n" "?n < 58" "a = of_nat (?n - 48)"
    | "97 \<le> ?n" "?n < 103" "a = of_nat (?n - 97 + 10)"
    | "65 \<le> ?n" "?n < 71" "a = of_nat (?n - 65 + 10)"
    using assms by (auto simp: fromHexChar_def Let_def split: if_splits)
  then show ?thesis
  proof cases
    case 1
    then have "hextable ! (?n - 48) = char_of ?n \<and> ?n - 48 < 16" by (intro bspec [OF digits]) (simp only: set_upt atLeastLessThan_iff)
    with 1 ch show ?thesis by (simp add: unat to_lower_def Let_def del: of_nat_diff)
  next
    case 2
    then have "hextable ! (?n - 97 + 10) = char_of ?n \<and> ?n - 97 + 10 < 16"
      by (intro bspec [OF lower]) (simp only: set_upt atLeastLessThan_iff)
    with 2 ch show ?thesis by (simp only: unat to_lower_def Let_def) simp
  next
    case 3
    then have "hextable ! (?n - 65 + 10) = char_of (?n + 32) \<and> ?n - 65 + 10 < 16"
      by (intro bspec [OF upper]) (simp only: set_upt atLeastLessThan_iff)
    with 3 ch show ?thesis by (simp only: unat to_lower_def Let_def) simp
  qed
qed

lemma byte_of_nibbles:
  fixes a b :: byte
  assumes "unat a < 16" "unat b < 16"
  shows "drop_bit 4 (push_bit 4 a OR b) = a" and "(push_bit 4 a OR b) AND 0x0F = b"
proof -
  have bits: "n < 4" if "unat x < 16" "bit x n" for x :: byte and n
  proof -
    have "take_bit 4 (unat x) = unat x" using that(1) by (simp add: take_bit_nat_eq_self_iff)
    moreover have "bit (unat x) n" using that(2) by (simp add: bit_unsigned_iff bit_imp_le_length)
    ultimately show ?thesis by (metis bit_take_bit_iff)
  qed
  have m: "x AND 0x0F = take_bit 4 x" for x :: byte
    using take_bit_eq_mask [of 4 x] by (simp add: mask_eq_exp_minus_1)
  show "drop_bit 4 (push_bit 4 a OR b) = a"
    by (rule bit_word_eqI) (use bits [OF assms(1)] bits [OF assms(2)] in \<open>fastforce simp: bit_simps\<close>)
  show "(push_bit 4 a OR b) AND 0x0F = b"
    unfolding m by (rule bit_word_eqI)
      (use bits [OF assms(2)] in \<open>fastforce simp: bit_simps not_less\<close>)
qed

lemma encode_byte_of_nibbles:
  fixes a b :: byte
  assumes "unat a < 16" "unat b < 16"
  shows "hex_EncodeToString ((push_bit 4 a OR b) # h) =
    hextable ! unat a # hextable ! unat b # hex_EncodeToString h"
  unfolding hex_EncodeToString_def list.map concat.simps byte_of_nibbles [OF assms] by simp

lemma hex_Decode_Encode: "hex_DecodeString (hex_EncodeToString h) = Ok h"
proof (induction h)
  case Nil
  show ?case by (simp add: hex_EncodeToString_def)
next
  case (Cons b h)
  then show ?case
    by (simp add: hex_EncodeToString_def fromHexChar_hextable nibbles)
qed

lemma hex_Encode_Decode:
  "hex_DecodeString s = Ok h \<Longrightarrow> hex_EncodeToString h = map to_lower s"
proof (induction s arbitrary: h rule: hex_DecodeString.induct)
  case (3 p q s)
  then obtain a b rest where ab: "fromHexChar p = Some a" "fromHexChar q = Some b"
    and h: "hex_DecodeString s = Ok rest" "h = (push_bit 4 a OR b) # rest"
    by (auto simp: res_iff split: option.splits)
  have "hex_EncodeToString rest = map to_lower s"
    using "3.IH" h(1) ab by simp
  moreover have "unat a < 16" "unat b < 16" "hextable ! unat a = to_lower p" "hextable ! unat b = to_lower q"
    using ab fromHexChar_inv by auto
  ultimately show ?case
    by (simp add: h(2) encode_byte_of_nibbles)
qed (simp_all add: hex_EncodeToString_def split: option.splits)

lemma hex_Decode_ok:
  "is_ok (hex_DecodeString s) \<longleftrightarrow> even (length s) \<and> (\<forall>ch \<in> set s. fromHexChar ch \<noteq> None)"
proof (induction s rule: hex_DecodeString.induct)
  case (3 p q s)
  show ?case
  proof (cases "fromHexChar p = None \<or> fromHexChar q = None")
    case False
    then obtain a b where "fromHexChar p = Some a" "fromHexChar q = Some b" by auto
    with "3.IH" show ?thesis by (cases "hex_DecodeString s") auto
  qed (auto split: option.splits)
qed (simp_all split: option.splits)

lemma hex_Decode_no_panic [simp]: "\<not> is_panic (hex_DecodeString s)"
  by (induction s rule: hex_DecodeString.induct) (auto simp: res_iff split: option.splits)

lemma length_hex_Encode [simp]: "length (hex_EncodeToString h) = 2 * length h"
  by (induction h) (simp_all add: hex_EncodeToString_def)

section \<open>What the exchange's methods do\<close>

named_theorems ix_eqs \<open>the methods as case distinctions\<close>

lemma HandlePeerIdentity_eq [ix_eqs]:
  "HandlePeerIdentity c data (e, r) = (case AESGCMDecrypt c (sessionKey e) data of
      Err er \<Rightarrow> ((e, r), Err er)
    | Panic p \<Rightarrow> ((e, r), Panic p)
    | Ok pub \<Rightarrow> (case ComputeIDHash c pub of
        Err er \<Rightarrow> ((e, r), Err er)
      | Panic p \<Rightarrow> ((e, r), Panic p)
      | Ok h \<Rightarrow> if h \<noteq> peerIDHash e then ((e, r), Err (ErrMsg ''peer ID hash mismatch''))
          else (case rand_Read 32 r of
              (r', Err er) \<Rightarrow> ((e\<lparr>peerDSAPubkey := pub\<rparr>, r'), Err er)
            | (r', Panic p) \<Rightarrow> ((e\<lparr>peerDSAPubkey := pub\<rparr>, r'), Panic p)
            | (r', Ok nonce) \<Rightarrow> (case AESGCMEncrypt c (sessionKey e) nonce r' of
                (r'', x) \<Rightarrow> ((e\<lparr>peerDSAPubkey := pub\<rparr>, r''), x)))))"
  by (simp add: HandlePeerIdentity_def ConstantTimeCompare_def st_bind_def reading_def assign_def
      drawing_def split: prod.splits res.splits)

lemma HandleChallenge_eq [ix_eqs]:
  "HandleChallenge c data cb sid (e, r) = (case AESGCMDecrypt c (sessionKey e) data of
      Err er \<Rightarrow> ((e, r), Err er)
    | Panic p \<Rightarrow> ((e, r), Panic p)
    | Ok nonce \<Rightarrow> (case myDSAKeypair e of
        None \<Rightarrow> ((e, r), Panic ''nil pointer dereference'')
      | Some kp \<Rightarrow> (case MLDSASign c (dsa_Private kp) (nonce @ cb @ sid) of
          Err er \<Rightarrow> ((e, r), Err er)
        | Panic p \<Rightarrow> ((e, r), Panic p)
        | Ok sig \<Rightarrow> (case AESGCMEncrypt c (sessionKey e) sig r of (r', x) \<Rightarrow> ((e, r'), x)))))"
  by (simp add: HandleChallenge_def st_bind_def reading_def drawing_def Let_def
      split: prod.splits res.splits option.splits)

lemma VerifyResponse_eq [ix_eqs]:
  "VerifyResponse c data nonce cb sid (e, r) = (case AESGCMDecrypt c (sessionKey e) data of
      Err er \<Rightarrow> ((e, r), Err er)
    | Panic p \<Rightarrow> ((e, r), Panic p)
    | Ok sig \<Rightarrow> (case MLDSAVerify c (peerDSAPubkey e) (nonce @ cb @ sid) sig of
        Err er \<Rightarrow> ((e, r), Err er)
      | Panic p \<Rightarrow> ((e, r), Panic p)
      | Ok valid \<Rightarrow> ((if valid then e\<lparr>isVerified := True\<rparr> else e, r), Ok valid)))"
  by (simp add: VerifyResponse_def st_bind_def reading_def assign_def Let_def
      split: prod.splits res.splits)

lemma ComputeIDHash_eq: "hash_laws c \<Longrightarrow> ComputeIDHash c pub = Ok (lib_sha256 c pub)"
  by (simp add: ComputeIDHash_def IDHashSize_def SHAKE256_32)

section \<open>Reachable exchanges\<close>

inductive ix_step :: "crypto_lib \<Rightarrow> IdentityExchange \<Rightarrow> IdentityExchange \<Rightarrow> bool" for c where
  step_PeerIdentity: "HandlePeerIdentity c data (e, r) = ((e', r'), x) \<Longrightarrow> ix_step c e e'"
| step_Challenge: "HandleChallenge c data cb sid (e, r) = ((e', r'), x) \<Longrightarrow> ix_step c e e'"
| step_Response: "VerifyResponse c data nonce cb sid (e, r) = ((e', r'), y) \<Longrightarrow> ix_step c e e'"

inductive_cases ix_stepE: "ix_step c e e'"

lemma HandlePeerIdentity_leaves:
  "HandlePeerIdentity c data (e, r) = ((e', r'), x) \<Longrightarrow>
     e' = e \<or> (\<exists>pub. ComputeIDHash c pub = Ok (peerIDHash e) \<and> e' = e\<lparr>peerDSAPubkey := pub\<rparr>)"
  by (auto simp: ix_eqs split: res.splits prod.splits if_splits)

lemma HandleChallenge_leaves:
  "HandleChallenge c data cb sid (e, r) = ((e', r'), x) \<Longrightarrow> e' = e"
  by (auto simp: ix_eqs split: res.splits prod.splits option.splits)

lemma VerifyResponse_leaves:
  "VerifyResponse c data nonce cb sid (e, r) = ((e', r'), y) \<Longrightarrow>
     e' = e \<or> length (peerDSAPubkey e) = 32 \<and> e' = e\<lparr>isVerified := True\<rparr>"
  by (auto simp: ix_eqs MLDSAVerify_eq split: res.splits if_splits)

definition ix_inv :: "crypto_lib \<Rightarrow> IdentityExchange \<Rightarrow> IdentityExchange \<Rightarrow> bool" where
  "ix_inv c e0 e \<longleftrightarrow> peerIDHash e = peerIDHash e0 \<and> sessionKey e = sessionKey e0
     \<and> myDSAKeypair e = myDSAKeypair e0
     \<and> (peerDSAPubkey e \<noteq> [] \<or> isVerified e \<longrightarrow> ComputeIDHash c (peerDSAPubkey e) = Ok (peerIDHash e))"

lemma ix_inv_step: "ix_step c e e' \<Longrightarrow> ix_inv c e0 e \<Longrightarrow> ix_inv c e0 e'"
  by (erule ix_stepE)
     (auto simp: ix_inv_def dest!: HandlePeerIdentity_leaves HandleChallenge_leaves VerifyResponse_leaves)

lemma ix_inv_reachable:
  assumes "(ix_step c)\<^sup>*\<^sup>* (NewIdentityExchange key kp idh) e"
  shows "ix_inv c (NewIdentityExchange key kp idh) e"
  using assms
  by (induction rule: rtranclp_induct) (simp_all add: ix_inv_step, simp add: ix_inv_def NewIdentityExchange_def)

lemma isVerified_step: "ix_step c e e' \<Longrightarrow> isVerified e \<Longrightarrow> isVerified e'"
  by (erule ix_stepE)
     (auto dest!: HandlePeerIdentity_leaves HandleChallenge_leaves VerifyResponse_leaves)

lemma isVerified_stays: "(ix_step c)\<^sup>*\<^sup>* e e' \<Longrightarrow> isVerified e \<Longrightarrow> isVerified e'"
  by (induction rule: rtranclp_induct) (simp_all add: isVerified_step)

section \<open>Nonces accepted by the cache\<close>

text \<open>A sequence of calls: time, identity hash and nonce of each.\<close>

fun check_all :: "(int \<times> bytes \<times> bytes) list \<Rightarrow> NonceCache \<Rightarrow> bool list" where
  "check_all [] nc = []"
| "check_all ((t, i, n) # calls) nc =
     (case CheckAndAdd t i n nc of (nc', b) \<Rightarrow> b # check_all calls nc')"

definition purged :: "int \<Rightarrow> NonceCache \<Rightarrow> NonceCache" where
  "purged now nc = (if length (cache nc) > 1000
     then nc\<lparr>cache := filter (\<lambda>(k, t). \<not> now - t > ttl nc) (cache nc)\<rparr> else nc)"

lemma CheckAndAdd_eq:
  "CheckAndAdd now i n nc =
    (if map_of (cache (purged now nc)) (i @ n) = None
     then (purged now nc\<lparr>cache := AList.update (i @ n) now (cache (purged now nc))\<rparr>, True)
     else (purged now nc, False))"
  by (simp add: CheckAndAdd_def purged_def Let_def split: option.splits)

lemma ttl_purged [simp]: "ttl (purged now nc) = ttl nc"
  by (simp add: purged_def)

lemma distinct_purged: "distinct (map fst (cache nc)) \<Longrightarrow> distinct (map fst (cache (purged now nc)))"
  by (simp add: purged_def distinct_map_filter)

lemma purged_lookup:
  assumes "distinct (map fst (cache nc))" "map_of (cache nc) k = Some t"
  shows "map_of (cache (purged now nc)) k = Some t \<or>
    now - t > ttl nc \<and> map_of (cache (purged now nc)) k = None"
proof (cases "length (cache nc) > 1000 \<and> now - t > ttl nc")
  case True
  have "k \<notin> fst ` set (cache (purged now nc))"
  proof
    assume "k \<in> fst ` set (cache (purged now nc))"
    then obtain t' where "(k, t') \<in> set (cache nc)" "\<not> now - t' > ttl nc"
      using True by (auto simp: purged_def)
    with assms True show False by (metis map_of_eq_Some_iff option.inject)
  qed
  with True show ?thesis by (simp add: map_of_eq_None_iff)
next
  case False
  have "(k, t) \<in> set (cache (purged now nc))"
    using False map_of_SomeD [OF assms(2)] by (auto simp: purged_def)
  then show ?thesis
    using distinct_purged [OF assms(1), of now] by simp
qed

lemma check_all_gap:
  assumes "distinct (map fst (cache nc))" "map_of (cache nc) k = Some t0"
    and "sorted (map fst calls)" "j < length calls" "check_all calls nc ! j"
    and "fst (snd (calls ! j)) @ snd (snd (calls ! j)) = k"
  shows "ttl nc < fst (calls ! j) - t0"
  using assms
proof (induction calls arbitrary: nc j)
  case (Cons call calls)
  obtain t i n where call: "call = (t, i, n)" by (cases call)
  obtain nc' b where step: "CheckAndAdd t i n nc = (nc', b)" by fastforce
  have wf': "distinct (map fst (cache nc'))" and ttl': "ttl nc' = ttl nc"
    using step distinct_purged [OF Cons.prems(1), of t]
    by (auto simp: CheckAndAdd_eq distinct_update split: if_splits)
  have later: "t \<le> fst ((call # calls) ! j)"
    using Cons.prems(3,4) by (cases j) (auto simp: call)
  show ?case
  proof (cases "map_of (cache (purged t nc)) k")
    case None
    \<comment> \<open>purged now, so it had expired, and every later time is later still\<close>
    with purged_lookup [OF Cons.prems(1,2), of t] have "ttl nc < t - t0" by simp
    with later show ?thesis by simp
  next
    case (Some t1)
    then have t1: "t1 = t0"
      using purged_lookup [OF Cons.prems(1,2), of t] by simp
    have nc': "map_of (cache nc') k = Some t0"
      using step Some t1 by (auto simp: CheckAndAdd_eq update_conv' split: if_splits)
    show ?thesis
    proof (cases j)
      case 0
      with Cons.prems(5,6) step Some show ?thesis
        by (auto simp: call CheckAndAdd_eq split: if_splits)
    next
      case (Suc j')
      with Cons.prems(3-6) Cons.IH [OF wf' nc', of j'] step ttl' show ?thesis
        by (simp add: call)
    qed
  qed
qed simp

lemma check_all_accepted_gap:
  assumes "distinct (map fst (cache nc))" "sorted (map fst calls)" "i < j" "j < length calls"
    and "check_all calls nc ! i" "check_all calls nc ! j"
    and "fst (snd (calls ! i)) @ snd (snd (calls ! i)) = fst (snd (calls ! j)) @ snd (snd (calls ! j))"
  shows "ttl nc < fst (calls ! j) - fst (calls ! i)"
  using assms
proof (induction calls arbitrary: nc i j)
  case (Cons call calls)
  obtain t a n where call: "call = (t, a, n)" by (cases call)
  obtain nc' b where step: "CheckAndAdd t a n nc = (nc', b)" by fastforce
  have wf': "distinct (map fst (cache nc'))" and ttl': "ttl nc' = ttl nc"
    using step distinct_purged [OF Cons.prems(1), of t]
    by (auto simp: CheckAndAdd_eq distinct_update split: if_splits)
  obtain j' where j: "j = Suc j'" using Cons.prems(3) by (cases j) auto
  show ?case
  proof (cases i)
    case 0
    then have "map_of (cache nc') (a @ n) = Some t"
      using Cons.prems(5) step by (auto simp: call CheckAndAdd_eq update_conv' split: if_splits)
    from check_all_gap [OF wf' this, of calls j'] Cons.prems j 0 step ttl' show ?thesis
      by (simp add: call)
  next
    case (Suc i')
    with Cons.IH [OF wf', of i' j'] Cons.prems j step ttl' show ?thesis
      by (simp add: call)
  qed
qed simp

section \<open>Properties\<close>

text \<open>
  Identity hashes survive their text form: formatting gives two characters per byte and
  parsing gives the bytes back; a string parses exactly when its length is even and all its
  characters are hexadecimal digits of either case, and formatting the result gives the
  string in lower case. Parsing never panics.
\<close>

theorem idhash_text_roundtrip:
  "ParseIDHash (FormatIDHash hash) = Ok hash
   \<and> length (FormatIDHash hash) = 2 * length hash
   \<and> (is_ok (ParseIDHash s) \<longleftrightarrow> even (length s) \<and> list_all (\<lambda>ch. fromHexChar ch \<noteq> None) s)
   \<and> (case ParseIDHash s of Ok h \<Rightarrow> FormatIDHash h = map to_lower s | Err e \<Rightarrow> True | Panic p \<Rightarrow> False)"
  using hex_Decode_no_panic [of s] hex_Encode_Decode [of s]
  by (auto simp: ParseIDHash_def FormatIDHash_def hex_Decode_Encode hex_Decode_ok list_all_iff
      simp del: hex_Decode_no_panic split: res.splits)

text \<open>
  C16. The exchange proves possession, used as its parameters are named. The verifier gets
  the prover's encrypted public key, whose hash is the one it expects, and draws a nonce \<open>n\<close>;
  the prover answers the encrypted nonce; and checking the answer against the plaintext nonce,
  with the same channel binding and session id on both sides, succeeds and sets the flag.
\<close>

theorem challenge_response_succeeds:
  assumes laws: "aead_laws c" "sig_laws c" "hash_laws c"
    and kp: "GenerateMLDSAKeypair c r0 = (r1, Ok kp)"
    and P: "sessionKey P = key" "myDSAKeypair P = Some kp"
    and V: "sessionKey V = key" "ComputeIDHash c (dsa_Public kp) = Ok (peerIDHash V)"
    and enc: "AESGCMEncrypt c key (dsa_Public kp) r2 = (r3, Ok encPub)"
  shows "\<exists>V1 V2 chal resp.
      HandlePeerIdentity c encPub (V, Some n # Some x # rV) = ((V1, rV), Ok chal)
    \<and> HandleChallenge c chal cb sid (P, Some y # rP) = ((P, rP), Ok resp)
    \<and> VerifyResponse c resp (fit 32 n) cb sid (V1, rV) = ((V2, rV), Ok True)
    \<and> IsVerified V2 \<and> peerDSAPubkey V2 = dsa_Public kp"
proof -
  have key: "length key = 32" using enc by (rule AESGCMEncrypt_Ok)
  obtain chal where chal: "AESGCMEncrypt c key (fit 32 n) (Some x # rV) = (rV, Ok chal)"
    using AESGCMEncrypt_Some [OF key, of "fit 32 n" c x rV] by (simp add: gcm_max_def)
  obtain sig where sig: "MLDSASign c (dsa_Private kp) (fit 32 n @ cb @ sid) = Ok sig" "length sig = 64"
    using MLDSASign_generated [OF laws(2) kp] by metis
  obtain resp where resp: "AESGCMEncrypt c key sig (Some y # rP) = (rP, Ok resp)"
    using AESGCMEncrypt_Some [OF key, of sig c y rP] sig(2) by (simp add: gcm_max_def)
  let ?V1 = "V\<lparr>peerDSAPubkey := dsa_Public kp\<rparr>"
  have "HandlePeerIdentity c encPub (V, Some n # Some x # rV) = ((?V1, rV), Ok chal)"
    using aesgcm.unseal_seal [OF laws(1) enc] chal by (simp add: ix_eqs V)
  moreover have "HandleChallenge c chal cb sid (P, Some y # rP) = ((P, rP), Ok resp)"
    using aesgcm.unseal_seal [OF laws(1) chal] sig(1) resp by (simp add: ix_eqs P)
  moreover have "VerifyResponse c resp (fit 32 n) cb sid (?V1, rV) = ((?V1\<lparr>isVerified := True\<rparr>, rV), Ok True)"
    using aesgcm.unseal_seal [OF laws(1) resp] MLDSAVerify_Sign [OF laws(2) kp sig(1)]
    by (simp add: ix_eqs V)
  ultimately show ?thesis
    by (auto simp: IsVerified_def)
qed

theorem challenge_response_succeeds_witness:
  "\<exists>V1 chal. HandlePeerIdentity demo_lib
      (fit 12 [3] @ lib_seal demo_lib (replicate 32 7) (fit 12 [3]) (fit 32 [5]))
      (NewIdentityExchange (replicate 32 7) None (demo_digest (fit 32 [5])), [Some [1], Some [2]])
     = ((V1, []), Ok chal)"
proof -
  let ?key = "replicate 32 7 :: bytes"
  let ?kp = "\<lparr>dsa_Public = fit 32 [5], dsa_Private = fit 32 [5] @ fit 32 [5]\<rparr>"
  have kp: "GenerateMLDSAKeypair demo_lib [Some [5]] = ([], Ok ?kp)"
    by (simp add: mldsa_defs st_bind_def demo_lib_def)
  have enc: "AESGCMEncrypt demo_lib ?key (dsa_Public ?kp) [Some [3]] =
      ([], Ok (fit 12 [3] @ lib_seal demo_lib ?key (fit 12 [3]) (fit 32 [5])))"
    using AESGCMEncrypt_Some [of ?key "dsa_Public ?kp" demo_lib "[3]" "[]"] by (simp add: gcm_max_def)
  have hash: "ComputeIDHash demo_lib (dsa_Public ?kp) =
      Ok (peerIDHash (NewIdentityExchange ?key None (demo_digest (fit 32 [5]))))"
    unfolding ComputeIDHash_eq [OF demo_laws(4)] by (simp add: NewIdentityExchange_def demo_lib_def)
  from challenge_response_succeeds [OF demo_laws(2-4) kp _ _ _ hash enc,
      where P = "NewIdentityExchange ?key (Some ?kp) []" and n = "[1]" and x = "[2]" and rV = "[]"
        and y = "[4]" and rP = "[]" and cb = "[]" and sid = "[]"]
  show ?thesis by (auto simp: NewIdentityExchange_def)
qed

text \<open>
  C6. What the flag means. In every exchange reachable from a new one, by any calls with any
  data and randomness, a set flag implies that the stored public key hashes to the identity
  the exchange was created for; the session key, our key pair and the expected hash never
  change; and the flag is never cleared again, not even by a later failed verification.
\<close>

theorem verified_means_hash_matches:
  assumes "(ix_step c)\<^sup>*\<^sup>* (NewIdentityExchange key kp idh) e"
  shows "(IsVerified e \<longrightarrow> ComputeIDHash c (peerDSAPubkey e) = Ok idh)
    \<and> peerIDHash e = idh \<and> sessionKey e = key \<and> myDSAKeypair e = kp
    \<and> (\<forall>e'. (ix_step c)\<^sup>*\<^sup>* e e' \<longrightarrow> IsVerified e \<longrightarrow> IsVerified e')"
  using ix_inv_reachable [OF assms] isVerified_stays [of c e]
  by (auto simp: ix_inv_def IsVerified_def NewIdentityExchange_def)

theorem verified_means_hash_matches_witness:
  "\<not> IsVerified (NewIdentityExchange [] None []) \<and> peerIDHash (NewIdentityExchange [] None [7]) = [7]"
proof -
  have "(ix_step demo_lib)\<^sup>*\<^sup>* (NewIdentityExchange [] None [7]) (NewIdentityExchange [] None [7])"
    by simp
  from verified_means_hash_matches [OF this] show ?thesis
    by (simp add: IsVerified_def NewIdentityExchange_def)
qed

text \<open>
  When a response is accepted: it opens under the session key to a 64-byte signature that
  the library verifies, for the stored 32-byte key, over the concatenation of nonce, channel
  binding and session id. Only that concatenation counts, not where one part ends and the
  next begins; the flag is set exactly then; and without a stored key the call is an error.
\<close>

theorem response_accepted_iff:
  "(snd (VerifyResponse c resp nonce cb sid (e, r)) = Ok True \<longleftrightarrow>
      (\<exists>sig. AESGCMDecrypt c (sessionKey e) resp = Ok sig \<and> length sig = 64 \<and>
         length (peerDSAPubkey e) = 32 \<and>
         lib_ed_verify c (peerDSAPubkey e) (nonce @ cb @ sid) sig))
   \<and> (IsVerified (fst (fst (VerifyResponse c resp nonce cb sid (e, r)))) \<longleftrightarrow>
      IsVerified e \<or> snd (VerifyResponse c resp nonce cb sid (e, r)) = Ok True)
   \<and> (peerDSAPubkey e = [] \<and> is_ok (AESGCMDecrypt c (sessionKey e) resp) \<longrightarrow>
      snd (VerifyResponse c resp nonce cb sid (e, r)) =
        Err (ErrMsg ''invalid public key size: expected 32 bytes''))"
  by (cases "AESGCMDecrypt c (sessionKey e) resp") (auto simp: ix_eqs MLDSAVerify_eq IsVerified_def)

theorem response_accepted_iff_witness:
  "snd (VerifyResponse demo_lib (fit 12 [] @ lib_seal demo_lib (replicate 32 7) (fit 12 []) []) [] [] []
     (NewIdentityExchange (replicate 32 7) None [], [])) =
     Err (ErrMsg ''invalid public key size: expected 32 bytes'')"
proof -
  let ?e = "NewIdentityExchange (replicate 32 7) None []"
  let ?resp = "fit 12 [] @ lib_seal demo_lib (replicate 32 7) (fit 12 []) []"
  have "AESGCMEncrypt demo_lib (replicate 32 7) [] [Some []] = ([], Ok ?resp)"
    by (rule AESGCMEncrypt_Some) simp_all
  from aesgcm.unseal_seal [OF demo_laws(2) this]
  have "is_ok (AESGCMDecrypt demo_lib (sessionKey ?e) ?resp)"
    by (simp add: NewIdentityExchange_def)
  moreover have "peerDSAPubkey ?e = []"
    by (simp add: NewIdentityExchange_def)
  ultimately show ?thesis
    using response_accepted_iff [of demo_lib ?resp "[]" "[]" "[]" ?e "[]"] by blast
qed

text \<open>
  C24. The replay window of the nonce cache. In any sequence of calls at non-decreasing times,
  a nonce that was accepted once is accepted again only more than the time-to-live later,
  however often it is tried in between and whatever the clean-up removes.
\<close>

theorem nonce_accepted_once_per_ttl:
  assumes "sorted (map fst calls)" and "i < j" and "j < length calls"
    and "snd (calls ! i) = snd (calls ! j)"
    and "check_all calls (NewNonceCache t) ! i" and "check_all calls (NewNonceCache t) ! j"
  shows "t < fst (calls ! j) - fst (calls ! i)"
  using check_all_accepted_gap [of "NewNonceCache t" calls i j] assms
  by (simp add: NewNonceCache_def)

theorem nonce_accepted_once_per_ttl_witness:
  "check_all [(0, [1], [2]), (3, [1], [2])] (NewNonceCache 10) = [True, False]"
proof -
  let ?calls = "[(0, [1], [2]), (3, [1], [2])] :: (int \<times> bytes \<times> bytes) list"
  let ?res = "check_all ?calls (NewNonceCache 10)"
  have "\<not> ?res ! 1" if "?res ! 0"
    using nonce_accepted_once_per_ttl [of ?calls 0 1 10] that by auto
  moreover have "?res ! 0" and "length ?res = 2"
    by (simp_all add: CheckAndAdd_def NewNonceCache_def)
  ultimately show ?thesis
    by (auto simp: list_eq_iff_nth_eq less_2_cases_iff)
qed

end
