(* ===== verification/Conn.thy ===== *)
theory Conn
  imports Fragment
begin

text \<open>
  The connections the protocol runs over, after \<open>pkg/transport/client.go\<close> and
  \<open>pkg/transport/direct.go\<close>: \<open>WebSocketConn\<close>, \<open>DirectConn\<close> and \<open>DirectServer\<close>.

  The WebSocket package is not part of the repository. It is the parameter \<open>websocket\<close>, a
  record of the calls the source makes, and \<open>ws_laws\<close> states what the two connection types
  rely on in terms of what a connection has sent and what is waiting to be read. Both types
  are shown to be a \<open>transport\<close>, so the delivery lemmas of the fragmentation apply to them.
  The server's listener and the HTTP server are the parameter \<open>network\<close>.
\<close>

section \<open>The WebSocket library\<close>

record 'w websocket =
  ws_WriteMessage :: "int \<Rightarrow> bytes \<Rightarrow> ('w, unit) st"
  ws_ReadMessage :: "'w \<Rightarrow> ('w \<times> (int \<times> bytes) res) option"
  ws_SetReadDeadline :: "int \<Rightarrow> 'w \<Rightarrow> 'w"
  ws_Close :: "('w, unit) st"
  ws_RemoteAddr :: "'w \<Rightarrow> string"

text \<open>The opcode of a binary frame in RFC 6455.\<close>

definition BinaryMessage :: int where "BinaryMessage = 2"

text \<open>
  Views of a connection, not fields of it: the packets sent, the frames that will arrive in time
  for the reads that take them, and the read deadline. A read that finds no frame fails when the
  deadline passes; without a deadline it waits for ever, and \<open>ws_ReadMessage\<close> is \<open>None\<close>. Closing
  sends nothing.
\<close>

record 'w ws_view =
  ws_live :: "'w \<Rightarrow> bool"
  ws_sent :: "'w \<Rightarrow> bytes list"
  ws_waiting :: "'w \<Rightarrow> (int \<times> bytes) list"
  ws_deadline :: "'w \<Rightarrow> int option"

definition ws_laws :: "'w websocket \<Rightarrow> 'w ws_view \<Rightarrow> bool" where
  "ws_laws lib v \<longleftrightarrow>
     (\<forall>w p. ws_live v w \<longrightarrow> (\<exists>w'. ws_WriteMessage lib BinaryMessage p w = (w', Ok ()) \<and> ws_live v w' \<and>
        ws_sent v w' = ws_sent v w @ [p] \<and> ws_waiting v w' = ws_waiting v w)) \<and>
     (\<forall>w t p ms. ws_live v w \<longrightarrow> ws_waiting v w = (t, p) # ms \<longrightarrow>
        (\<exists>w'. ws_ReadMessage lib w = Some (w', Ok (t, p)) \<and> ws_live v w' \<and>
          ws_sent v w' = ws_sent v w \<and> ws_waiting v w' = ms)) \<and>
     (\<forall>w. ws_live v w \<longrightarrow> ws_waiting v w = [] \<longrightarrow>
        (if ws_deadline v w = None then ws_ReadMessage lib w = None
         else \<exists>w' e. ws_ReadMessage lib w = Some (w', Err e) \<and> ws_sent v w' = ws_sent v w)) \<and>
     (\<forall>d w. ws_live v (ws_SetReadDeadline lib d w) = ws_live v w \<and>
        ws_sent v (ws_SetReadDeadline lib d w) = ws_sent v w \<and>
        ws_waiting v (ws_SetReadDeadline lib d w) = ws_waiting v w \<and>
        ws_deadline v (ws_SetReadDeadline lib d w) = Some d) \<and>
     (\<forall>w. ws_sent v (fst (ws_Close lib w)) = ws_sent v w)"

lemma ws_law_facts:
  assumes "ws_laws lib v"
  shows "ws_live v w \<Longrightarrow> \<exists>w'. ws_WriteMessage lib BinaryMessage p w = (w', Ok ()) \<and> ws_live v w' \<and>
      ws_sent v w' = ws_sent v w @ [p] \<and> ws_waiting v w' = ws_waiting v w"
    and "ws_live v w \<Longrightarrow> ws_waiting v w = (t, p) # ms \<Longrightarrow>
      \<exists>w'. ws_ReadMessage lib w = Some (w', Ok (t, p)) \<and> ws_live v w' \<and>
        ws_sent v w' = ws_sent v w \<and> ws_waiting v w' = ms"
    and "ws_live v w \<Longrightarrow> ws_waiting v w = [] \<Longrightarrow> ws_deadline v w = Some d \<Longrightarrow>
      \<exists>w' e. ws_ReadMessage lib w = Some (w', Err e) \<and> ws_sent v w' = ws_sent v w"
    and "ws_live v (ws_SetReadDeadline lib d w) = ws_live v w"
    and "ws_sent v (ws_SetReadDeadline lib d w) = ws_sent v w"
    and "ws_waiting v (ws_SetReadDeadline lib d w) = ws_waiting v w"
    and "ws_sent v (fst (ws_Close lib w)) = ws_sent v w"
    and "ws_deadline v (ws_SetReadDeadline lib d w) = Some d"
proof -
  assume live: "ws_live v w" "ws_waiting v w = []" "ws_deadline v w = Some d"
  have "\<forall>w. ws_live v w \<longrightarrow> ws_waiting v w = [] \<longrightarrow>
      (if ws_deadline v w = None then ws_ReadMessage lib w = None
       else \<exists>w' e. ws_ReadMessage lib w = Some (w', Err e) \<and> ws_sent v w' = ws_sent v w)"
    using assms unfolding ws_laws_def by (elim conjE)
  from this [rule_format, OF live(1,2)] live(3)
  show "\<exists>w' e. ws_ReadMessage lib w = Some (w', Err e) \<and> ws_sent v w' = ws_sent v w" by simp
qed (use assms in \<open>unfold ws_laws_def, (elim conjE, blast)+\<close>)

section \<open>client.go\<close>

text \<open>A nil \<open>conn\<close> is a closed connection.\<close>

record 'w WebSocketConn =
  conn :: "'w option"

definition NewWebSocketConn :: "'w \<Rightarrow> 'w WebSocketConn" where
  "NewWebSocketConn w = \<lparr>conn = Some w\<rparr>"

text \<open>\<open>time.Now().Add(5 * time.Minute)\<close>, in nanoseconds.\<close>

definition read_deadline :: "int \<Rightarrow> int" where
  "read_deadline now = now + 5 * 60 * 1000000000"

definition WebSocketConn_Send :: "'w websocket \<Rightarrow> bytes \<Rightarrow> ('w WebSocketConn, unit) st" where
  "WebSocketConn_Send lib data ws = (case conn ws of
      None \<Rightarrow> (ws, Err (ErrMsg ''connection closed''))
    | Some w \<Rightarrow> (case ws_WriteMessage lib BinaryMessage data w of (w', x) \<Rightarrow> (ws\<lparr>conn := Some w'\<rparr>, x)))"

definition WebSocketConn_Recv ::
  "'w websocket \<Rightarrow> int \<Rightarrow> 'w WebSocketConn \<Rightarrow> ('w WebSocketConn \<times> bytes res) option" where
  "WebSocketConn_Recv lib now ws = (case conn ws of
      None \<Rightarrow> Some (ws, Err (ErrMsg ''connection closed''))
    | Some w \<Rightarrow> (case ws_ReadMessage lib (ws_SetReadDeadline lib (read_deadline now) w) of
        None \<Rightarrow> None
      | Some (w', Err e) \<Rightarrow> Some (ws\<lparr>conn := Some w'\<rparr>, Err e)
      | Some (w', Panic p) \<Rightarrow> Some (ws\<lparr>conn := Some w'\<rparr>, Panic p)
      | Some (w', Ok (msgType, data)) \<Rightarrow> Some (ws\<lparr>conn := Some w'\<rparr>,
          if msgType \<noteq> BinaryMessage
          then Err (ErrMsg (''unexpected message type: '' @ go_itoa msgType)) else Ok data)))"

definition WebSocketConn_Close :: "'w websocket \<Rightarrow> ('w WebSocketConn, unit) st" where
  "WebSocketConn_Close lib ws = (case conn ws of
      None \<Rightarrow> (ws, Ok ())
    | Some w \<Rightarrow> (ws\<lparr>conn := None\<rparr>, snd (ws_Close lib w)))"

definition WebSocketConn_RemoteAddr :: "'w websocket \<Rightarrow> 'w WebSocketConn \<Rightarrow> string" where
  "WebSocketConn_RemoteAddr lib ws = (case conn ws of Some w \<Rightarrow> ws_RemoteAddr lib w | None \<Rightarrow> '''')"

definition WebSocketConn_IsClosed :: "'w WebSocketConn \<Rightarrow> bool" where
  "WebSocketConn_IsClosed ws \<longleftrightarrow> conn ws = None"

section \<open>direct.go: connections\<close>

record 'w DirectConn =
  wsConn :: "'w option"
  closed :: bool

definition NewDirectConn :: "'w \<Rightarrow> 'w DirectConn" where
  "NewDirectConn w = \<lparr>wsConn = Some w, closed = False\<rparr>"

definition DirectConn_Send :: "'w websocket \<Rightarrow> bytes \<Rightarrow> ('w DirectConn, unit) st" where
  "DirectConn_Send lib data dc = (case (closed dc, wsConn dc) of
      (False, Some w) \<Rightarrow>
        (case ws_WriteMessage lib BinaryMessage data w of (w', x) \<Rightarrow> (dc\<lparr>wsConn := Some w'\<rparr>, x))
    | _ \<Rightarrow> (dc, Err (ErrMsg ''connection closed'')))"

definition DirectConn_Recv ::
  "'w websocket \<Rightarrow> int \<Rightarrow> 'w DirectConn \<Rightarrow> ('w DirectConn \<times> bytes res) option" where
  "DirectConn_Recv lib now dc = (case (closed dc, wsConn dc) of
      (False, Some w) \<Rightarrow> (case ws_ReadMessage lib (ws_SetReadDeadline lib (read_deadline now) w) of
          None \<Rightarrow> None
        | Some (w', Err e) \<Rightarrow> Some (dc\<lparr>wsConn := Some w'\<rparr>, Err e)
        | Some (w', Panic p) \<Rightarrow> Some (dc\<lparr>wsConn := Some w'\<rparr>, Panic p)
        | Some (w', Ok (msgType, data)) \<Rightarrow> Some (dc\<lparr>wsConn := Some w'\<rparr>,
            if msgType \<noteq> BinaryMessage
            then Err (ErrMsg (''unexpected message type: '' @ go_itoa msgType)) else Ok data))
    | _ \<Rightarrow> Some (dc, Err (ErrMsg ''connection closed'')))"

definition DirectConn_Close :: "'w websocket \<Rightarrow> ('w DirectConn, unit) st" where
  "DirectConn_Close lib dc =
     (if closed dc then (dc, Ok ())
      else let dc = dc\<lparr>closed := True\<rparr>
      in case wsConn dc of
           Some w \<Rightarrow> (case ws_Close lib w of (w', x) \<Rightarrow> (dc\<lparr>wsConn := Some w'\<rparr>, x))
         | None \<Rightarrow> (dc, Ok ()))"

definition DirectConn_IsClosed :: "'w DirectConn \<Rightarrow> bool" where
  "DirectConn_IsClosed dc \<longleftrightarrow> closed dc"

definition DirectConn_RemoteAddr :: "'w websocket \<Rightarrow> 'w DirectConn \<Rightarrow> string" where
  "DirectConn_RemoteAddr lib dc = (case wsConn dc of Some w \<Rightarrow> ws_RemoteAddr lib w | None \<Rightarrow> '''')"

section \<open>direct.go: the server\<close>

text \<open>
  The network and the HTTP server are parameters as well: listening and loading a certificate
  give a listener or an error; \<open>http_Serve\<close> are the requests that arrive at a listener, and
  \<open>http_Upgrade\<close> turns a request into a connection, after asking the upgrader's \<open>CheckOrigin\<close>.
  \<open>OnConnect\<close> is the effect of the callback on the variables it has captured and on the
  connection it is given; there is no connection left when the callback did not end normally
  (the HTTP server recovers its panics).
\<close>

record ('l, 'k, 'q, 'w) network =
  net_Listen :: "string \<Rightarrow> 'l res"
  tls_Listen :: "string \<Rightarrow> 'k \<Rightarrow> 'l res"
  tls_LoadX509KeyPair :: "string \<Rightarrow> string \<Rightarrow> 'k res"
  listener_Close :: "'l \<Rightarrow> unit res"
  http_Serve :: "'l \<Rightarrow> 'q list"
  http_Upgrade :: "('q \<Rightarrow> bool) \<Rightarrow> 'q \<Rightarrow> 'w res"

record ('l, 'q, 'w, 's) DirectServer =
  listener :: "'l option"
  CheckOrigin :: "'q \<Rightarrow> bool"
  OnConnect :: "('w \<Rightarrow> 's \<Rightarrow> 's \<times> 'w option) option"

definition DefaultPort :: int where "DefaultPort = 18080"

definition NewDirectServer :: "('l, 'q, 'w, 's) DirectServer" where
  "NewDirectServer = \<lparr>listener = None, CheckOrigin = (\<lambda>_. True), OnConnect = None\<rparr>"

text \<open>
  \<open>s.listener, err = net.Listen(...)\<close> stores nil when it fails. When they succeed, both
  functions start \<open>acceptConnections\<close> below as a goroutine.
\<close>

definition Start :: "('l, 'k, 'q, 'w) network \<Rightarrow> string \<Rightarrow> (('l, 'q, 'w, 's) DirectServer, unit) st" where
  "Start net addr s = (case net_Listen net addr of
      Ok l \<Rightarrow> (s\<lparr>listener := Some l\<rparr>, Ok ())
    | Err e \<Rightarrow> (s\<lparr>listener := None\<rparr>, Err (ErrWrap (''failed to listen on '' @ addr) e))
    | Panic p \<Rightarrow> (s, Panic p))"

definition StartTLS ::
  "('l, 'k, 'q, 'w) network \<Rightarrow> string \<Rightarrow> string \<Rightarrow> string \<Rightarrow> (('l, 'q, 'w, 's) DirectServer, unit) st" where
  "StartTLS net addr certFile keyFile s = (case tls_LoadX509KeyPair net certFile keyFile of
      Err e \<Rightarrow> (s, Err (ErrWrap ''failed to load TLS key pair'' e))
    | Panic p \<Rightarrow> (s, Panic p)
    | Ok cert \<Rightarrow> (case tls_Listen net addr cert of
        Err e \<Rightarrow> (s, Err (ErrWrap (''failed to listen on '' @ addr) e))
      | Panic p \<Rightarrow> (s, Panic p)
      | Ok ln \<Rightarrow> (s\<lparr>listener := Some ln\<rparr>, Ok ())))"

definition handleWebSocket ::
  "'w websocket \<Rightarrow> ('l, 'k, 'q, 'w) network \<Rightarrow> ('l, 'q, 'w, 's) DirectServer \<Rightarrow>
     'q \<Rightarrow> 's \<Rightarrow> 's \<times> 'w option" where
  "handleWebSocket lib net s r vars = (case http_Upgrade net (CheckOrigin s) r of
      Ok w \<Rightarrow> (case OnConnect s of Some f \<Rightarrow> f w vars | None \<Rightarrow> (vars, Some (fst (ws_Close lib w))))
    | _ \<Rightarrow> (vars, None))"

text \<open>
  The handlers of the requests share the captured variables. They run in goroutines of their
  own; the model runs them in the order of the requests, each to its end. The accept loop is
  only started once there is a listener.
\<close>

fun serve_requests :: "('q \<Rightarrow> 's \<Rightarrow> 's \<times> 'c) \<Rightarrow> 'q list \<Rightarrow> 's \<Rightarrow> 's \<times> 'c list" where
  "serve_requests handler [] vars = (vars, [])"
| "serve_requests handler (r # rs) vars = (case handler r vars of (vars, x) \<Rightarrow>
     (case serve_requests handler rs vars of (vars, xs) \<Rightarrow> (vars, x # xs)))"

definition acceptConnections ::
  "'w websocket \<Rightarrow> ('l, 'k, 'q, 'w) network \<Rightarrow> ('l, 'q, 'w, 's) DirectServer \<Rightarrow>
     's \<Rightarrow> 's \<times> 'w option list" where
  "acceptConnections lib net s =
     serve_requests (handleWebSocket lib net s) (case listener s of Some l \<Rightarrow> http_Serve net l | None \<Rightarrow> [])"

definition Stop :: "('l, 'k, 'q, 'w) network \<Rightarrow> ('l, 'q, 'w, 's) DirectServer \<Rightarrow> unit res" where
  "Stop net s = (case listener s of Some l \<Rightarrow> listener_Close net l | None \<Rightarrow> Ok ())"

section \<open>Both connections are transports\<close>

definition ws_transport :: "'w websocket \<Rightarrow> int \<Rightarrow> 'w WebSocketConn Transport" where
  "ws_transport lib now = \<lparr>tr_Send = WebSocketConn_Send lib, tr_Recv = WebSocketConn_Recv lib now\<rparr>"

definition direct_transport :: "'w websocket \<Rightarrow> int \<Rightarrow> 'w DirectConn Transport" where
  "direct_transport lib now = \<lparr>tr_Send = DirectConn_Send lib, tr_Recv = DirectConn_Recv lib now\<rparr>"

text \<open>A connection is up when it is open, the library's part is live and all frames are binary.\<close>

definition frames_binary :: "'w ws_view \<Rightarrow> 'w \<Rightarrow> bool" where
  "frames_binary v w \<longleftrightarrow> (\<forall>m \<in> set (ws_waiting v w). fst m = BinaryMessage)"

definition ws_up :: "'w websocket \<Rightarrow> 'w ws_view \<Rightarrow> 'w WebSocketConn \<Rightarrow> bool" where
  "ws_up lib v c \<longleftrightarrow> ws_laws lib v \<and> (\<exists>w. conn c = Some w \<and> ws_live v w \<and> frames_binary v w)"

definition ws_out :: "'w ws_view \<Rightarrow> 'w WebSocketConn \<Rightarrow> bytes list" where
  "ws_out v c = (case conn c of None \<Rightarrow> [] | Some w \<Rightarrow> ws_sent v w)"

definition ws_in :: "'w ws_view \<Rightarrow> 'w WebSocketConn \<Rightarrow> bytes list" where
  "ws_in v c = (case conn c of None \<Rightarrow> [] | Some w \<Rightarrow> map snd (ws_waiting v w))"

definition direct_up :: "'w websocket \<Rightarrow> 'w ws_view \<Rightarrow> 'w DirectConn \<Rightarrow> bool" where
  "direct_up lib v c \<longleftrightarrow> ws_laws lib v \<and> \<not> closed c \<and>
     (\<exists>w. wsConn c = Some w \<and> ws_live v w \<and> frames_binary v w)"

definition direct_out :: "'w ws_view \<Rightarrow> 'w DirectConn \<Rightarrow> bytes list" where
  "direct_out v c = (case wsConn c of None \<Rightarrow> [] | Some w \<Rightarrow> ws_sent v w)"

definition direct_in :: "'w ws_view \<Rightarrow> 'w DirectConn \<Rightarrow> bytes list" where
  "direct_in v c = (case wsConn c of None \<Rightarrow> [] | Some w \<Rightarrow> map snd (ws_waiting v w))"

lemmas conn_defs = ws_transport_def direct_transport_def ws_up_def ws_out_def ws_in_def
  direct_up_def direct_out_def direct_in_def frames_binary_def
  WebSocketConn_Send_def WebSocketConn_Recv_def DirectConn_Send_def DirectConn_Recv_def

interpretation websocket_conn: transport "ws_transport lib now" "ws_up lib v" "ws_out v" "ws_in v"
  for lib now v
proof unfold_locales
  fix t p
  assume "ws_up lib v t"
  then obtain w where w: "ws_laws lib v" "conn t = Some w" "ws_live v w" "frames_binary v w"
    by (auto simp: ws_up_def)
  then show "\<exists>t'. tr_Send (ws_transport lib now) p t = (t', Ok ()) \<and> ws_up lib v t' \<and>
      ws_out v t' = ws_out v t @ [p] \<and> ws_in v t' = ws_in v t"
    using ws_law_facts(1) [OF w(1,3), of p] by (auto simp: conn_defs)
next
  fix t p ps
  assume "ws_up lib v t" and ps: "ws_in v t = p # ps"
  then obtain w where w: "ws_laws lib v" "conn t = Some w" "ws_live v w" "frames_binary v w"
    by (auto simp: ws_up_def)
  obtain ms where "ws_waiting v w = (BinaryMessage, p) # ms" "map snd ms = ps"
    using ps w(2,4) by (auto simp: ws_in_def frames_binary_def)
  then show "\<exists>t'. tr_Recv (ws_transport lib now) t = Some (t', Ok p) \<and> ws_up lib v t' \<and>
      ws_out v t' = ws_out v t \<and> ws_in v t' = ps"
    using w ws_law_facts(2) [OF w(1), of "ws_SetReadDeadline lib (read_deadline now) w" BinaryMessage p ms]
    by (auto simp: conn_defs ws_law_facts(4-6) [OF w(1)])
next
  fix t
  assume "ws_up lib v t" and none: "ws_in v t = []"
  then obtain w where w: "ws_laws lib v" "conn t = Some w" "ws_live v w" by (auto simp: ws_up_def)
  then show "\<exists>t' e. tr_Recv (ws_transport lib now) t = Some (t', Err e) \<and> ws_out v t' = ws_out v t"
    using none ws_law_facts(3) [OF w(1), of "ws_SetReadDeadline lib (read_deadline now) w"]
    by (auto simp: conn_defs ws_law_facts(4-6,8) [OF w(1)])
qed

interpretation direct_conn: transport "direct_transport lib now" "direct_up lib v" "direct_out v" "direct_in v"
  for lib now v
proof unfold_locales
  fix t p
  assume "direct_up lib v t"
  then obtain w where w: "ws_laws lib v" "wsConn t = Some w" "\<not> closed t" "ws_live v w" "frames_binary v w"
    by (auto simp: direct_up_def)
  then show "\<exists>t'. tr_Send (direct_transport lib now) p t = (t', Ok ()) \<and> direct_up lib v t' \<and>
      direct_out v t' = direct_out v t @ [p] \<and> direct_in v t' = direct_in v t"
    using ws_law_facts(1) [OF w(1,4), of p] by (auto simp: conn_defs)
next
  fix t p ps
  assume "direct_up lib v t" and ps: "direct_in v t = p # ps"
  then obtain w where w: "ws_laws lib v" "wsConn t = Some w" "\<not> closed t" "ws_live v w" "frames_binary v w"
    by (auto simp: direct_up_def)
  obtain ms where "ws_waiting v w = (BinaryMessage, p) # ms" "map snd ms = ps"
    using ps w(2,5) by (auto simp: direct_in_def frames_binary_def)
  then show "\<exists>t'. tr_Recv (direct_transport lib now) t = Some (t', Ok p) \<and> direct_up lib v t' \<and>
      direct_out v t' = direct_out v t \<and> direct_in v t' = ps"
    using w ws_law_facts(2) [OF w(1), of "ws_SetReadDeadline lib (read_deadline now) w" BinaryMessage p ms]
    by (auto simp: conn_defs ws_law_facts(4-6) [OF w(1)])
next
  fix t
  assume "direct_up lib v t" and none: "direct_in v t = []"
  then obtain w where w: "ws_laws lib v" "wsConn t = Some w" "\<not> closed t" "ws_live v w"
    by (auto simp: direct_up_def)
  then show "\<exists>t' e. tr_Recv (direct_transport lib now) t = Some (t', Err e) \<and> direct_out v t' = direct_out v t"
    using none ws_law_facts(3) [OF w(1), of "ws_SetReadDeadline lib (read_deadline now) w"]
    by (auto simp: conn_defs ws_law_facts(4-6,8) [OF w(1)])
qed

text \<open>A closed connection has sent what it had sent.\<close>

lemma DirectConn_Close_out:
  "ws_laws lib v \<Longrightarrow> direct_out v (fst (DirectConn_Close lib c)) = direct_out v c"
  using ws_law_facts(7) [of lib v]
  by (auto simp: DirectConn_Close_def direct_out_def Let_def split: option.splits prod.splits) (metis fst_conv)

section \<open>A library that satisfies the laws\<close>

text \<open>A connection as what was sent, the frames waiting to be read, and the deadline.\<close>

type_synonym pipe = "bytes list \<times> (int \<times> bytes) list \<times> int option"

definition pipe :: "(int \<times> bytes) list \<Rightarrow> pipe" where
  "pipe ms = ([], ms, None)"

definition demo_websocket :: "pipe websocket" where
  "demo_websocket = \<lparr>
     ws_WriteMessage = (\<lambda>t p (out, ms, d). ((out @ [p], ms, d), Ok ())),
     ws_ReadMessage = (\<lambda>(out, ms, d). case ms of
          m # ms \<Rightarrow> Some ((out, ms, d), Ok m)
        | [] \<Rightarrow> if d = None then None else Some ((out, [], d), Err (ErrLib ''i/o timeout''))),
     ws_SetReadDeadline = (\<lambda>d (out, ms, _). (out, ms, Some d)),
     ws_Close = (\<lambda>w. (w, Ok ())),
     ws_RemoteAddr = (\<lambda>w. ''peer'')\<rparr>"

definition demo_view :: "pipe ws_view" where
  "demo_view = \<lparr>ws_live = (\<lambda>w. True), ws_sent = fst, ws_waiting = (\<lambda>w. fst (snd w)),
     ws_deadline = (\<lambda>w. snd (snd w))\<rparr>"

lemma demo_view_simps [simp]:
  "ws_live demo_view w" "ws_sent demo_view (pipe ms) = []" "ws_waiting demo_view (pipe ms) = ms"
  by (simp_all add: demo_view_def pipe_def)

lemma demo_ws_laws [simp]: "ws_laws demo_websocket demo_view"
  by (auto simp: ws_laws_def demo_websocket_def demo_view_def)

lemma demo_up: "direct_up demo_websocket demo_view (NewDirectConn (pipe (map (Pair BinaryMessage) inc)))"
  by (auto simp: direct_up_def NewDirectConn_def frames_binary_def)

lemma demo_in_out [simp]:
  "direct_in demo_view (NewDirectConn (pipe (map (Pair BinaryMessage) inc))) = inc"
  "direct_out demo_view (NewDirectConn (pipe ms)) = []"
  by (simp_all add: direct_in_def direct_out_def NewDirectConn_def comp_def)

section \<open>Properties\<close>

text \<open>
  C9. A message arrives whole. What \<open>SendFragmented\<close> hands to a direct connection, delivered
  to the other end in any order, is received by one call as the same flag and data, for every
  fragment size and every message that needs fewer than 65536 fragments; the reassembly
  buffer holds afterwards what it held before, and later packets are left waiting.
\<close>

theorem fragments_delivered_in_any_order:
  assumes up: "direct_up lib v a" "direct_up lib v b" and size: "100 \<le> m" "fragment_count data m < 2 ^ 16"
    and send: "SendFragmented (direct_transport lib now) data flag (int m) rnd nano a = (a', Ok ())"
    and inc: "direct_in v b = ds @ rest" "direct_out v a' = direct_out v a @ es" "mset ds = mset es"
    and fresh: "(if rnd = 0 then word_of_int nano else rnd) \<notin> keys (fragments fb)"
      "length (fragments fb) < 100"
  shows "\<exists>b' fb'. ReceiveFragmented (direct_transport lib now') env k fb b = Some (b', fb', Ok (flag, data))
    \<and> direct_up lib v b' \<and> direct_in v b' = rest \<and> direct_out v b' = direct_out v b
    \<and> fragments fb' = fragments fb"
proof -
  let ?msgID = "if rnd = 0 then word_of_int nano else rnd"
  have "es = message_packets flag ?msgID data m"
    using direct_conn.SendFragmented_sends [OF up(1) size(1), where now = now and data = data
        and flag = flag and rnd = rnd and nano = nano] send inc(2) by auto
  with inc(3) have ds: "mset ds = mset (message_packets flag ?msgID data m)" by simp
  have "0 < m" using size(1) by simp
  from direct_conn.receive_message_packets [OF up(2) inc(1) ds this size(2) fresh]
  show ?thesis .
qed

theorem fragments_delivered_in_any_order_witness:
  "\<forall>env. \<exists>ds b' fb'. length ds = 2 \<and>
     ReceiveFragmented (direct_transport demo_websocket 0) env 0 (NewFragmentBuffer 9 0)
       (NewDirectConn (pipe (map (Pair BinaryMessage) (rev ds)))) = Some (b', fb', Ok (0x10, replicate 150 7))"
proof
  fix env
  let ?data = "replicate 150 7 :: bytes" and ?a = "NewDirectConn (pipe (map (Pair BinaryMessage) []))"
  let ?es = "message_packets 0x10 5 ?data 100"
  obtain a' where a': "SendFragmented (direct_transport demo_websocket 0) ?data 0x10 (int 100) 5 0 ?a = (a', Ok ())"
      "direct_out demo_view a' = direct_out demo_view ?a @ ?es"
    using direct_conn.SendFragmented_sends [OF demo_up [of "[]"], where m = 100 and now = 0 and data = ?data
        and flag = "0x10" and rnd = 5 and nano = 0] by auto
  have len: "length ?es = 2"
    by (simp add: message_packets_def fragment_count_def Let_def)
  have fc: "fragment_count ?data 100 < 2 ^ 16" by (simp add: fragment_count_def)
  obtain b' fb' where "ReceiveFragmented (direct_transport demo_websocket 0) env 0 (NewFragmentBuffer 9 0)
       (NewDirectConn (pipe (map (Pair BinaryMessage) (rev ?es)))) = Some (b', fb', Ok (0x10, ?data))"
    using fragments_delivered_in_any_order [OF demo_up demo_up [of "rev ?es"] _ fc a'(1) _ a'(2),
        where ds = "rev ?es" and rest = "[]"
        and fb = "NewFragmentBuffer 9 0" and now' = 0 and env = env and k = 0]
    by (auto simp: NewFragmentBuffer_def)
  with len show "\<exists>ds b' fb'. length ds = 2 \<and>
     ReceiveFragmented (direct_transport demo_websocket 0) env 0 (NewFragmentBuffer 9 0)
       (NewDirectConn (pipe (map (Pair BinaryMessage) (rev ds)))) = Some (b', fb', Ok (0x10, replicate 150 7))"
    by blast
qed

text \<open>
  C31. The number of fragments is kept in 16 bits. A message that needs a multiple of 65536
  fragments is reported as sent, but nothing is sent.
\<close>

theorem oversized_message_silently_dropped:
  assumes "direct_up lib v a" and "100 \<le> m" and "fragment_count data m mod 2 ^ 16 = 0"
  shows "\<exists>a'. SendFragmented (direct_transport lib now) data flag (int m) rnd nano a = (a', Ok ())
    \<and> direct_up lib v a' \<and> direct_out v a' = direct_out v a"
proof -
  have "(of_nat (fragment_count data m) :: u16) = 0"
    using assms(3) by (simp add: word_of_nat_eq_0_iff dvd_eq_mod_eq_0)
  then have "message_packets flag msgID data m = []" for msgID
    by (simp add: message_packets_def u16_range_def Let_def)
  then show ?thesis
    using direct_conn.SendFragmented_sends [OF assms(1,2), of now data flag rnd nano] by auto
qed

theorem oversized_message_silently_dropped_witness:
  "\<exists>a'. SendFragmented (direct_transport demo_websocket 0) (replicate 6553600 1) 0x01 100 5 0
      (NewDirectConn (pipe [])) = (a', Ok ()) \<and> direct_out demo_view a' = []"
proof -
  have "fragment_count (replicate 6553600 1) 100 mod 2 ^ 16 = 0" by (simp add: fragment_count_def)
  from oversized_message_silently_dropped [OF demo_up [of "[]"] _ this,
      where now = 0 and flag = "0x01" and rnd = 5 and nano = 0]
  show ?thesis by auto
qed

text \<open>
  C28. When the receive loop ends. \<open>Recv\<close> sets a deadline before every read, so on a connection of
  either kind a call of \<open>ReceiveFragmented\<close> returns once the peer falls silent, whatever packets it
  has sent: with a message, or with an error when the deadline passes. But the loop has no bound
  of its own: while a peer goes on repeating one fragment of a longer message, it never returns.
\<close>

theorem receive_loop_returns:
  assumes "direct_up lib v d" and "ws_up lib v w"
    and "fh_Total h \<noteq> 1" "\<forall>x. \<exists>x'. ws_ReadMessage endless x = Some (x', Ok (BinaryMessage, header_bytes h @ payload))"
  shows "(\<exists>d' fb' r. ReceiveFragmented (direct_transport lib now) env k fb d = Some (d', fb', r))
    \<and> (\<exists>w' fb' r. ReceiveFragmented (ws_transport lib now) env k fb w = Some (w', fb', r))
    \<and> ReceiveFragmented (direct_transport endless now) env k (NewFragmentBuffer tmo t0) (NewDirectConn x) = None
    \<and> ReceiveFragmented (ws_transport endless now) env k (NewFragmentBuffer tmo t0) (NewWebSocketConn x) = None"
proof (intro conjI)
  have empty: "fragments (NewFragmentBuffer tmo t0) = [] \<or>
      fragments (NewFragmentBuffer tmo t0) = [(fh_MsgID h, [(fh_Index h, payload)])]"
    by (simp add: NewFragmentBuffer_def)
  have recv: "\<exists>c'. DirectConn_Recv endless now c = Some (c', Ok (header_bytes h @ payload)) \<and>
      (\<not> closed c' \<and> wsConn c' \<noteq> None)" if c: "\<not> closed c \<and> wsConn c \<noteq> None" for c
  proof -
    obtain y where y: "\<not> closed c" "wsConn c = Some y" using c by blast
    obtain x' where "ws_ReadMessage endless (ws_SetReadDeadline endless (read_deadline now) y) =
        Some (x', Ok (BinaryMessage, header_bytes h @ payload))"
      using assms(4) by blast
    with y show ?thesis by (simp add: DirectConn_Recv_def)
  qed
  show "ReceiveFragmented (direct_transport endless now) env k (NewFragmentBuffer tmo t0) (NewDirectConn x) = None"
    by (rule ReceiveFragmented_endless [where P = "\<lambda>c. \<not> closed c \<and> wsConn c \<noteq> None", OF _ assms(3) _ empty])
      (use recv in \<open>simp_all add: direct_transport_def NewDirectConn_def\<close>)
  have recv: "\<exists>c'. WebSocketConn_Recv endless now c = Some (c', Ok (header_bytes h @ payload)) \<and> conn c' \<noteq> None"
    if c: "conn c \<noteq> None" for c
  proof -
    obtain y where y: "conn c = Some y" using c by blast
    obtain x' where "ws_ReadMessage endless (ws_SetReadDeadline endless (read_deadline now) y) =
        Some (x', Ok (BinaryMessage, header_bytes h @ payload))"
      using assms(4) by blast
    with y show ?thesis by (simp add: WebSocketConn_Recv_def)
  qed
  show "ReceiveFragmented (ws_transport endless now) env k (NewFragmentBuffer tmo t0) (NewWebSocketConn x) = None"
    by (rule ReceiveFragmented_endless [where P = "\<lambda>c. conn c \<noteq> None", OF _ assms(3) _ empty])
      (use recv in \<open>simp_all add: ws_transport_def NewWebSocketConn_def\<close>)
qed (rule direct_conn.ReceiveFragmented_returns [OF assms(1)],
  rule websocket_conn.ReceiveFragmented_returns [OF assms(2)])

theorem receive_loop_returns_witness:
  "\<forall>env. (\<exists>d' fb' r. ReceiveFragmented (direct_transport demo_websocket 0) env 0 (NewFragmentBuffer 9 0)
       (NewDirectConn (pipe (map (Pair BinaryMessage) [replicate 20 2]))) = Some (d', fb', r))
   \<and> ReceiveFragmented (direct_transport (demo_websocket\<lparr>ws_ReadMessage :=
         \<lambda>w. Some (w, Ok (BinaryMessage, header_bytes \<lparr>fh_Flag = 2, fh_Index = 0, fh_Total = 2,
           fh_MsgLen = 9, fh_MsgID = 7\<rparr> @ [5]))\<rparr>) 0) env 0 (NewFragmentBuffer 9 0)
       (NewDirectConn (pipe [])) = None"
proof
  fix env
  let ?h = "\<lparr>fh_Flag = 2, fh_Index = 0, fh_Total = 2, fh_MsgLen = 9, fh_MsgID = 7\<rparr>"
  let ?endless = "demo_websocket\<lparr>ws_ReadMessage := \<lambda>w. Some (w, Ok (BinaryMessage, header_bytes ?h @ [5]))\<rparr>"
  have up: "ws_up demo_websocket demo_view (NewWebSocketConn (pipe []))"
    by (simp add: ws_up_def NewWebSocketConn_def frames_binary_def)
  have tot: "fh_Total ?h \<noteq> 1" by simp
  have "\<forall>x. \<exists>x'. ws_ReadMessage ?endless x = Some (x', Ok (BinaryMessage, header_bytes ?h @ [5]))" by simp
  from receive_loop_returns [OF demo_up up tot this]
  show "(\<exists>d' fb' r. ReceiveFragmented (direct_transport demo_websocket 0) env 0 (NewFragmentBuffer 9 0)
       (NewDirectConn (pipe (map (Pair BinaryMessage) [replicate 20 2]))) = Some (d', fb', r))
   \<and> ReceiveFragmented (direct_transport ?endless 0) env 0 (NewFragmentBuffer 9 0) (NewDirectConn (pipe [])) = None"
    by blast
qed

text \<open>
  C25. Closing is final and may be repeated: after \<open>Close\<close>, whatever the library's close
  returned, either connection reports itself closed, sends and receives nothing and says so,
  and a second \<open>Close\<close> changes nothing and succeeds. A closed \<open>WebSocketConn\<close> has forgotten its
  peer's address; a closed \<open>DirectConn\<close> still has a library connection to ask.
\<close>

theorem close_is_final:
  "(let c' = fst (DirectConn_Close lib c) in
      DirectConn_IsClosed c' \<and> DirectConn_Close lib c' = (c', Ok ())
      \<and> DirectConn_Send lib data c' = (c', Err (ErrMsg ''connection closed''))
      \<and> DirectConn_Recv lib now c' = Some (c', Err (ErrMsg ''connection closed''))
      \<and> (wsConn c' = None \<longleftrightarrow> wsConn c = None))
   \<and> (let w' = fst (WebSocketConn_Close lib w) in
      WebSocketConn_IsClosed w' \<and> WebSocketConn_Close lib w' = (w', Ok ())
      \<and> WebSocketConn_Send lib data w' = (w', Err (ErrMsg ''connection closed''))
      \<and> WebSocketConn_Recv lib now w' = Some (w', Err (ErrMsg ''connection closed''))
      \<and> WebSocketConn_RemoteAddr lib w' = [])"
  by (simp add: DirectConn_Close_def DirectConn_IsClosed_def DirectConn_Send_def DirectConn_Recv_def
      WebSocketConn_Close_def WebSocketConn_IsClosed_def WebSocketConn_Send_def
      WebSocketConn_Recv_def WebSocketConn_RemoteAddr_def Let_def split: option.splits prod.splits)

end
