(* ===== verification/Client.thy ===== *)
theory Client
  imports Handshake Identity Conn
begin

text \<open>
  The client, after the first half of \<open>cmd/pqc-chart-tool/main.go\<close>: establishing a session as
  initiator and as responder, and the secure channel that results.

  A session runs over a connection, draws random numbers and uses the client's reassembly
  buffer: that is the \<open>session\<close> a step works on. A step may also fail to return (the receive
  loop), so it is a function into an option. The handshake and the identity exchange are
  local objects of the Go functions and are passed along explicitly. The calls of
  \<open>SendFragmented\<close> and \<open>ReceiveFragmented\<close> are numbered in program order; \<open>session_env\<close> says
  what the clock, \<open>math/rand\<close> and the map order give each of them. Log output is left out.

  The lemmas in the \<open>transport\<close> context show that a session returns once the peer falls silent,
  and what a run does: the key exchange with an honest peer, and the two halves of the identity
  exchange with a peer that sends what this code checks. \<open>peer_proved\<close> is the evidence that a run
  which ends in a channel has received on its way.
\<close>

section \<open>Steps of a session\<close>

record 't session =
  sn_rng :: rng
  sn_fb :: FragmentBuffer
  sn_conn :: 't

type_synonym ('t, 'a) sm = "'t session \<Rightarrow> ('t session \<times> 'a res) option"

record session_env =
  se_msgid :: "nat \<Rightarrow> u32"
  se_nano :: "nat \<Rightarrow> int"
  se_recv :: "nat \<Rightarrow> nat \<Rightarrow> recv_env"

definition sm_bind :: "('t, 'a) sm \<Rightarrow> ('a \<Rightarrow> ('t, 'b) sm) \<Rightarrow> ('t, 'b) sm" where
  "sm_bind m f s = (case m s of None \<Rightarrow> None
     | Some (s', r) \<Rightarrow> (case r of Ok a \<Rightarrow> f a s' | Err e \<Rightarrow> Some (s', Err e) | Panic p \<Rightarrow> Some (s', Panic p)))"

definition sm_res :: "'a res \<Rightarrow> ('t, 'a) sm" where
  "sm_res r s = Some (s, r)"

text \<open>A method of a local object: the result carries the changed object along.\<close>

definition call_meth :: "('o, 'a) meth \<Rightarrow> 'o \<Rightarrow> ('t, 'o \<times> 'a) sm" where
  "call_meth m h s = (case m (h, sn_rng s) of ((h', r'), x) \<Rightarrow>
     Some (s\<lparr>sn_rng := r'\<rparr>, go_bind x (\<lambda>a. Ok (h', a))))"

definition send_msg :: "'t Transport \<Rightarrow> session_env \<Rightarrow> nat \<Rightarrow> bytes \<Rightarrow> MessageFlag \<Rightarrow> ('t, unit) sm" where
  "send_msg tr env k data flag s =
     (case SendFragmented tr data flag 1400 (se_msgid env k) (se_nano env k) (sn_conn s) of
        (t', x) \<Rightarrow> Some (s\<lparr>sn_conn := t'\<rparr>, x))"

definition recv_msg :: "'t Transport \<Rightarrow> session_env \<Rightarrow> nat \<Rightarrow> ('t, MessageFlag \<times> bytes) sm" where
  "recv_msg tr env k s =
     (case ReceiveFragmented tr (se_recv env k) 0 (sn_fb s) (sn_conn s) of
        None \<Rightarrow> None
      | Some (t', fb', x) \<Rightarrow> Some (s\<lparr>sn_conn := t', sn_fb := fb'\<rparr>, x))"

definition send_identity :: "crypto_lib \<Rightarrow> 't Transport \<Rightarrow> IdentityExchange \<Rightarrow> ('t, unit) sm" where
  "send_identity c tr e s = (case SendIdentity c tr e (sn_rng s, sn_conn s) of
     ((r', t'), x) \<Rightarrow> Some (s\<lparr>sn_rng := r', sn_conn := t'\<rparr>, x))"

text \<open>A received message with another flag ends the session.\<close>

definition expect :: "MessageFlag \<Rightarrow> MessageFlag \<Rightarrow> unit res" where
  "expect flag wanted = (if flag \<noteq> wanted then Err (ErrMsg ''unexpected message type'') else Ok ())"

section \<open>The client\<close>

record PQCClient =
  identityKeypair :: MLDSAKeyPair
  myIDHash :: bytes
  relayURL :: string
  directAddr :: string
  fragmentBuffer :: FragmentBuffer

text \<open>\<open>5 * time.Minute\<close>.\<close>

definition fragment_timeout :: int where "fragment_timeout = 5 * 60 * 1000000000"

definition NewPQCClient :: "crypto_lib \<Rightarrow> MLDSAKeyPair \<Rightarrow> string \<Rightarrow> int \<Rightarrow> PQCClient res" where
  "NewPQCClient c kp url now = go_bind (ComputeIDHash c (dsa_Public kp)) (\<lambda>h.
     Ok \<lparr>identityKeypair = kp, myIDHash = h, relayURL = url, directAddr = [],
         fragmentBuffer = NewFragmentBuffer fragment_timeout now\<rparr>)"

definition NewPQCClientDirect :: "crypto_lib \<Rightarrow> MLDSAKeyPair \<Rightarrow> string \<Rightarrow> int \<Rightarrow> PQCClient res" where
  "NewPQCClientDirect c kp addr now = go_bind (ComputeIDHash c (dsa_Public kp)) (\<lambda>h.
     Ok \<lparr>identityKeypair = kp, myIDHash = h, relayURL = [], directAddr = addr,
         fragmentBuffer = NewFragmentBuffer fragment_timeout now\<rparr>)"

definition IDHash :: "PQCClient \<Rightarrow> bytes" where
  "IDHash cl = myIDHash cl"

text \<open>The channel's transport is the connection of the session it came from.\<close>

record SecureChannel =
  channelKey :: bytes

definition NewSecureChannel :: "bytes \<Rightarrow> SecureChannel" where
  "NewSecureChannel key = \<lparr>channelKey = key\<rparr>"

text \<open>Phase 1 of \<open>performHandshake\<close>: the key exchange, up to the session key.\<close>

definition initiator_kem ::
  "crypto_lib \<Rightarrow> 't Transport \<Rightarrow> session_env \<Rightarrow> ('t, KEMHandshake \<times> bytes) sm" where
  "initiator_kem c tr env =
     sm_bind (call_meth (Initiate c) (NewKEMHandshake True)) (\<lambda>(handshake, request).
     sm_bind (send_msg tr env 0 request MsgHandshakeRequest) (\<lambda>_.
     sm_bind (recv_msg tr env 0) (\<lambda>(flag, agreeData).
     sm_bind (sm_res (expect flag MsgHandshakeAgree)) (\<lambda>_.
     sm_bind (call_meth (HandleAgree c agreeData) handshake) (\<lambda>(handshake, finishData).
     sm_bind (send_msg tr env 1 finishData MsgHandshakeFinish) (\<lambda>_.
     sm_bind (sm_res (DeriveSessionKey c handshake)) (\<lambda>key.
     sm_res (Ok (handshake, key)))))))))"

text \<open>Phase 2: both identities, the initiator's first.\<close>

definition initiator_identity ::
  "crypto_lib \<Rightarrow> 't Transport \<Rightarrow> session_env \<Rightarrow> bytes \<Rightarrow> bytes \<Rightarrow> IdentityExchange \<Rightarrow> ('t, SecureChannel) sm" where
  "initiator_identity c tr env channelBinding key idExchange =
     sm_bind (send_identity c tr idExchange) (\<lambda>_.
     sm_bind (recv_msg tr env 1) (\<lambda>(flag, challengeEnc).
     sm_bind (sm_res (expect flag MsgChallenge)) (\<lambda>_.
     let sessionID = key in
     sm_bind (call_meth (HandleChallenge c challengeEnc channelBinding sessionID) idExchange)
       (\<lambda>(idExchange, sigResponse).
     sm_bind (send_msg tr env 2 sigResponse MsgSignatureResponse) (\<lambda>_.
     sm_bind (recv_msg tr env 2) (\<lambda>(flag, peerIdentity).
     sm_bind (sm_res (expect flag MsgIdentityMessage)) (\<lambda>_.
     sm_bind (call_meth (HandlePeerIdentity c peerIdentity) idExchange) (\<lambda>(idExchange, peerChallenge).
     sm_bind (send_msg tr env 3 peerChallenge MsgChallenge) (\<lambda>_.
     sm_bind (recv_msg tr env 3) (\<lambda>(flag, peerSig).
     sm_bind (sm_res (expect flag MsgSignatureResponse)) (\<lambda>_.
     sm_bind (call_meth (VerifyResponse c peerSig peerChallenge channelBinding sessionID) idExchange)
       (\<lambda>(idExchange, verified).
     sm_res (if \<not> verified then Err (ErrMsg ''identity verification failed'')
             else Ok (NewSecureChannel key))))))))))))))"

definition performHandshake ::
  "crypto_lib \<Rightarrow> 't Transport \<Rightarrow> session_env \<Rightarrow> PQCClient \<Rightarrow> bytes \<Rightarrow> ('t, SecureChannel) sm" where
  "performHandshake c tr env cl targetIDHash =
     sm_bind (initiator_kem c tr env) (\<lambda>(handshake, key).
     let channelBinding = MyKEMPublicKey handshake @ PeerPubkey handshake;
         idExchange = NewIdentityExchange key (Some (identityKeypair cl)) targetIDHash in
     initiator_identity c tr env channelBinding key idExchange)"

text \<open>The same two phases of \<open>performHandshakeResponder\<close>.\<close>

definition responder_kem ::
  "crypto_lib \<Rightarrow> 't Transport \<Rightarrow> session_env \<Rightarrow> ('t, KEMHandshake \<times> bytes) sm" where
  "responder_kem c tr env =
     (let handshake = NewKEMHandshake False in
     sm_bind (recv_msg tr env 0) (\<lambda>(flag, requestData).
     sm_bind (sm_res (expect flag MsgHandshakeRequest)) (\<lambda>_.
     sm_bind (call_meth (HandleRequest c requestData) handshake) (\<lambda>(handshake, agreeData).
     sm_bind (send_msg tr env 0 agreeData MsgHandshakeAgree) (\<lambda>_.
     sm_bind (recv_msg tr env 1) (\<lambda>(flag, finishData).
     sm_bind (sm_res (expect flag MsgHandshakeFinish)) (\<lambda>_.
     sm_bind (call_meth (HandleFinish c finishData) handshake) (\<lambda>(handshake, _).
     sm_bind (sm_res (DeriveSessionKey c handshake)) (\<lambda>key.
     sm_res (Ok (handshake, key)))))))))))"

definition responder_identity ::
  "crypto_lib \<Rightarrow> 't Transport \<Rightarrow> session_env \<Rightarrow> bytes \<Rightarrow> bytes \<Rightarrow> IdentityExchange \<Rightarrow> ('t, SecureChannel) sm" where
  "responder_identity c tr env channelBinding key idExchange =
     sm_bind (recv_msg tr env 2) (\<lambda>(flag, peerIdentity).
     sm_bind (sm_res (expect flag MsgIdentityMessage)) (\<lambda>_.
     sm_bind (call_meth (HandlePeerIdentity c peerIdentity) idExchange) (\<lambda>(idExchange, peerChallenge).
     sm_bind (send_msg tr env 1 peerChallenge MsgChallenge) (\<lambda>_.
     sm_bind (recv_msg tr env 3) (\<lambda>(flag, sigResponse).
     sm_bind (sm_res (expect flag MsgSignatureResponse)) (\<lambda>_.
     sm_bind (call_meth (VerifyResponse c sigResponse peerChallenge channelBinding key) idExchange)
       (\<lambda>(idExchange, verified).
     sm_bind (sm_res (if \<not> verified then Err (ErrMsg ''identity verification failed'') else Ok ())) (\<lambda>_.
     sm_bind (send_identity c tr idExchange) (\<lambda>_.
     sm_bind (recv_msg tr env 4) (\<lambda>(flag, challengeEnc).
     sm_bind (sm_res (expect flag MsgChallenge)) (\<lambda>_.
     sm_bind (call_meth (HandleChallenge c challengeEnc channelBinding key) idExchange)
       (\<lambda>(idExchange, sigData).
     sm_bind (send_msg tr env 2 sigData MsgSignatureResponse) (\<lambda>_.
     sm_res (Ok (NewSecureChannel key)))))))))))))))"

definition performHandshakeResponder ::
  "crypto_lib \<Rightarrow> 't Transport \<Rightarrow> session_env \<Rightarrow> PQCClient \<Rightarrow> bytes \<Rightarrow> ('t, SecureChannel) sm" where
  "performHandshakeResponder c tr env cl targetIDHash =
     sm_bind (responder_kem c tr env) (\<lambda>(handshake, key).
     let channelBinding = MyKEMPublicKey handshake @ PeerPubkey handshake;
         idExchange = NewIdentityExchange key (Some (identityKeypair cl)) targetIDHash in
     responder_identity c tr env channelBinding key idExchange)"

lemmas session_defs = performHandshake_def initiator_kem_def initiator_identity_def
  performHandshakeResponder_def responder_kem_def responder_identity_def

section \<open>Connecting and accepting\<close>

text \<open>
  \<open>Connect\<close> holds its connection in an interface value: one of the two connection types.
\<close>

datatype 'w any_conn = Direct "'w DirectConn" | Relay "'w WebSocketConn"

primrec any_Send :: "'w websocket \<Rightarrow> bytes \<Rightarrow> ('w any_conn, unit) st" where
  "any_Send lib data (Direct d) = (case DirectConn_Send lib data d of (d', x) \<Rightarrow> (Direct d', x))"
| "any_Send lib data (Relay w) = (case WebSocketConn_Send lib data w of (w', x) \<Rightarrow> (Relay w', x))"

primrec any_Recv :: "'w websocket \<Rightarrow> int \<Rightarrow> 'w any_conn \<Rightarrow> ('w any_conn \<times> bytes res) option" where
  "any_Recv lib now (Direct d) = map_option (\<lambda>(d', x). (Direct d', x)) (DirectConn_Recv lib now d)"
| "any_Recv lib now (Relay w) = map_option (\<lambda>(w', x). (Relay w', x)) (WebSocketConn_Recv lib now w)"

primrec any_Close :: "'w websocket \<Rightarrow> ('w any_conn, unit) st" where
  "any_Close lib (Direct d) = (case DirectConn_Close lib d of (d', x) \<Rightarrow> (Direct d', x))"
| "any_Close lib (Relay w) = (case WebSocketConn_Close lib w of (w', x) \<Rightarrow> (Relay w', x))"

definition any_transport :: "'w websocket \<Rightarrow> int \<Rightarrow> 'w any_conn Transport" where
  "any_transport lib now = \<lparr>tr_Send = any_Send lib, tr_Recv = any_Recv lib now\<rparr>"

text \<open>The connection a client dials; \<open>dial\<close> is the library's dialer.\<close>

definition dial_conn :: "(string \<Rightarrow> 'w res) \<Rightarrow> PQCClient \<Rightarrow> 'w any_conn res" where
  "dial_conn dial cl =
     (if directAddr cl \<noteq> []
      then (case dial (''ws://'' @ directAddr cl) of
          Ok w \<Rightarrow> Ok (Direct (NewDirectConn w))
        | Err e \<Rightarrow> Err (ErrWrap ''dial direct'' e)
        | Panic p \<Rightarrow> Panic p)
      else if relayURL cl \<noteq> []
      then (case dial (relayURL cl) of
          Ok w \<Rightarrow> Ok (Relay (NewWebSocketConn w))
        | Err e \<Rightarrow> Err (ErrWrap ''dial relay'' e)
        | Panic p \<Rightarrow> Panic p)
      else Err (ErrMsg ''no connection address specified''))"

text \<open>
  The result is the connection (closed when the handshake failed), the client with its
  buffer, the rest of the tape and the outcome.
\<close>

definition Connect ::
  "crypto_lib \<Rightarrow> 'w websocket \<Rightarrow> int \<Rightarrow> session_env \<Rightarrow> (string \<Rightarrow> 'w res) \<Rightarrow> bytes \<Rightarrow> PQCClient \<Rightarrow> rng \<Rightarrow>
     ('w any_conn option \<times> PQCClient \<times> rng \<times> SecureChannel res) option" where
  "Connect c lib now env dial targetIDHash cl r = (case dial_conn dial cl of
      Err e \<Rightarrow> Some (None, cl, r, Err e)
    | Panic p \<Rightarrow> Some (None, cl, r, Panic p)
    | Ok cn \<Rightarrow>
       (case performHandshake c (any_transport lib now) env cl targetIDHash
           \<lparr>sn_rng = r, sn_fb = fragmentBuffer cl, sn_conn = cn\<rparr> of
          None \<Rightarrow> None
        | Some (s, Err e) \<Rightarrow> Some (Some (fst (any_Close lib (sn_conn s))),
            cl\<lparr>fragmentBuffer := sn_fb s\<rparr>, sn_rng s, Err e)
        | Some (s, x) \<Rightarrow> Some (Some (sn_conn s), cl\<lparr>fragmentBuffer := sn_fb s\<rparr>, sn_rng s, x)))"

definition Accept ::
  "crypto_lib \<Rightarrow> 'w websocket \<Rightarrow> int \<Rightarrow> session_env \<Rightarrow> 'w \<Rightarrow> bytes \<Rightarrow> PQCClient \<Rightarrow> rng \<Rightarrow>
     ('w DirectConn \<times> PQCClient \<times> rng \<times> SecureChannel res) option" where
  "Accept c lib now env w targetIDHash cl r =
     (case performHandshakeResponder c (direct_transport lib now) env cl targetIDHash
         \<lparr>sn_rng = r, sn_fb = fragmentBuffer cl, sn_conn = NewDirectConn w\<rparr> of
        None \<Rightarrow> None
      | Some (s, Err e) \<Rightarrow> Some (fst (DirectConn_Close lib (sn_conn s)),
          cl\<lparr>fragmentBuffer := sn_fb s\<rparr>, sn_rng s, Err e)
      | Some (s, x) \<Rightarrow> Some (sn_conn s, cl\<lparr>fragmentBuffer := sn_fb s\<rparr>, sn_rng s, x))"

section \<open>The secure channel\<close>

definition SecureChannel_Send ::
  "crypto_lib \<Rightarrow> 't Transport \<Rightarrow> SecureChannel \<Rightarrow> bytes \<Rightarrow> (rng \<times> 't) \<Rightarrow> (rng \<times> 't) \<times> unit res" where
  "SecureChannel_Send c tr sc data = (\<lambda>(r, t). case AESGCMEncrypt c (channelKey sc) data r of
      (r', Err e) \<Rightarrow> ((r', t), Err e)
    | (r', Panic p) \<Rightarrow> ((r', t), Panic p)
    | (r', Ok encrypted) \<Rightarrow> (case tr_Send tr encrypted t of (t', x) \<Rightarrow> ((r', t'), x)))"

definition SecureChannel_Recv ::
  "crypto_lib \<Rightarrow> 't Transport \<Rightarrow> SecureChannel \<Rightarrow> 't \<Rightarrow> ('t \<times> bytes res) option" where
  "SecureChannel_Recv c tr sc t = map_option (\<lambda>(t', x). (t', go_bind x (AESGCMDecrypt c (channelKey sc)))) (tr_Recv tr t)"

text \<open>Both connection types have a \<open>Close\<close>, so the type assertion succeeds.\<close>

definition SecureChannel_Close :: "'w websocket \<Rightarrow> ('w any_conn, unit) st" where
  "SecureChannel_Close lib = any_Close lib"

section \<open>Dynamic dispatch keeps the transport laws\<close>

primrec any_up :: "'w websocket \<Rightarrow> 'w ws_view \<Rightarrow> 'w any_conn \<Rightarrow> bool" where
  "any_up lib v (Direct d) = direct_up lib v d"
| "any_up lib v (Relay w) = ws_up lib v w"

primrec any_out :: "'w ws_view \<Rightarrow> 'w any_conn \<Rightarrow> bytes list" where
  "any_out v (Direct d) = direct_out v d"
| "any_out v (Relay w) = ws_out v w"

primrec any_in :: "'w ws_view \<Rightarrow> 'w any_conn \<Rightarrow> bytes list" where
  "any_in v (Direct d) = direct_in v d"
| "any_in v (Relay w) = ws_in v w"

interpretation any_conn: transport "any_transport lib now" "any_up lib v" "any_out v" "any_in v"
  for lib now v
proof unfold_locales
  fix t p
  assume up: "any_up lib v t"
  show "\<exists>t'. tr_Send (any_transport lib now) p t = (t', Ok ()) \<and> any_up lib v t' \<and>
      any_out v t' = any_out v t @ [p] \<and> any_in v t' = any_in v t"
  proof (cases t)
    case (Direct d)
    with up direct_conn.send_up [of lib v d now p] show ?thesis
      by (fastforce simp: any_transport_def direct_transport_def)
  next
    case (Relay w)
    with up websocket_conn.send_up [of lib v w now p] show ?thesis
      by (fastforce simp: any_transport_def ws_transport_def)
  qed
next
  fix t p ps
  assume up: "any_up lib v t" and ps: "any_in v t = p # ps"
  show "\<exists>t'. tr_Recv (any_transport lib now) t = Some (t', Ok p) \<and> any_up lib v t' \<and>
      any_out v t' = any_out v t \<and> any_in v t' = ps"
  proof (cases t)
    case (Direct d)
    with up ps direct_conn.recv_up [of lib v d p ps now] show ?thesis
      by (fastforce simp: any_transport_def direct_transport_def)
  next
    case (Relay w)
    with up ps websocket_conn.recv_up [of lib v w p ps now] show ?thesis
      by (fastforce simp: any_transport_def ws_transport_def)
  qed
next
  fix t
  assume up: "any_up lib v t" and none: "any_in v t = []"
  show "\<exists>t' e. tr_Recv (any_transport lib now) t = Some (t', Err e) \<and> any_out v t' = any_out v t"
  proof (cases t)
    case (Direct d)
    with up none direct_conn.recv_none [of lib v d now] show ?thesis
      by (fastforce simp: any_transport_def direct_transport_def)
  next
    case (Relay w)
    with up none websocket_conn.recv_none [of lib v w now] show ?thesis
      by (fastforce simp: any_transport_def ws_transport_def)
  qed
qed

section \<open>A session returns once the peer falls silent\<close>

text \<open>
  \<open>returns up m\<close>: from a connection that is up, the step returns, and if it succeeds the
  connection is still up.
\<close>

definition returns :: "('t \<Rightarrow> bool) \<Rightarrow> ('t, 'a) sm \<Rightarrow> bool" where
  "returns up m \<longleftrightarrow> (\<forall>s. up (sn_conn s) \<longrightarrow>
     (\<exists>s' x. m s = Some (s', x) \<and> (is_ok x \<longrightarrow> up (sn_conn s'))))"

named_theorems session_returns \<open>steps that return\<close>

lemma returnsD:
  "returns up m \<Longrightarrow> up (sn_conn s) \<Longrightarrow> \<exists>s' x. m s = Some (s', x) \<and> (is_ok x \<longrightarrow> up (sn_conn s'))"
  by (simp add: returns_def)

lemma returns_bind [session_returns]:
  fixes m :: "('t, 'a) sm"
  assumes "returns up m" "\<And>a. returns up (f a)"
  shows "returns up (sm_bind m f)"
  unfolding returns_def
proof (intro allI impI)
  fix s :: "'t session" assume "up (sn_conn s)"
  then obtain s1 x where m: "m s = Some (s1, x)" "is_ok x \<longrightarrow> up (sn_conn s1)"
    using assms(1) by (auto simp: returns_def)
  show "\<exists>s' x. sm_bind m f s = Some (s', x) \<and> (is_ok x \<longrightarrow> up (sn_conn s'))"
  proof (cases x)
    case (Ok a)
    with m assms(2) [of a] show ?thesis by (auto simp: sm_bind_def returns_def)
  qed (use m in \<open>simp_all add: sm_bind_def\<close>)
qed

lemma returns_res [session_returns]: "returns up (sm_res x)"
  by (simp add: returns_def sm_res_def)

lemma returns_call [session_returns]: "returns up (call_meth m h)"
  by (simp add: returns_def call_meth_def split: prod.splits)

lemma returns_case_prod [session_returns]:
  "(\<And>a b. returns up (f a b)) \<Longrightarrow> returns up (case p of (a, b) \<Rightarrow> f a b)"
  by (cases p) simp

lemma returns_Let [session_returns]: "(\<And>a. returns up (f a)) \<Longrightarrow> returns up (Let x f)"
  by simp

context transport
begin

lemma returns_send [session_returns]: "returns up (send_msg tr env k data flag)"
  unfolding returns_def
proof (intro allI impI)
  fix s :: "'t session" assume "up (sn_conn s)"
  from SendFragmented_sends [OF this, of 1400 data flag "se_msgid env k" "se_nano env k"]
  show "\<exists>s' x. send_msg tr env k data flag s = Some (s', x) \<and> (is_ok x \<longrightarrow> up (sn_conn s'))"
    by (auto simp: send_msg_def)
qed

lemma ReceiveFragmented_keeps_up:
  "up t \<Longrightarrow> \<exists>t' fb' x. ReceiveFragmented tr env k fb t = Some (t', fb', x) \<and> (is_ok x \<longrightarrow> up t')"
proof (induction "pending t" arbitrary: t k fb)
  case Nil
  then show ?case
    using recv_none [of t] by (force simp: ReceiveFragmented.simps [of tr env k fb t])
next
  case (Cons p ps)
  obtain t1 where t1: "tr_Recv tr t = Some (t1, Ok p)" "up t1" "pending t1 = ps"
    using recv_up [OF Cons.prems] Cons.hyps(2) by metis
  obtain fb1 out where h: "handle_packet (env k) p fb = (fb1, out)"
    by (cases "handle_packet (env k) p fb")
  show ?case
    using Cons.hyps(1) [of t1 "Suc k" fb1] t1 h
    by (cases out) (auto simp: ReceiveFragmented.simps [of tr env k fb t])
qed

lemma returns_recv [session_returns]: "returns up (recv_msg tr env k)"
  unfolding returns_def
proof (intro allI impI)
  fix s :: "'t session" assume "up (sn_conn s)"
  from ReceiveFragmented_keeps_up [OF this, of "se_recv env k" 0 "sn_fb s"]
  show "\<exists>s' x. recv_msg tr env k s = Some (s', x) \<and> (is_ok x \<longrightarrow> up (sn_conn s'))"
    by (auto simp: recv_msg_def)
qed

lemma returns_identity [session_returns]: "returns up (send_identity c tr e)"
  unfolding returns_def
proof (intro allI impI)
  fix s :: "'t session" assume up: "up (sn_conn s)"
  show "\<exists>s' x. send_identity c tr e s = Some (s', x) \<and> (is_ok x \<longrightarrow> up (sn_conn s'))"
  proof (cases "myDSAKeypair e")
    case (Some kp)
    obtain r' x where enc: "AESGCMEncrypt c (sessionKey e) (dsa_Public kp) (sn_rng s) = (r', x)"
      by fastforce
    show ?thesis
    proof (cases x)
      case (Ok y)
      obtain t' where "tr_Send tr (MsgIdentityMessage # field y) (sn_conn s) = (t', Ok ())" "up t'"
        using send_up [OF up] by blast
      with Some Ok enc show ?thesis
        by (simp add: send_identity_def SendIdentity_def IdentityMsg_wire)
    qed (use Some enc in \<open>simp_all add: send_identity_def SendIdentity_def\<close>)
  qed (simp add: send_identity_def SendIdentity_def)
qed

lemma performHandshake_returns: "returns up (performHandshake c tr env cl target)"
  unfolding session_defs by (intro session_returns)

lemma performHandshakeResponder_returns: "returns up (performHandshakeResponder c tr env cl target)"
  unfolding session_defs by (intro session_returns)

end

section \<open>A session between honest parties\<close>

definition session_key :: "crypto_lib \<Rightarrow> bytes \<Rightarrow> bytes \<Rightarrow> bytes \<Rightarrow> bytes \<Rightarrow> bytes" where
  "session_key c a a' b b' = lib_hkdf c (fst (encaps_of c a b') @ fst (encaps_of c b a')) (replicate 32 0)
     (string_of_bytes (bytes_of_string ''ML-KEM-768-session-key-v1'')) 32"

text \<open>What \<open>SendIdentity\<close> puts on the wire, and the id that a numbered send uses.\<close>

definition identity_packet :: "crypto_lib \<Rightarrow> bytes \<Rightarrow> bytes \<Rightarrow> bytes \<Rightarrow> bytes" where
  "identity_packet c key n pub = MsgIdentityMessage # field (fit 12 n @ lib_seal c key (fit 12 n) pub)"

definition msg_id :: "session_env \<Rightarrow> nat \<Rightarrow> u32" where
  "msg_id env k = (if se_msgid env k = 0 then word_of_int (se_nano env k) else se_msgid env k)"

text \<open>Running a session: each step is unfolded when it meets its state.\<close>

lemmas session_run = sm_bind_def sm_res_def call_meth_def

lemma expect_simps [simp]:
  "expect flag flag = Ok ()"
  "flag \<noteq> wanted \<Longrightarrow> expect flag wanted = Err (ErrMsg ''unexpected message type'')"
  by (simp_all add: expect_def)

text \<open>
  An identity message is taken for a fragment: what stands where a fragment's total is
  expected are the first two bytes of the nonce.
\<close>

lemma identity_stored:
  assumes "10 \<le> length ct" "take 2 ct \<noteq> [0, 1]" "fragments fb = []"
  shows "\<exists>fb'. handle_packet env (MsgIdentityMessage # field ct) fb = (fb', None)"
proof -
  let ?p = "MsgIdentityMessage # field ct"
  have "13 \<le> length ?p" using assms(1) by simp
  then obtain h where h: "UnmarshalBinary ?p = Ok h" by (rule UnmarshalBinary_total)
  note p = UnmarshalBinary_inv [OF h]
  have "take 2 (drop 3 ?p) = take 2 ct"
    by (simp add: field_def be16_def)
  moreover have "take 2 (drop 3 ?p) = be16 (fh_Total h)"
    by (subst p) (simp add: header_bytes_def be16_def numeral_eq_Suc)
  moreover have "be16 1 = [0, 1]" by (simp add: be16_def)
  ultimately have tot: "fh_Total h \<noteq> 1" using assms(2) by metis
  from handle_packet_multi [OF this, of fb env "drop 13 ?p"] assms(3) tot [symmetric] show ?thesis
    unfolding p [symmetric] by (auto simp: get_frags_def Let_def)
qed

lemma run_message_sizes:
  assumes "kem_laws c"
  shows "HandshakeRequest_Serialize (request_of c a) = Ok m \<Longrightarrow> fragment_count m 1400 < 2 ^ 16"
    and "HandshakeAgree_Serialize (agree_of c a b b') = Ok m \<Longrightarrow> fragment_count m 1400 < 2 ^ 16"
    and "HandshakeFinish_Serialize \<lparr>fin_Ciphertext = snd (encaps_of c b a')\<rparr> = Ok m \<Longrightarrow>
      fragment_count m 1400 < 2 ^ 16"
  using run_sizes [OF assms]
  by (auto simp: HandshakeRequest_wire HandshakeAgree_wire HandshakeFinish_wire request_of_def
      agree_of_def suite_def bytes_of_string_def fragment_count_def)

context transport
begin

lemma send_step:
  assumes "up (sn_conn s)"
  obtains t' where "send_msg tr env k data flag s = Some (s\<lparr>sn_conn := t'\<rparr>, Ok ())" "up t'"
    "pending t' = pending (sn_conn s)"
    "sent t' = sent (sn_conn s) @ message_packets flag (msg_id env k) data 1400"
  using SendFragmented_sends [OF assms, of 1400 data flag "se_msgid env k" "se_nano env k"]
  by (auto simp: send_msg_def msg_id_def intro: that)

lemma recv_step:
  assumes "up (sn_conn s)" "pending (sn_conn s) = message_packets flag mid data 1400 @ ps"
    and "fragments (sn_fb s) = []" "fragment_count data 1400 < 2 ^ 16"
  obtains t' fb' where
    "recv_msg tr env k s = Some (s\<lparr>sn_conn := t', sn_fb := fb'\<rparr>, Ok (flag, data))"
    "up t'" "pending t' = ps" "sent t' = sent (sn_conn s)" "fragments fb' = []"
  using receive_message_packets [OF assms(1,2) refl _ assms(4), of "sn_fb s" "se_recv env k" 0] assms(3)
  by (auto simp: recv_msg_def intro: that)

lemma recv_end:
  assumes "up (sn_conn s)" "pending (sn_conn s) = []"
  obtains s' e where "recv_msg tr env k s = Some (s', Err e)"
    "sent (sn_conn s') = sent (sn_conn s)" "sn_rng s' = sn_rng s"
  using recv_none [OF assms]
  by (fastforce simp: recv_msg_def ReceiveFragmented.simps [of tr "se_recv env k" 0 "sn_fb s" "sn_conn s"]
      intro: that)

text \<open>The receive loop swallows an identity message and waits for more.\<close>

lemma recv_identity_ends:
  assumes "up (sn_conn s)" "pending (sn_conn s) = [MsgIdentityMessage # field ct]"
    and "10 \<le> length ct" "take 2 ct \<noteq> [0, 1]" "fragments (sn_fb s) = []"
  obtains s' e where "recv_msg tr env k s = Some (s', Err e)"
    "sent (sn_conn s') = sent (sn_conn s)"
proof -
  obtain t1 where t1: "tr_Recv tr (sn_conn s) = Some (t1, Ok (MsgIdentityMessage # field ct))" "up t1"
    "sent t1 = sent (sn_conn s)" "pending t1 = []"
    using recv_up [OF assms(1,2)] by auto
  obtain fb1 where fb1: "handle_packet (se_recv env k 0) (MsgIdentityMessage # field ct) (sn_fb s) = (fb1, None)"
    using identity_stored [OF assms(3-5)] by blast
  obtain t2 e where t2: "tr_Recv tr t1 = Some (t2, Err e)" "sent t2 = sent t1"
    using recv_none [OF t1(2,4)] by blast
  have "recv_msg tr env k s = Some (s\<lparr>sn_conn := t2, sn_fb := fb1\<rparr>, Err e)"
    using t1(1) fb1 t2(1)
    by (simp add: recv_msg_def ReceiveFragmented.simps [of tr "se_recv env k" 0]
        ReceiveFragmented.simps [of tr "se_recv env k" "Suc 0"])
  with t1(3) t2(2) show thesis by (auto intro: that)
qed

end

text \<open>
  Phase 2 consists of two halves on either side: proving the own identity and checking the
  peer's. The initiator proves first, the responder checks first.
\<close>

definition prove_self ::
  "crypto_lib \<Rightarrow> 't Transport \<Rightarrow> session_env \<Rightarrow> nat \<Rightarrow> nat \<Rightarrow> bytes \<Rightarrow> bytes \<Rightarrow> IdentityExchange \<Rightarrow>
     ('t, IdentityExchange) sm" where
  "prove_self c tr env i j cb key e =
     sm_bind (send_identity c tr e) (\<lambda>_.
     sm_bind (recv_msg tr env i) (\<lambda>(flag, challenge).
     sm_bind (sm_res (expect flag MsgChallenge)) (\<lambda>_.
     sm_bind (call_meth (HandleChallenge c challenge cb key) e) (\<lambda>(e, response).
     sm_bind (send_msg tr env j response MsgSignatureResponse) (\<lambda>_. sm_res (Ok e))))))"

definition check_peer ::
  "crypto_lib \<Rightarrow> 't Transport \<Rightarrow> session_env \<Rightarrow> nat \<Rightarrow> nat \<Rightarrow> nat \<Rightarrow> bytes \<Rightarrow> bytes \<Rightarrow> IdentityExchange \<Rightarrow>
     ('t, IdentityExchange) sm" where
  "check_peer c tr env i j k cb key e =
     sm_bind (recv_msg tr env i) (\<lambda>(flag, identity).
     sm_bind (sm_res (expect flag MsgIdentityMessage)) (\<lambda>_.
     sm_bind (call_meth (HandlePeerIdentity c identity) e) (\<lambda>(e, challenge).
     sm_bind (send_msg tr env j challenge MsgChallenge) (\<lambda>_.
     sm_bind (recv_msg tr env k) (\<lambda>(flag, response).
     sm_bind (sm_res (expect flag MsgSignatureResponse)) (\<lambda>_.
     sm_bind (call_meth (VerifyResponse c response challenge cb key) e) (\<lambda>(e, verified).
     sm_res (if \<not> verified then Err (ErrMsg ''identity verification failed'') else Ok e))))))))"

lemma sm_bind_assoc: "sm_bind (sm_bind m f) g = sm_bind m (\<lambda>a. sm_bind (f a) g)"
  by (rule ext) (simp add: sm_bind_def split: option.splits res.splits)

lemma sm_bind_case: "sm_bind (case p of (a, b) \<Rightarrow> f a b) g = (case p of (a, b) \<Rightarrow> sm_bind (f a b) g)"
  by (cases p) simp

lemma sm_bind_Ok: "sm_bind (sm_res (Ok a)) f = f a"
  by (rule ext) (simp add: sm_bind_def sm_res_def)

lemma sm_bind_unless:
  "sm_bind (sm_res (if b then Err x else Ok (e :: IdentityExchange))) f =
     sm_bind (sm_res (if b then Err x else Ok ())) (\<lambda>_. f e)"
  "sm_bind (sm_res (if b then Err x else Ok ())) (\<lambda>_. sm_res (Ok y)) = sm_res (if b then Err x else Ok y)"
  by (rule ext, simp add: sm_bind_def sm_res_def)+

lemma initiator_identity_halves:
  "initiator_identity c tr env cb key e =
     sm_bind (prove_self c tr env 1 2 cb key e) (\<lambda>e.
     sm_bind (check_peer c tr env 2 3 3 cb key e) (\<lambda>_. sm_res (Ok (NewSecureChannel key))))"
  unfolding initiator_identity_def prove_self_def check_peer_def sm_bind_assoc sm_bind_case
    sm_bind_Ok sm_bind_unless Let_def ..

lemma responder_identity_halves:
  "responder_identity c tr env cb key e =
     sm_bind (check_peer c tr env 2 1 3 cb key e) (\<lambda>e.
     sm_bind (prove_self c tr env 4 2 cb key e) (\<lambda>_. sm_res (Ok (NewSecureChannel key))))"
  unfolding responder_identity_def prove_self_def check_peer_def sm_bind_assoc sm_bind_case
    sm_bind_Ok sm_bind_unless(1) ..

text \<open>The handshake object and the key that each side ends phase 1 with.\<close>

definition initiator_end :: "crypto_lib \<Rightarrow> bytes \<Rightarrow> bytes \<Rightarrow> bytes \<Rightarrow> bytes \<Rightarrow> KEMHandshake" where
  "initiator_end c a a' b b' = \<lparr>state = StateEstablished, isInitiator = True,
     myKEMKeypair = Some (keypair_of c a), peerPubkey = lib_kem_ek c (fit 64 b),
     sharedSecrets = [''ss_B2A'' \<mapsto> fst (encaps_of c a b'), ''ss_A2B'' \<mapsto> fst (encaps_of c b a')]\<rparr>"

lemma initiator_binding:
  "MyKEMPublicKey (initiator_end c a a' b b') @ PeerPubkey (initiator_end c a a' b b') =
     lib_kem_ek c (fit 64 a) @ lib_kem_ek c (fit 64 b)"
  by (simp add: initiator_end_def MyKEMPublicKey_def PeerPubkey_def keypair_of_def kem_key_defs)

definition responder_end :: "crypto_lib \<Rightarrow> bytes \<Rightarrow> bytes \<Rightarrow> bytes \<Rightarrow> bytes \<Rightarrow> KEMHandshake" where
  "responder_end c a a' b b' = \<lparr>state = StateEstablished, isInitiator = False,
     myKEMKeypair = None, peerPubkey = lib_kem_ek c (fit 64 a),
     sharedSecrets = [''ss_B2A'' \<mapsto> fst (encaps_of c a b'), ''ss_A2B'' \<mapsto> fst (encaps_of c b a')]\<rparr>"

lemma responder_binding:
  "MyKEMPublicKey (responder_end c a a' b b') @ PeerPubkey (responder_end c a a' b b') = lib_kem_ek c (fit 64 a)"
  by (simp add: responder_end_def MyKEMPublicKey_def PeerPubkey_def)

context transport
begin

lemma initiator_kem_run:
  assumes laws: "kem_laws c" "hash_laws c" and up: "up (sn_conn s)"
    and s: "sn_rng s = Some a # Some a' # r" "fragments (sn_fb s) = []"
    and m: "HandshakeRequest_Serialize (request_of c a) = Ok m1"
      "HandshakeAgree_Serialize (agree_of c a b b') = Ok m2"
      "HandshakeFinish_Serialize \<lparr>fin_Ciphertext = snd (encaps_of c b a')\<rparr> = Ok m3"
    and inc: "pending (sn_conn s) = message_packets MsgHandshakeAgree mid m2 1400 @ ps"
  obtains s' where
    "initiator_kem c tr env s = Some (s', Ok (initiator_end c a a' b b', session_key c a a' b b'))"
    "sn_rng s' = r" "up (sn_conn s')" "pending (sn_conn s') = ps" "fragments (sn_fb s') = []"
    "sent (sn_conn s') = sent (sn_conn s) @
       message_packets MsgHandshakeRequest (msg_id env 0) m1 1400 @
       message_packets MsgHandshakeFinish (msg_id env 1) m3 1400"
proof -
  let ?h0 = "NewKEMHandshake True"
  let ?h1 = "?h0\<lparr>myKEMKeypair := Some (keypair_of c a), state := StateWaitAgree\<rparr>"
  have init: "Initiate c (?h0, sn_rng s) = ((?h1, Some a' # r), Ok m1)"
    using Initiate_run [OF m(1)] by (simp add: s(1))
  have agree: "HandleAgree c m2 (?h1, Some a' # r) = ((initiator_end c a a' b b', r), Ok m3)"
    using HandleAgree_run [OF laws(1) m(2,3), of ?h1 r]
    by (simp add: initiator_end_def NewKEMHandshake_def)
  have key: "DeriveSessionKey c (initiator_end c a a' b b') = Ok (session_key c a a' b b')"
    by (simp add: DeriveSessionKey_Established [OF laws(2)] session_key_def initiator_end_def)
  let ?s1 = "s\<lparr>sn_rng := Some a' # r\<rparr>"
  have up1: "up (sn_conn ?s1)" using up by simp
  obtain t2 where send1: "send_msg tr env 0 m1 MsgHandshakeRequest ?s1 = Some (?s1\<lparr>sn_conn := t2\<rparr>, Ok ())"
    and t2: "up t2" "pending t2 = pending (sn_conn ?s1)"
      "sent t2 = sent (sn_conn ?s1) @ message_packets MsgHandshakeRequest (msg_id env 0) m1 1400"
    by (rule send_step [OF up1])
  let ?s2 = "?s1\<lparr>sn_conn := t2\<rparr>"
  have s2: "up (sn_conn ?s2)" "pending (sn_conn ?s2) = message_packets MsgHandshakeAgree mid m2 1400 @ ps"
    "fragments (sn_fb ?s2) = []"
    using t2 inc s(2) by simp_all
  obtain t3 fb3 where recv1: "recv_msg tr env 0 ?s2 = Some
      (?s2\<lparr>sn_conn := t3, sn_fb := fb3\<rparr>, Ok (MsgHandshakeAgree, m2))"
    and t3: "up t3" "pending t3 = ps" "sent t3 = sent (sn_conn ?s2)" "fragments fb3 = []"
    by (rule recv_step [OF s2 run_message_sizes(2) [OF laws(1) m(2)]])
  let ?s4 = "?s2\<lparr>sn_conn := t3, sn_fb := fb3, sn_rng := r\<rparr>"
  have up4: "up (sn_conn ?s4)" using t3 by simp
  obtain t5 where send2: "send_msg tr env 1 m3 MsgHandshakeFinish ?s4 = Some (?s4\<lparr>sn_conn := t5\<rparr>, Ok ())"
    and t5: "up t5" "pending t5 = pending (sn_conn ?s4)"
      "sent t5 = sent (sn_conn ?s4) @ message_packets MsgHandshakeFinish (msg_id env 1) m3 1400"
    by (rule send_step [OF up4])
  have run: "initiator_kem c tr env s =
      Some (?s4\<lparr>sn_conn := t5\<rparr>, Ok (initiator_end c a a' b b', session_key c a a' b b'))"
    using init send1 recv1 agree send2 key
    by (simp add: initiator_kem_def session_run Let_def)
  show thesis by (rule that [OF run]) (use t5 t3 t2 in simp_all)
qed

lemma initiator_run:
  assumes laws: "kem_laws c" "hash_laws c" and up: "up (sn_conn s)"
    and s: "sn_rng s = Some a # Some a' # Some n # r" "fragments (sn_fb s) = []"
    and m: "HandshakeRequest_Serialize (request_of c a) = Ok m1"
      "HandshakeAgree_Serialize (agree_of c a b b') = Ok m2"
      "HandshakeFinish_Serialize \<lparr>fin_Ciphertext = snd (encaps_of c b a')\<rparr> = Ok m3"
    and inc: "pending (sn_conn s) = message_packets MsgHandshakeAgree mid m2 1400"
    and pub: "length (dsa_Public (identityKeypair cl)) \<le> gcm_max"
  obtains s' e where "performHandshake c tr env cl target s = Some (s', Err e)"
    "sent (sn_conn s') = sent (sn_conn s) @
       message_packets MsgHandshakeRequest (msg_id env 0) m1 1400 @
       message_packets MsgHandshakeFinish (msg_id env 1) m3 1400 @
       [identity_packet c (session_key c a a' b b') n (dsa_Public (identityKeypair cl))]"
proof -
  let ?key = "session_key c a a' b b'" and ?pub = "dsa_Public (identityKeypair cl)"
  have inc': "pending (sn_conn s) = message_packets MsgHandshakeAgree mid m2 1400 @ []" using inc by simp
  obtain s5 where kem: "initiator_kem c tr env s = Some (s5, Ok (initiator_end c a a' b b', ?key))"
    and s5: "sn_rng s5 = Some n # r" "up (sn_conn s5)" "pending (sn_conn s5) = []"
    "sent (sn_conn s5) = sent (sn_conn s) @
       message_packets MsgHandshakeRequest (msg_id env 0) m1 1400 @
       message_packets MsgHandshakeFinish (msg_id env 1) m3 1400"
    by (rule initiator_kem_run [OF laws up s m inc'])
  have "length ?key = 32" by (simp add: session_key_def hash_law_facts [OF laws(2)])
  note enc = AESGCMEncrypt_Some [OF this pub, of c n r]
  obtain t6 where t6: "tr_Send tr (identity_packet c ?key n ?pub) (sn_conn s5) = (t6, Ok ())" "up t6"
    "sent t6 = sent (sn_conn s5) @ [identity_packet c ?key n ?pub]" "pending t6 = pending (sn_conn s5)"
    using send_up [OF s5(2)] by blast
  let ?s6 = "s5\<lparr>sn_rng := r, sn_conn := t6\<rparr>"
  have ident: "send_identity c tr (NewIdentityExchange ?key (Some (identityKeypair cl)) target) s5 = Some (?s6, Ok ())"
    using enc t6(1)
    by (simp add: send_identity_def SendIdentity_def NewIdentityExchange_def IdentityMsg_wire
        identity_packet_def s5(1))
  have s6: "up (sn_conn ?s6)" "pending (sn_conn ?s6) = []" using t6 s5 by simp_all
  obtain s' e where stop: "recv_msg tr env 1 ?s6 = Some (s', Err e)"
    "sent (sn_conn s') = sent (sn_conn ?s6)"
    by (rule recv_end [OF s6])
  have run: "performHandshake c tr env cl target s = Some (s', Err e)"
    using kem ident stop(1)
    by (simp add: performHandshake_def initiator_identity_def session_run Let_def)
  show thesis by (rule that [OF run]) (use stop(2) t6(3) s5(4) in simp_all)
qed

text \<open>The two halves of phase 2 with a peer that does what this code checks.\<close>

lemma prove_self_run:
  assumes up: "up (sn_conn s)"
    and s: "sn_rng s = Some n # Some y # r" "fragments (sn_fb s) = []"
    and e: "sessionKey e = key" "myDSAKeypair e = Some kp" and len: "length key = 32" "length (dsa_Public kp) \<le> gcm_max"
    and chal: "AESGCMDecrypt c key chal = Ok nonce" "MLDSASign c (dsa_Private kp) (nonce @ cb @ key) = Ok sig"
      "length sig \<le> gcm_max" "fragment_count chal 1400 < 2 ^ 16"
    and inc: "pending (sn_conn s) = message_packets MsgChallenge i1 chal 1400 @ ps"
  obtains s' where "prove_self c tr env i j cb key e s = Some (s', Ok e)" "up (sn_conn s')"
    "sn_rng s' = r" "fragments (sn_fb s') = []" "pending (sn_conn s') = ps"
proof -
  obtain t1 where t1: "tr_Send tr (identity_packet c key n (dsa_Public kp)) (sn_conn s) = (t1, Ok ())"
    "up t1" "pending t1 = pending (sn_conn s)"
    using send_up [OF up] by blast
  let ?s1 = "s\<lparr>sn_rng := Some y # r, sn_conn := t1\<rparr>"
  have ident: "send_identity c tr e s = Some (?s1, Ok ())"
    using AESGCMEncrypt_Some [OF len, of c n "Some y # r"] t1(1) e
    by (simp add: send_identity_def SendIdentity_def IdentityMsg_wire identity_packet_def s(1))
  have s1: "up (sn_conn ?s1)" "pending (sn_conn ?s1) = message_packets MsgChallenge i1 chal 1400 @ ps"
    "fragments (sn_fb ?s1) = []"
    using t1 inc s(2) by simp_all
  obtain t2 fb2 where recv: "recv_msg tr env i ?s1 = Some (?s1\<lparr>sn_conn := t2, sn_fb := fb2\<rparr>, Ok (MsgChallenge, chal))"
    and t2: "up t2" "pending t2 = ps" "fragments fb2 = []"
    by (rule recv_step [OF s1 chal(4)])
  have sign: "HandleChallenge c chal cb key (e, Some y # r) = ((e, r), Ok (fit 12 y @ lib_seal c key (fit 12 y) sig))"
    using chal AESGCMEncrypt_Some [OF len(1) chal(3), of c y r] e by (simp add: ix_eqs)
  let ?s2 = "?s1\<lparr>sn_conn := t2, sn_fb := fb2, sn_rng := r\<rparr>"
  have "up (sn_conn ?s2)" using t2 by simp
  then obtain t3 where send: "send_msg tr env j (fit 12 y @ lib_seal c key (fit 12 y) sig) MsgSignatureResponse ?s2 =
      Some (?s2\<lparr>sn_conn := t3\<rparr>, Ok ())" and t3: "up t3" "pending t3 = pending (sn_conn ?s2)"
    by (rule send_step)
  have "prove_self c tr env i j cb key e s = Some (?s2\<lparr>sn_conn := t3\<rparr>, Ok e)"
    using ident recv sign send by (simp add: prove_self_def session_run)
  then show thesis by (rule that) (use t3 t2 in simp_all)
qed

lemma check_peer_run:
  assumes up: "up (sn_conn s)"
    and s: "sn_rng s = Some n # Some x # r" "fragments (sn_fb s) = []"
    and e: "sessionKey e = key" "peerIDHash e = target" and len: "length key = 32"
    and peer: "AESGCMDecrypt c key encPub = Ok peerPub" "ComputeIDHash c peerPub = Ok target"
    and resp: "AESGCMDecrypt c key resp = Ok sig"
      "MLDSAVerify c peerPub ((fit 12 x @ lib_seal c key (fit 12 x) (fit 32 n)) @ cb @ key) sig = Ok True"
    and small: "fragment_count encPub 1400 < 2 ^ 16" "fragment_count resp 1400 < 2 ^ 16"
    and inc: "pending (sn_conn s) = message_packets MsgIdentityMessage i2 encPub 1400 @
      message_packets MsgSignatureResponse i3 resp 1400 @ ps"
  obtains s' where "check_peer c tr env i j k cb key e s = Some (s', Ok (e\<lparr>peerDSAPubkey := peerPub, isVerified := True\<rparr>))"
    "up (sn_conn s')" "sn_rng s' = r" "fragments (sn_fb s') = []" "pending (sn_conn s') = ps"
proof -
  let ?chal = "fit 12 x @ lib_seal c key (fit 12 x) (fit 32 n)" and ?e1 = "e\<lparr>peerDSAPubkey := peerPub\<rparr>"
  obtain t1 fb1 where recv1: "recv_msg tr env i s = Some (s\<lparr>sn_conn := t1, sn_fb := fb1\<rparr>, Ok (MsgIdentityMessage, encPub))"
    and t1: "up t1" "pending t1 = message_packets MsgSignatureResponse i3 resp 1400 @ ps" "fragments fb1 = []"
    by (rule recv_step [OF up inc s(2) small(1)])
  have peer: "HandlePeerIdentity c encPub (e, Some n # Some x # r) = ((?e1, r), Ok ?chal)"
    using peer AESGCMEncrypt_Some [OF len, of "fit 32 n" c x r] e by (simp add: ix_eqs gcm_max_def)
  let ?s1 = "s\<lparr>sn_conn := t1, sn_fb := fb1, sn_rng := r\<rparr>"
  have "up (sn_conn ?s1)" using t1 by simp
  then obtain t2 where send: "send_msg tr env j ?chal MsgChallenge ?s1 = Some (?s1\<lparr>sn_conn := t2\<rparr>, Ok ())"
    and t2: "up t2" "pending t2 = pending (sn_conn ?s1)" by (rule send_step)
  let ?s2 = "?s1\<lparr>sn_conn := t2\<rparr>"
  have s2: "up (sn_conn ?s2)" "pending (sn_conn ?s2) = message_packets MsgSignatureResponse i3 resp 1400 @ ps"
    "fragments (sn_fb ?s2) = []"
    using t2 t1 by simp_all
  obtain t3 fb3 where recv2: "recv_msg tr env k ?s2 = Some (?s2\<lparr>sn_conn := t3, sn_fb := fb3\<rparr>, Ok (MsgSignatureResponse, resp))"
    and t3: "up t3" "pending t3 = ps" "fragments fb3 = []"
    by (rule recv_step [OF s2 small(2)])
  have verify: "VerifyResponse c resp ?chal cb key (?e1, r) = ((?e1\<lparr>isVerified := True\<rparr>, r), Ok True)"
    using resp e by (simp add: ix_eqs)
  have "check_peer c tr env i j k cb key e s =
      Some (?s2\<lparr>sn_conn := t3, sn_fb := fb3, sn_rng := r\<rparr>, Ok (?e1\<lparr>isVerified := True\<rparr>))"
    using recv1 peer send recv2 verify by (simp add: check_peer_def session_run s(1))
  then show thesis by (rule that) (use t3 in simp_all)
qed

text \<open>Both sides go through phase 2 with such a peer.\<close>

lemma initiator_identity_run:
  assumes up: "up (sn_conn s)"
    and s: "sn_rng s = Some n # Some y # Some n' # Some x # r" "fragments (sn_fb s) = []"
    and key: "length key = 32" and pub: "length (dsa_Public kp) \<le> gcm_max"
    and chal: "AESGCMDecrypt c key chal = Ok nonce"
      "MLDSASign c (dsa_Private kp) (nonce @ cb @ key) = Ok sig" "length sig \<le> gcm_max"
    and peer: "AESGCMDecrypt c key encPub = Ok peerPub" "ComputeIDHash c peerPub = Ok target"
    and resp: "AESGCMDecrypt c key resp = Ok psig"
      "MLDSAVerify c peerPub ((fit 12 x @ lib_seal c key (fit 12 x) (fit 32 n')) @ cb @ key) psig = Ok True"
    and small: "fragment_count chal 1400 < 2 ^ 16" "fragment_count encPub 1400 < 2 ^ 16"
      "fragment_count resp 1400 < 2 ^ 16"
    and inc: "pending (sn_conn s) = message_packets MsgChallenge i1 chal 1400 @
      message_packets MsgIdentityMessage i2 encPub 1400 @ message_packets MsgSignatureResponse i3 resp 1400 @ ps"
  obtains s' where "initiator_identity c tr env cb key (NewIdentityExchange key (Some kp) target) s =
      Some (s', Ok (NewSecureChannel key))" "up (sn_conn s')" "pending (sn_conn s') = ps" "sn_rng s' = r"
proof -
  let ?e = "NewIdentityExchange key (Some kp) target"
  have e: "sessionKey ?e = key" "myDSAKeypair ?e = Some kp" "peerIDHash ?e = target"
    by (simp_all add: NewIdentityExchange_def)
  obtain s1 where prove: "prove_self c tr env 1 2 cb key ?e s = Some (s1, Ok ?e)" and s1: "up (sn_conn s1)"
    "sn_rng s1 = Some n' # Some x # r" "fragments (sn_fb s1) = []" "pending (sn_conn s1) =
      message_packets MsgIdentityMessage i2 encPub 1400 @ message_packets MsgSignatureResponse i3 resp 1400 @ ps"
    by (rule prove_self_run [OF up s e(1,2) key pub chal small(1) inc])
  obtain s2 where check: "check_peer c tr env 2 3 3 cb key ?e s1 =
      Some (s2, Ok (?e\<lparr>peerDSAPubkey := peerPub, isVerified := True\<rparr>))"
    and s2: "up (sn_conn s2)" "sn_rng s2 = r" "pending (sn_conn s2) = ps"
    by (rule check_peer_run [OF s1(1-3) e(1,3) key peer resp small(2,3) s1(4)])
  have "initiator_identity c tr env cb key ?e s = Some (s2, Ok (NewSecureChannel key))"
    using prove check by (simp add: initiator_identity_halves session_run)
  then show thesis using s2 by (intro that) simp_all
qed

lemma responder_identity_run:
  assumes up: "up (sn_conn s)"
    and s: "sn_rng s = Some n' # Some x # Some n # Some y # r" "fragments (sn_fb s) = []"
    and key: "length key = 32" and pub: "length (dsa_Public kp) \<le> gcm_max"
    and chal: "AESGCMDecrypt c key chal = Ok nonce"
      "MLDSASign c (dsa_Private kp) (nonce @ cb @ key) = Ok sig" "length sig \<le> gcm_max"
    and peer: "AESGCMDecrypt c key encPub = Ok peerPub" "ComputeIDHash c peerPub = Ok target"
    and resp: "AESGCMDecrypt c key resp = Ok psig"
      "MLDSAVerify c peerPub ((fit 12 x @ lib_seal c key (fit 12 x) (fit 32 n')) @ cb @ key) psig = Ok True"
    and small: "fragment_count chal 1400 < 2 ^ 16" "fragment_count encPub 1400 < 2 ^ 16"
      "fragment_count resp 1400 < 2 ^ 16"
    and inc: "pending (sn_conn s) = message_packets MsgIdentityMessage i2 encPub 1400 @
      message_packets MsgSignatureResponse i3 resp 1400 @ message_packets MsgChallenge i1 chal 1400 @ ps"
  obtains s' where "responder_identity c tr env cb key (NewIdentityExchange key (Some kp) target) s =
      Some (s', Ok (NewSecureChannel key))" "up (sn_conn s')" "pending (sn_conn s') = ps" "sn_rng s' = r"
proof -
  let ?e = "NewIdentityExchange key (Some kp) target"
  let ?e1 = "?e\<lparr>peerDSAPubkey := peerPub, isVerified := True\<rparr>"
  have e: "sessionKey ?e = key" "peerIDHash ?e = target" "sessionKey ?e1 = key" "myDSAKeypair ?e1 = Some kp"
    by (simp_all add: NewIdentityExchange_def)
  obtain s1 where check: "check_peer c tr env 2 1 3 cb key ?e s = Some (s1, Ok ?e1)" and s1: "up (sn_conn s1)"
    "sn_rng s1 = Some n # Some y # r" "fragments (sn_fb s1) = []"
    "pending (sn_conn s1) = message_packets MsgChallenge i1 chal 1400 @ ps"
    by (rule check_peer_run [OF up s e(1,2) key peer resp small(2,3) inc])
  obtain s2 where prove: "prove_self c tr env 4 2 cb key ?e1 s1 = Some (s2, Ok ?e1)"
    and s2: "up (sn_conn s2)" "sn_rng s2 = r" "pending (sn_conn s2) = ps"
    by (rule prove_self_run [OF s1(1-3) e(3,4) key pub chal small(1) s1(4)])
  have "responder_identity c tr env cb key ?e s = Some (s2, Ok (NewSecureChannel key))"
    using prove check by (simp add: responder_identity_halves session_run)
  then show thesis using s2 by (intro that) simp_all
qed

lemma responder_kem_run:
  assumes laws: "kem_laws c" "hash_laws c" and up: "up (sn_conn s)"
    and s: "sn_rng s = Some b # Some b' # map Some ds @ r" "length ds = 64" "fragments (sn_fb s) = []"
    and m: "HandshakeRequest_Serialize (request_of c a) = Ok m1"
      "HandshakeAgree_Serialize (agree_of c a b b') = Ok m2"
      "HandshakeFinish_Serialize \<lparr>fin_Ciphertext = snd (encaps_of c b a')\<rparr> = Ok m3"
    and inc: "pending (sn_conn s) = message_packets MsgHandshakeRequest mid m1 1400 @
      message_packets MsgHandshakeFinish mid' m3 1400 @ ps"
  obtains s' where
    "responder_kem c tr env s = Some (s', Ok (responder_end c a a' b b', session_key c a a' b b'))"
    "sn_rng s' = r" "up (sn_conn s')" "pending (sn_conn s') = ps" "fragments (sn_fb s') = []"
    "sent (sn_conn s') = sent (sn_conn s) @ message_packets MsgHandshakeAgree (msg_id env 0) m2 1400"
proof -
  let ?h0 = "NewKEMHandshake False"
  let ?h1 = "?h0\<lparr>myKEMKeypair := Some (keypair_of c b), peerPubkey := lib_kem_ek c (fit 64 a),
        sharedSecrets := (sharedSecrets ?h0)(''ss_B2A'' \<mapsto> fst (encaps_of c a b')),
        state := StateWaitFinish\<rparr>"
  have req: "HandleRequest c m1 (?h0, sn_rng s) = ((?h1, map Some ds @ r), Ok m2)"
    using HandleRequest_run [OF laws(1) m(1,2), of ?h0 "map Some ds @ r"] by (simp add: s(1))
  have fin: "HandleFinish c m3 (?h1, map Some ds @ r) = ((responder_end c a a' b b', r), Ok ())"
    using HandleFinish_run [OF laws(1) m(3), of ?h1 ds r] s(2)
    by (simp add: responder_end_def NewKEMHandshake_def)
  have key: "DeriveSessionKey c (responder_end c a a' b b') = Ok (session_key c a a' b b')"
    by (simp add: DeriveSessionKey_Established [OF laws(2)] session_key_def responder_end_def)
  note sizes = run_message_sizes [OF laws(1)]
  obtain t1 fb1 where recv1: "recv_msg tr env 0 s = Some
      (s\<lparr>sn_conn := t1, sn_fb := fb1\<rparr>, Ok (MsgHandshakeRequest, m1))"
    and t1: "up t1" "pending t1 = message_packets MsgHandshakeFinish mid' m3 1400 @ ps"
      "sent t1 = sent (sn_conn s)" "fragments fb1 = []"
    by (rule recv_step [OF up inc s(3) sizes(1) [OF m(1)]])
  let ?s2 = "s\<lparr>sn_conn := t1, sn_fb := fb1, sn_rng := map Some ds @ r\<rparr>"
  have up2: "up (sn_conn ?s2)" using t1 by simp
  obtain t3 where send1: "send_msg tr env 0 m2 MsgHandshakeAgree ?s2 = Some (?s2\<lparr>sn_conn := t3\<rparr>, Ok ())"
    and t3: "up t3" "pending t3 = pending (sn_conn ?s2)"
      "sent t3 = sent (sn_conn ?s2) @ message_packets MsgHandshakeAgree (msg_id env 0) m2 1400"
    by (rule send_step [OF up2])
  let ?s3 = "?s2\<lparr>sn_conn := t3\<rparr>"
  have s3: "up (sn_conn ?s3)" "fragments (sn_fb ?s3) = []"
    "pending (sn_conn ?s3) = message_packets MsgHandshakeFinish mid' m3 1400 @ ps"
    using t3 t1 by simp_all
  obtain t4 fb4 where recv2: "recv_msg tr env 1 ?s3 = Some
      (?s3\<lparr>sn_conn := t4, sn_fb := fb4\<rparr>, Ok (MsgHandshakeFinish, m3))"
    and t4: "up t4" "pending t4 = ps" "sent t4 = sent (sn_conn ?s3)" "fragments fb4 = []"
    by (rule recv_step [OF s3(1,3,2) sizes(3) [OF m(3)]])
  let ?s5 = "?s3\<lparr>sn_conn := t4, sn_fb := fb4, sn_rng := r\<rparr>"
  have run: "responder_kem c tr env s = Some (?s5, Ok (responder_end c a a' b b', session_key c a a' b b'))"
    using recv1 req send1 recv2 fin key
    by (simp add: responder_kem_def session_run Let_def)
  show thesis by (rule that [OF run]) (use t4 t3 t1 in simp_all)
qed

lemma responder_run:
  assumes laws: "kem_laws c" "hash_laws c" and up: "up (sn_conn s)"
    and s: "sn_rng s = Some b # Some b' # map Some ds @ r" "length ds = 64" "fragments (sn_fb s) = []"
    and m: "HandshakeRequest_Serialize (request_of c a) = Ok m1"
      "HandshakeAgree_Serialize (agree_of c a b b') = Ok m2"
      "HandshakeFinish_Serialize \<lparr>fin_Ciphertext = snd (encaps_of c b a')\<rparr> = Ok m3"
    and inc: "pending (sn_conn s) = message_packets MsgHandshakeRequest mid m1 1400 @
      message_packets MsgHandshakeFinish mid' m3 1400 @ [MsgIdentityMessage # field ct]"
    and ct: "10 \<le> length ct" "take 2 ct \<noteq> [0, 1]"
  obtains s' e where "performHandshakeResponder c tr env cl target s = Some (s', Err e)"
    "sent (sn_conn s') = sent (sn_conn s) @ message_packets MsgHandshakeAgree (msg_id env 0) m2 1400"
proof -
  obtain s5 where kem: "responder_kem c tr env s =
      Some (s5, Ok (responder_end c a a' b b', session_key c a a' b b'))"
    and s5: "up (sn_conn s5)" "pending (sn_conn s5) = [MsgIdentityMessage # field ct]"
      "fragments (sn_fb s5) = []"
      "sent (sn_conn s5) = sent (sn_conn s) @ message_packets MsgHandshakeAgree (msg_id env 0) m2 1400"
    by (rule responder_kem_run [OF laws up s m inc])
  obtain s' e where stop: "recv_msg tr env 2 s5 = Some (s', Err e)"
    "sent (sn_conn s') = sent (sn_conn s5)"
    by (rule recv_identity_ends [OF s5(1,2) ct s5(3)])
  have run: "performHandshakeResponder c tr env cl target s = Some (s', Err e)"
    using kem stop(1)
    by (simp add: performHandshakeResponder_def responder_identity_def session_run Let_def)
  show thesis by (rule that [OF run]) (use stop(2) s5(4) in simp_all)
qed

text \<open>
  A responder that gets only some fragments of a request fails and leaves them in the buffer;
  one that finds the others there completes the request and answers it.
\<close>

lemma responder_collects:
  assumes "up (sn_conn s)" "pending (sn_conn s) = map (frag_packet flag tot mid data m) ix"
    and "fragments (sn_fb s) = []" "tot \<noteq> 1" "set ix \<subset> {j. j < tot}"
  obtains s' e where "performHandshakeResponder c tr env cl target s = Some (s', Err e)"
    "sn_rng s' = sn_rng s" "sent (sn_conn s') = sent (sn_conn s)"
    "collecting [] mid data m (set ix) (sn_fb s')"
proof -
  obtain t' fb' e where "ReceiveFragmented tr (se_recv env 0) 0 (sn_fb s) (sn_conn s) = Some (t', fb', Err e)"
    "sent t' = sent (sn_conn s)" "collecting [] mid data m (set ix) fb'"
    using receive_incomplete [OF assms(1,2) collecting_start [OF assms(3)] _ _ assms(4),
        where env = "se_recv env 0" and k = 0] assms(5) by auto
  then show thesis
    by (intro that [of "s\<lparr>sn_conn := t', sn_fb := fb'\<rparr>" e])
       (simp_all add: performHandshakeResponder_def responder_kem_def session_run recv_msg_def)
qed

lemma responder_completes:
  assumes laws: "kem_laws c" and up: "up (sn_conn s)" and s: "sn_rng s = Some b # Some b' # r"
    and m: "HandshakeRequest_Serialize (request_of c a) = Ok m1"
      "HandshakeAgree_Serialize (agree_of c a b b') = Ok m2"
    and inc: "pending (sn_conn s) = map (frag_packet MsgHandshakeRequest tot mid m1 m) (ix @ [j])"
      "collecting [] mid m1 m S (sn_fb s)" "tot \<noteq> 1"
      "j \<notin> S \<union> set ix" "insert j (S \<union> set ix) = {j. j < tot}" "length m1 \<le> unat tot * m"
  obtains s' e where "performHandshakeResponder c tr env cl target s = Some (s', Err e)"
    "sn_rng s' = r" "sent (sn_conn s') = sent (sn_conn s) @ message_packets MsgHandshakeAgree (msg_id env 0) m2 1400"
proof -
  obtain t1 fb1 where recv1: "recv_msg tr env 0 s = Some (s\<lparr>sn_conn := t1, sn_fb := fb1\<rparr>, Ok (MsgHandshakeRequest, m1))"
    and t1: "up t1" "pending t1 = []" "sent t1 = sent (sn_conn s)"
    using receive_rest [OF up _ inc(2) _ _ inc(3-6), where flag = MsgHandshakeRequest
        and env = "se_recv env 0" and k = 0 and ps = "[]"] inc(1)
    by (auto simp: recv_msg_def)
  obtain h1 where req: "HandleRequest c m1 (NewKEMHandshake False, sn_rng s) = ((h1, r), Ok m2)"
    using HandleRequest_run [OF laws m, of "NewKEMHandshake False" r] by (simp add: s)
  let ?s2 = "s\<lparr>sn_conn := t1, sn_fb := fb1, sn_rng := r\<rparr>"
  have "up (sn_conn ?s2)" using t1 by simp
  then obtain t3 where send1: "send_msg tr env 0 m2 MsgHandshakeAgree ?s2 = Some (?s2\<lparr>sn_conn := t3\<rparr>, Ok ())"
    and t3: "up t3" "pending t3 = pending (sn_conn ?s2)"
      "sent t3 = sent (sn_conn ?s2) @ message_packets MsgHandshakeAgree (msg_id env 0) m2 1400"
    by (rule send_step)
  have "up (sn_conn (?s2\<lparr>sn_conn := t3\<rparr>))" "pending (sn_conn (?s2\<lparr>sn_conn := t3\<rparr>)) = []"
    using t3 t1 by simp_all
  then obtain s' e where stop: "recv_msg tr env 1 (?s2\<lparr>sn_conn := t3\<rparr>) = Some (s', Err e)"
    "sent (sn_conn s') = sent t3" "sn_rng s' = r"
    by (rule recv_end) simp
  have "performHandshakeResponder c tr env cl target s = Some (s', Err e)"
    using recv1 req send1 stop(1)
    by (simp add: performHandshakeResponder_def responder_kem_def session_run Let_def)
  then show thesis using stop(2,3) t3(3) t1(3) by (intro that) simp_all
qed

end

text \<open>\<open>Accept\<close> on a failed session: the connection is closed, the buffer stays with the client.\<close>

lemma Accept_fails:
  assumes "performHandshakeResponder c (direct_transport lib now) env cl target
      \<lparr>sn_rng = r, sn_fb = fragmentBuffer cl, sn_conn = NewDirectConn x\<rparr> = Some (s, Err e)"
  shows "Accept c lib now env x target cl r =
    Some (fst (DirectConn_Close lib (sn_conn s)), cl\<lparr>fragmentBuffer := sn_fb s\<rparr>, sn_rng s, Err e)"
  using assms by (simp add: Accept_def)

lemma accepted_up:
  assumes "ws_laws lib v" "ws_live v x" "ws_waiting v x = map (Pair BinaryMessage) ds"
  shows "direct_up lib v (NewDirectConn x)" "direct_in v (NewDirectConn x) = ds"
    "direct_out v (NewDirectConn x) = ws_sent v x"
  using assms by (auto simp: direct_up_def direct_in_def direct_out_def NewDirectConn_def frames_binary_def comp_def)

lemma Accept_collects:
  assumes ws: "ws_laws lib v" "ws_live v x"
    "ws_waiting v x = map (Pair BinaryMessage) (map (frag_packet flag tot mid data m) ix)"
    and cl: "fragments (fragmentBuffer cl) = []" and ix: "tot \<noteq> 1" "set ix \<subset> {j. j < tot}"
  obtains dc fb e where "Accept c lib now env x target cl r = Some (dc, cl\<lparr>fragmentBuffer := fb\<rparr>, r, Err e)"
    "direct_out v dc = ws_sent v x" "collecting [] mid data m (set ix) fb"
proof -
  note new = accepted_up [OF ws]
  obtain s' e where s': "performHandshakeResponder c (direct_transport lib now) env cl target
      \<lparr>sn_rng = r, sn_fb = fragmentBuffer cl, sn_conn = NewDirectConn x\<rparr> = Some (s', Err e)"
    "sn_rng s' = r" "direct_out v (sn_conn s') = ws_sent v x" "collecting [] mid data m (set ix) (sn_fb s')"
    by (rule direct_conn.responder_collects [OF _ _ _ ix, where lib = lib and v = v and now = now and data = data and m = m
        and mid = mid and flag = flag and c = c and env = env and cl = cl and target = target
        and s = "\<lparr>sn_rng = r, sn_fb = fragmentBuffer cl, sn_conn = NewDirectConn x\<rparr>"])
       (use new cl in simp_all)
  show thesis
    by (rule that [OF Accept_fails [OF s'(1), unfolded s'(2)]])
       (use s'(3,4) DirectConn_Close_out [OF ws(1)] in simp_all)
qed

lemma Accept_completes:
  assumes laws: "kem_laws c" and ws: "ws_laws lib v" "ws_live v x"
    "ws_waiting v x = map (Pair BinaryMessage) (map (frag_packet MsgHandshakeRequest tot mid m1 m) (ix @ [j]))"
    and m: "HandshakeRequest_Serialize (request_of c a) = Ok m1"
      "HandshakeAgree_Serialize (agree_of c a b b') = Ok m2"
    and S: "collecting [] mid m1 m S (fragmentBuffer cl)" "tot \<noteq> 1"
      "j \<notin> S \<union> set ix" "insert j (S \<union> set ix) = {j. j < tot}" "length m1 \<le> unat tot * m"
  obtains dc cl' e where "Accept c lib now env x target cl (Some b # Some b' # r) = Some (dc, cl', r, Err e)"
    "direct_out v dc = ws_sent v x @ message_packets MsgHandshakeAgree (msg_id env 0) m2 1400"
proof -
  note new = accepted_up [OF ws]
  obtain s' e where s': "performHandshakeResponder c (direct_transport lib now) env cl target
      \<lparr>sn_rng = Some b # Some b' # r, sn_fb = fragmentBuffer cl, sn_conn = NewDirectConn x\<rparr> = Some (s', Err e)"
    "sn_rng s' = r"
    "direct_out v (sn_conn s') = ws_sent v x @ message_packets MsgHandshakeAgree (msg_id env 0) m2 1400"
    by (rule direct_conn.responder_completes [OF laws _ _ m _ _ S(2-5), where lib = lib and v = v and now = now
        and mid = mid and env = env and cl = cl and target = target and r = r
        and s = "\<lparr>sn_rng = Some b # Some b' # r, sn_fb = fragmentBuffer cl, sn_conn = NewDirectConn x\<rparr>"])
       (use new S(1) in simp_all)
  show thesis
    by (rule that [OF Accept_fails [OF s'(1), unfolded s'(2)]])
       (use s'(3) DirectConn_Close_out [OF ws(1)] in simp_all)
qed

section \<open>Authentication\<close>

lemma sm_bind_Ok_iff:
  "sm_bind m f s = Some (s', Ok b) \<longleftrightarrow> (\<exists>s1 a. m s = Some (s1, Ok a) \<and> f a s1 = Some (s', Ok b))"
  by (auto simp: sm_bind_def split: option.splits res.splits)

lemma call_meth_Ok_iff:
  "call_meth m h s = Some (s', Ok x) \<longleftrightarrow>
     (\<exists>h' r' a. m (h, sn_rng s) = ((h', r'), Ok a) \<and> s' = s\<lparr>sn_rng := r'\<rparr> \<and> x = (h', a))"
  by (auto simp: call_meth_def res_iff split: prod.splits)

lemma sm_res_Ok_iff: "sm_res r s = Some (s', Ok a) \<longleftrightarrow> s' = s \<and> r = Ok a"
  by (auto simp: sm_res_def)

lemmas session_inv = sm_bind_Ok_iff call_meth_Ok_iff sm_res_Ok_iff Let_def

text \<open>
  What a client has seen between two points of its run when it takes the other side for
  \<open>target\<close>: a first message that opens to a public key hashing to \<open>target\<close>; a challenge of its
  own, made from the next two draws of its random source and sent; and then a message that
  opens to a signature, valid under that very key, over that challenge, the channel binding and
  the session key. The numbers \<open>i\<close>, \<open>j\<close>, \<open>k\<close> are those of the two receives and of the send.
\<close>

definition challenge_of :: "crypto_lib \<Rightarrow> bytes \<Rightarrow> bytes \<Rightarrow> bytes \<Rightarrow> bytes" where
  "challenge_of c key n x = fit 12 x @ lib_seal c key (fit 12 x) (fit 32 n)"

definition peer_proved ::
  "crypto_lib \<Rightarrow> 't Transport \<Rightarrow> session_env \<Rightarrow> nat \<Rightarrow> nat \<Rightarrow> nat \<Rightarrow> bytes \<Rightarrow> bytes \<Rightarrow> bytes \<Rightarrow>
     't session \<Rightarrow> 't session \<Rightarrow> bool" where
  "peer_proved c tr env i j k cb key target s s' \<longleftrightarrow>
     (\<exists>s1 ident pub n x r s2 resp sig.
        recv_msg tr env i s = Some (s1, Ok (MsgIdentityMessage, ident))
      \<and> AESGCMDecrypt c key ident = Ok pub \<and> ComputeIDHash c pub = Ok target \<and> length pub = 32
      \<and> sn_rng s1 = Some n # Some x # r
      \<and> send_msg tr env j (challenge_of c key n x) MsgChallenge (s1\<lparr>sn_rng := r\<rparr>) = Some (s2, Ok ())
      \<and> recv_msg tr env k s2 = Some (s', Ok (MsgSignatureResponse, resp))
      \<and> AESGCMDecrypt c key resp = Ok sig \<and> length sig = 64
      \<and> lib_ed_verify c pub (challenge_of c key n x @ cb @ key) sig)"

lemma HandlePeerIdentity_evidence:
  assumes "HandlePeerIdentity c data (e, r) = ((e1, r1), Ok chal)"
  obtains pub n x where "AESGCMDecrypt c (sessionKey e) data = Ok pub" "ComputeIDHash c pub = Ok (peerIDHash e)"
    "e1 = e\<lparr>peerDSAPubkey := pub\<rparr>" "r = Some n # Some x # r1" "chal = challenge_of c (sessionKey e) n x"
proof -
  from assms obtain pub r' nonce where dec: "AESGCMDecrypt c (sessionKey e) data = Ok pub"
    "ComputeIDHash c pub = Ok (peerIDHash e)" "e1 = e\<lparr>peerDSAPubkey := pub\<rparr>"
    and draw: "rand_Read 32 r = (r', Ok nonce)" and enc: "AESGCMEncrypt c (sessionKey e) nonce r' = (r1, Ok chal)"
    by (auto simp: ix_eqs split: res.splits prod.splits if_splits)
  from enc obtain iv where "chal = iv @ lib_seal c (sessionKey e) iv nonce" "ReadFull 12 r' = (r1, Ok iv)"
    by (rule AESGCMEncrypt_Ok)
  then show thesis
    using dec rand_Read_Ok [OF draw] by (auto simp: challenge_of_def dest!: ReadFull_Ok intro: that)
qed

lemma VerifyResponse_evidence:
  assumes "VerifyResponse c resp chal cb key (e, r) = ((e1, r1), Ok True)"
  obtains sig where "AESGCMDecrypt c (sessionKey e) resp = Ok sig" "length (peerDSAPubkey e) = 32" "length sig = 64"
    "lib_ed_verify c (peerDSAPubkey e) (chal @ cb @ key) sig" "r1 = r"
  using assms by (auto simp: ix_eqs MLDSAVerify_eq split: res.splits if_splits)

lemma check_peer_proves:
  assumes "check_peer c tr env i j k cb key e s = Some (s', Ok e')" "sessionKey e = key"
  shows "peer_proved c tr env i j k cb key (peerIDHash e) s s'"
proof -
  from assms(1) obtain s1 ident e1 r1 chal s2 s3 resp e2 r3 where
    recv: "recv_msg tr env i s = Some (s1, Ok (MsgIdentityMessage, ident))"
    and peer: "HandlePeerIdentity c ident (e, sn_rng s1) = ((e1, r1), Ok chal)"
    and send: "send_msg tr env j chal MsgChallenge (s1\<lparr>sn_rng := r1\<rparr>) = Some (s2, Ok ())"
    and resp: "recv_msg tr env k s2 = Some (s3, Ok (MsgSignatureResponse, resp))"
    and verify: "VerifyResponse c resp chal cb key (e1, sn_rng s3) = ((e2, r3), Ok True)"
    and s': "s' = s3\<lparr>sn_rng := r3\<rparr>"
    by (auto simp: check_peer_def session_inv expect_def split: if_splits)
  obtain pub n x where "AESGCMDecrypt c key ident = Ok pub" "ComputeIDHash c pub = Ok (peerIDHash e)"
    and e1: "e1 = e\<lparr>peerDSAPubkey := pub\<rparr>" and "sn_rng s1 = Some n # Some x # r1" "chal = challenge_of c key n x"
    using peer assms(2) by (elim HandlePeerIdentity_evidence) auto
  moreover obtain sig where "AESGCMDecrypt c key resp = Ok sig" "length pub = 32" "length sig = 64"
    "lib_ed_verify c pub (chal @ cb @ key) sig" "r3 = sn_rng s3"
    using verify assms(2) by (elim VerifyResponse_evidence) (auto simp: e1)
  ultimately show ?thesis
    using recv send resp unfolding peer_proved_def s' by (intro exI conjI) auto
qed

lemma prove_self_leaves: "prove_self c tr env i j cb key e s = Some (s', Ok e') \<Longrightarrow> e' = e"
  by (auto simp: prove_self_def session_inv dest!: HandleChallenge_leaves)

lemma kem_key:
  "initiator_kem c tr env s = Some (s', Ok (h, key)) \<Longrightarrow> DeriveSessionKey c h = Ok key"
  "responder_kem c tr env s = Some (s', Ok (h, key)) \<Longrightarrow> DeriveSessionKey c h = Ok key"
  by (auto simp: initiator_kem_def responder_kem_def session_inv)

lemma NewIdentityExchange_fields [simp]:
  "sessionKey (NewIdentityExchange key kp target) = key"
  "peerIDHash (NewIdentityExchange key kp target) = target"
  "myDSAKeypair (NewIdentityExchange key kp target) = kp"
  by (simp_all add: NewIdentityExchange_def)

text \<open>A session that succeeds, cut at the points between its phases.\<close>

lemma performHandshake_proves:
  assumes "performHandshake c tr env cl target s = Some (s', Ok ch)"
  obtains h key cb s1 s2 where "ch = NewSecureChannel key" "cb = MyKEMPublicKey h @ PeerPubkey h"
    "initiator_kem c tr env s = Some (s1, Ok (h, key))" "DeriveSessionKey c h = Ok key"
    "prove_self c tr env 1 2 cb key (NewIdentityExchange key (Some (identityKeypair cl)) target) s1 =
       Some (s2, Ok (NewIdentityExchange key (Some (identityKeypair cl)) target))"
    "peer_proved c tr env 2 3 3 cb key target s2 s'"
proof -
  from assms obtain h key s1 s2 e e' where
    kem: "initiator_kem c tr env s = Some (s1, Ok (h, key))"
    and prove: "prove_self c tr env 1 2 (MyKEMPublicKey h @ PeerPubkey h) key
      (NewIdentityExchange key (Some (identityKeypair cl)) target) s1 = Some (s2, Ok e)"
    and check: "check_peer c tr env 2 3 3 (MyKEMPublicKey h @ PeerPubkey h) key e s2 = Some (s', Ok e')"
    and ch: "ch = NewSecureChannel key"
    by (auto simp: performHandshake_def initiator_identity_halves session_inv)
  note e = prove_self_leaves [OF prove]
  show thesis
    by (rule that [OF ch refl kem kem_key(1) [OF kem] prove [unfolded e]])
       (use check_peer_proves [OF check] in \<open>simp add: e\<close>)
qed

lemma performHandshakeResponder_proves:
  assumes "performHandshakeResponder c tr env cl target s = Some (s', Ok ch)"
  obtains h key cb s1 s2 where "ch = NewSecureChannel key" "cb = MyKEMPublicKey h @ PeerPubkey h"
    "responder_kem c tr env s = Some (s1, Ok (h, key))" "DeriveSessionKey c h = Ok key"
    "peer_proved c tr env 2 1 3 cb key target s1 s2"
proof -
  from assms obtain h key s1 s2 e where
    kem: "responder_kem c tr env s = Some (s1, Ok (h, key))"
    and check: "check_peer c tr env 2 1 3 (MyKEMPublicKey h @ PeerPubkey h) key
      (NewIdentityExchange key (Some (identityKeypair cl)) target) s1 = Some (s2, Ok e)"
    and ch: "ch = NewSecureChannel key"
    by (auto simp: performHandshakeResponder_def responder_identity_halves session_inv)
  show thesis
    by (rule that [OF ch refl kem kem_key(2) [OF kem]]) (use check_peer_proves [OF check] in simp)
qed

section \<open>A peer that is accepted\<close>

text \<open>What a matching peer sends fits into fragments, and opens to what it sealed.\<close>

lemma matching_peer:
  assumes laws: "aead_laws c" "sig_laws c"
    and me: "GenerateMLDSAKeypair c q = (q', Ok kp)" and peer: "GenerateMLDSAKeypair c p = (p', Ok peerKp)"
    and chal: "AESGCMEncrypt c key (fit 32 nonce) r1 = (r1', Ok chal)"
    and ident: "AESGCMEncrypt c key (dsa_Public peerKp) r2 = (r2', Ok encPub)"
    and sign: "MLDSASign c (dsa_Private peerKp) m = Ok psig"
    and resp: "AESGCMEncrypt c key psig r3 = (r3', Ok resp)"
  obtains sig where "AESGCMDecrypt c key chal = Ok (fit 32 nonce)"
    "MLDSASign c (dsa_Private kp) (fit 32 nonce @ cb @ key) = Ok sig" "length sig \<le> gcm_max"
    "AESGCMDecrypt c key encPub = Ok (dsa_Public peerKp)" "AESGCMDecrypt c key resp = Ok psig"
    "MLDSAVerify c (dsa_Public peerKp) m psig = Ok True" "length (dsa_Public kp) \<le> gcm_max"
    "fragment_count chal 1400 < 2 ^ 16" "fragment_count encPub 1400 < 2 ^ 16" "fragment_count resp 1400 < 2 ^ 16"
proof -
  have pub: "length (dsa_Public kp) = 32" if "GenerateMLDSAKeypair c q = (q', Ok kp)" for kp q q'
    using that by (rule GenerateMLDSAKeypair_Ok) (simp add: sig_law_facts [OF laws(2)])
  obtain sig where sig: "MLDSASign c (dsa_Private kp) (fit 32 nonce @ cb @ key) = Ok sig" "length sig = 64"
    by (rule MLDSASign_generated [OF laws(2) me])
  have "length psig = 64" using MLDSASign_generated [OF laws(2) peer] sign by (metis res.inject(1))
  then have "fragment_count chal 1400 < 2 ^ 16" "fragment_count encPub 1400 < 2 ^ 16" "fragment_count resp 1400 < 2 ^ 16"
    using AESGCMEncrypt_length [OF laws(1) chal] AESGCMEncrypt_length [OF laws(1) ident]
      AESGCMEncrypt_length [OF laws(1) resp] pub [OF peer]
    by (simp_all add: fragment_count_def)
  then show thesis
    using sig pub [OF me] MLDSAVerify_Sign [OF laws(2) peer sign] AESGCMDecrypt_Encrypt [OF laws(1) chal]
      AESGCMDecrypt_Encrypt [OF laws(1) ident] AESGCMDecrypt_Encrypt [OF laws(1) resp]
    by (intro that [OF _ sig(1)]) (simp_all add: gcm_max_def)
qed

context transport
begin

text \<open>A whole session against such a peer, on either side.\<close>

lemma initiator_accepts:
  assumes laws: "kem_laws c" "aead_laws c" "sig_laws c" "hash_laws c"
    and me: "GenerateMLDSAKeypair c q = (q', Ok (identityKeypair cl))"
    and peer: "GenerateMLDSAKeypair c p = (p', Ok peerKp)" "ComputeIDHash c (dsa_Public peerKp) = Ok target"
    and key: "key = session_key c a a' b b'"
    and agree: "HandshakeAgree_Serialize (agree_of c a b b') = Ok m2"
    and chal: "AESGCMEncrypt c key (fit 32 nonce) r1 = (r1', Ok chal)"
    and ident: "AESGCMEncrypt c key (dsa_Public peerKp) r2 = (r2', Ok encPub)"
    and sign: "MLDSASign c (dsa_Private peerKp) ((fit 12 x @ lib_seal c key (fit 12 x) (fit 32 n')) @
        (lib_kem_ek c (fit 64 a) @ lib_kem_ek c (fit 64 b)) @ key) = Ok psig"
    and resp: "AESGCMEncrypt c key psig r3 = (r3', Ok resp)"
    and s: "up (sn_conn s)" "sn_rng s = Some a # Some a' # Some n # Some y # Some n' # Some x # r" "fragments (sn_fb s) = []"
    and inc: "pending (sn_conn s) =
         message_packets MsgHandshakeAgree i0 m2 1400 @ message_packets MsgChallenge i1 chal 1400 @
         message_packets MsgIdentityMessage i2 encPub 1400 @ message_packets MsgSignatureResponse i3 resp 1400 @ ps"
  obtains s' where "performHandshake c tr env cl target s = Some (s', Ok (NewSecureChannel key))"
    "up (sn_conn s')" "pending (sn_conn s') = ps" "sn_rng s' = r"
proof -
  obtain m1 where m1: "HandshakeRequest_Serialize (request_of c a) = Ok m1" using request.ser_total by blast
  obtain m3 where m3: "HandshakeFinish_Serialize \<lparr>fin_Ciphertext = snd (encaps_of c b a')\<rparr> = Ok m3"
    using finish.ser_total by blast
  let ?cb = "lib_kem_ek c (fit 64 a) @ lib_kem_ek c (fit 64 b)"
  obtain s1 where kem: "initiator_kem c tr env s = Some (s1, Ok (initiator_end c a a' b b', key))"
    and s1: "sn_rng s1 = Some n # Some y # Some n' # Some x # r" "up (sn_conn s1)"
      "pending (sn_conn s1) = message_packets MsgChallenge i1 chal 1400 @
         message_packets MsgIdentityMessage i2 encPub 1400 @ message_packets MsgSignatureResponse i3 resp 1400 @ ps"
      "fragments (sn_fb s1) = []"
    unfolding key by (rule initiator_kem_run [OF laws(1,4) s m1 agree m3 inc])
  have len: "length key = 32" by (simp add: key session_key_def hash_law_facts [OF laws(4)])
  obtain sig where m: "AESGCMDecrypt c key chal = Ok (fit 32 nonce)"
      "MLDSASign c (dsa_Private (identityKeypair cl)) (fit 32 nonce @ ?cb @ key) = Ok sig" "length sig \<le> gcm_max"
      "AESGCMDecrypt c key encPub = Ok (dsa_Public peerKp)" "AESGCMDecrypt c key resp = Ok psig"
      "MLDSAVerify c (dsa_Public peerKp) ((fit 12 x @ lib_seal c key (fit 12 x) (fit 32 n')) @ ?cb @ key) psig = Ok True"
      "length (dsa_Public (identityKeypair cl)) \<le> gcm_max"
    and small: "fragment_count chal 1400 < 2 ^ 16" "fragment_count encPub 1400 < 2 ^ 16" "fragment_count resp 1400 < 2 ^ 16"
    by (rule matching_peer [OF laws(2,3) me peer(1) chal ident sign resp])
  obtain s2 where "initiator_identity c tr env ?cb key
      (NewIdentityExchange key (Some (identityKeypair cl)) target) s1 = Some (s2, Ok (NewSecureChannel key))"
    and s2: "up (sn_conn s2)" "pending (sn_conn s2) = ps" "sn_rng s2 = r"
    by (rule initiator_identity_run [OF s1(2,1,4) len m(7,1-4) peer(2) m(5,6) small s1(3)])
  then have "performHandshake c tr env cl target s = Some (s2, Ok (NewSecureChannel key))"
    using kem by (simp add: performHandshake_def session_run initiator_binding Let_def)
  then show thesis using s2 by (intro that)
qed

lemma responder_accepts:
  assumes laws: "kem_laws c" "aead_laws c" "sig_laws c" "hash_laws c"
    and me: "GenerateMLDSAKeypair c q = (q', Ok (identityKeypair cl))"
    and peer: "GenerateMLDSAKeypair c p = (p', Ok peerKp)" "ComputeIDHash c (dsa_Public peerKp) = Ok target"
    and key: "key = session_key c a a' b b'" "length ds = 64"
    and m: "HandshakeRequest_Serialize (request_of c a) = Ok m1"
      "HandshakeFinish_Serialize \<lparr>fin_Ciphertext = snd (encaps_of c b a')\<rparr> = Ok m3"
    and chal: "AESGCMEncrypt c key (fit 32 nonce) r1 = (r1', Ok chal)"
    and ident: "AESGCMEncrypt c key (dsa_Public peerKp) r2 = (r2', Ok encPub)"
    and sign: "MLDSASign c (dsa_Private peerKp) ((fit 12 x @ lib_seal c key (fit 12 x) (fit 32 n')) @
        lib_kem_ek c (fit 64 a) @ key) = Ok psig"
    and resp: "AESGCMEncrypt c key psig r3 = (r3', Ok resp)"
    and s: "up (sn_conn s)" "sn_rng s = Some b # Some b' # map Some ds @ Some n' # Some x # Some n # Some y # r"
      "fragments (sn_fb s) = []"
    and inc: "pending (sn_conn s) =
         message_packets MsgHandshakeRequest i0 m1 1400 @ message_packets MsgHandshakeFinish i0' m3 1400 @
         message_packets MsgIdentityMessage i2 encPub 1400 @ message_packets MsgSignatureResponse i3 resp 1400 @
         message_packets MsgChallenge i1 chal 1400 @ ps"
  obtains s' where "performHandshakeResponder c tr env cl target s = Some (s', Ok (NewSecureChannel key))"
    "up (sn_conn s')" "pending (sn_conn s') = ps" "sn_rng s' = r"
proof -
  obtain m2 where m2: "HandshakeAgree_Serialize (agree_of c a b b') = Ok m2" using agree.ser_total by blast
  let ?cb = "lib_kem_ek c (fit 64 a)"
  obtain s1 where kem: "responder_kem c tr env s = Some (s1, Ok (responder_end c a a' b b', key))"
    and s1: "sn_rng s1 = Some n' # Some x # Some n # Some y # r" "up (sn_conn s1)"
      "pending (sn_conn s1) = message_packets MsgIdentityMessage i2 encPub 1400 @
         message_packets MsgSignatureResponse i3 resp 1400 @ message_packets MsgChallenge i1 chal 1400 @ ps"
      "fragments (sn_fb s1) = []"
    unfolding key(1) by (rule responder_kem_run [OF laws(1,4) s(1,2) key(2) s(3) m(1) m2 m(2) inc])
  have len: "length key = 32" by (simp add: key session_key_def hash_law_facts [OF laws(4)])
  obtain sig where m: "AESGCMDecrypt c key chal = Ok (fit 32 nonce)"
      "MLDSASign c (dsa_Private (identityKeypair cl)) (fit 32 nonce @ ?cb @ key) = Ok sig" "length sig \<le> gcm_max"
      "AESGCMDecrypt c key encPub = Ok (dsa_Public peerKp)" "AESGCMDecrypt c key resp = Ok psig"
      "MLDSAVerify c (dsa_Public peerKp) ((fit 12 x @ lib_seal c key (fit 12 x) (fit 32 n')) @ ?cb @ key) psig = Ok True"
      "length (dsa_Public (identityKeypair cl)) \<le> gcm_max"
    and small: "fragment_count chal 1400 < 2 ^ 16" "fragment_count encPub 1400 < 2 ^ 16" "fragment_count resp 1400 < 2 ^ 16"
    by (rule matching_peer [OF laws(2,3) me peer(1) chal ident sign resp])
  obtain s2 where "responder_identity c tr env ?cb key
      (NewIdentityExchange key (Some (identityKeypair cl)) target) s1 = Some (s2, Ok (NewSecureChannel key))"
    and s2: "up (sn_conn s2)" "pending (sn_conn s2) = ps" "sn_rng s2 = r"
    by (rule responder_identity_run [OF s1(2,1,4) len m(7,1-4) peer(2) m(5,6) small s1(3)])
  then have "performHandshakeResponder c tr env cl target s = Some (s2, Ok (NewSecureChannel key))"
    using kem by (simp add: performHandshakeResponder_def session_run responder_binding Let_def)
  then show thesis using s2 by (intro that)
qed

end

text \<open>Such a peer, made with the demonstration library.\<close>

definition demo_keypair :: "byte \<Rightarrow> MLDSAKeyPair" where
  "demo_keypair b = \<lparr>dsa_Public = fit 32 [b], dsa_Private = fit 32 [b] @ fit 32 [b]\<rparr>"

lemma demo_generates: "GenerateMLDSAKeypair demo_lib [Some [b]] = ([], Ok (demo_keypair b))"
  by (simp add: mldsa_defs st_bind_def demo_lib_def demo_keypair_def)

lemma demo_target: "ComputeIDHash demo_lib (dsa_Public (demo_keypair b)) = Ok (demo_digest (fit 32 [b]))"
  unfolding ComputeIDHash_eq [OF demo_laws(4)] by (simp add: demo_lib_def demo_keypair_def)

lemma demo_peer:
  assumes "length key = 32"
  obtains chal encPub psig resp where
    "AESGCMEncrypt demo_lib key (fit 32 [11]) [Some [12]] = ([], Ok chal)"
    "AESGCMEncrypt demo_lib key (dsa_Public (demo_keypair 6)) [Some [13]] = ([], Ok encPub)"
    "MLDSASign demo_lib (dsa_Private (demo_keypair 6)) m = Ok psig"
    "AESGCMEncrypt demo_lib key psig [Some [14]] = ([], Ok resp)"
proof -
  obtain psig where sign: "MLDSASign demo_lib (dsa_Private (demo_keypair 6)) m = Ok psig" "length psig = 64"
    by (rule MLDSASign_generated [OF demo_laws(3) demo_generates])
  have "length (dsa_Public (demo_keypair 6)) = 32" by (simp add: demo_keypair_def)
  then show thesis
    using AESGCMEncrypt_Some [OF assms, of "fit 32 [11]"] AESGCMEncrypt_Some [OF assms, of "dsa_Public (demo_keypair 6)"]
      AESGCMEncrypt_Some [OF assms, of psig] sign
    by (intro that [OF _ _ sign(1)]) (simp_all add: gcm_max_def)
qed

lemma demo_key_length: "length (session_key demo_lib a a' b b') = 32"
  by (simp add: session_key_def hash_law_facts [OF demo_laws(4)])

abbreviation demo_client :: "string \<Rightarrow> PQCClient" where
  "demo_client addr \<equiv> \<lparr>identityKeypair = demo_keypair 5, myIDHash = [], relayURL = [], directAddr = addr,
     fragmentBuffer = NewFragmentBuffer 9 0\<rparr>"

lemma demo_connects:
  "\<exists>w t cl' key. Connect demo_lib demo_websocket 0 env (\<lambda>url. Ok w) (demo_digest (fit 32 [6])) (demo_client ''h:1'')
     (map Some [[1], [2], [7], [8], [9], [10]]) = Some (Some t, cl', [], Ok (NewSecureChannel key))"
proof -
  let ?cl = "demo_client ''h:1''" and ?key = "session_key demo_lib [1] [2] [3] [4]"
  have me: "GenerateMLDSAKeypair demo_lib [Some [5]] = ([], Ok (identityKeypair ?cl))" by (simp add: demo_generates)
  obtain m2 where m2: "HandshakeAgree_Serialize (agree_of demo_lib [1] [3] [4]) = Ok m2"
    using agree.ser_total by blast
  obtain chal encPub psig resp where peer:
    "AESGCMEncrypt demo_lib ?key (fit 32 [11]) [Some [12]] = ([], Ok chal)"
    "AESGCMEncrypt demo_lib ?key (dsa_Public (demo_keypair 6)) [Some [13]] = ([], Ok encPub)"
    "MLDSASign demo_lib (dsa_Private (demo_keypair 6))
      ((fit 12 [10] @ lib_seal demo_lib ?key (fit 12 [10]) (fit 32 [9])) @
        (lib_kem_ek demo_lib (fit 64 [1]) @ lib_kem_ek demo_lib (fit 64 [3])) @ ?key) = Ok psig"
    "AESGCMEncrypt demo_lib ?key psig [Some [14]] = ([], Ok resp)"
    by (rule demo_peer [OF demo_key_length])
  let ?ps = "message_packets MsgHandshakeAgree 1 m2 1400 @
    message_packets MsgChallenge 1 chal 1400 @ message_packets MsgIdentityMessage 1 encPub 1400 @
    message_packets MsgSignatureResponse 1 resp 1400 @ []"
  let ?w = "pipe (map (Pair BinaryMessage) ?ps)"
  let ?s = "\<lparr>sn_rng = map Some [[1], [2], [7], [8], [9], [10]], sn_fb = fragmentBuffer ?cl, sn_conn = Direct (NewDirectConn ?w)\<rparr>"
  have s: "any_up demo_websocket demo_view (sn_conn ?s)" "fragments (sn_fb ?s) = []" "any_in demo_view (sn_conn ?s) = ?ps"
    using demo_up [of ?ps] demo_in_out(1) [of ?ps] by (simp_all add: NewFragmentBuffer_def del: map_append)
  obtain s2 where "performHandshake demo_lib (any_transport demo_websocket 0) env ?cl (demo_digest (fit 32 [6])) ?s =
      Some (s2, Ok (NewSecureChannel ?key))" "sn_rng s2 = []"
    by (rule any_conn.initiator_accepts [where now = 0 and env = env and n = "[7]" and y = "[8]" and r = "[]",
          OF demo_laws me demo_generates demo_target refl m2 peer s(1) _ s(2,3)]) simp
  then have "Connect demo_lib demo_websocket 0 env (\<lambda>url. Ok ?w) (demo_digest (fit 32 [6])) ?cl
      (map Some [[1], [2], [7], [8], [9], [10]]) =
      Some (Some (sn_conn s2), ?cl\<lparr>fragmentBuffer := sn_fb s2\<rparr>, [], Ok (NewSecureChannel ?key))"
    by (simp add: Connect_def dial_conn_def)
  then show ?thesis by blast
qed

lemma demo_accepts:
  "\<exists>w t cl' key. Accept demo_lib demo_websocket 0 env w (demo_digest (fit 32 [6])) (demo_client [])
     (Some [3] # Some [4] # map Some (replicate 64 []) @ map Some [[9], [10], [7], [8]])
     = Some (t, cl', [], Ok (NewSecureChannel key))"
proof -
  let ?cl = "demo_client []" and ?key = "session_key demo_lib [1] [2] [3] [4]"
  let ?r = "Some [3] # Some [4] # map Some (replicate 64 []) @ map Some [[9], [10], [7], [8]]"
  have me: "GenerateMLDSAKeypair demo_lib [Some [5]] = ([], Ok (identityKeypair ?cl))" by (simp add: demo_generates)
  obtain m1 where m1: "HandshakeRequest_Serialize (request_of demo_lib [1]) = Ok m1"
    using request.ser_total by blast
  obtain m3 where m3: "HandshakeFinish_Serialize \<lparr>fin_Ciphertext = snd (encaps_of demo_lib [3] [2])\<rparr> = Ok m3"
    using finish.ser_total by blast
  obtain chal encPub psig resp where peer:
    "AESGCMEncrypt demo_lib ?key (fit 32 [11]) [Some [12]] = ([], Ok chal)"
    "AESGCMEncrypt demo_lib ?key (dsa_Public (demo_keypair 6)) [Some [13]] = ([], Ok encPub)"
    "MLDSASign demo_lib (dsa_Private (demo_keypair 6))
      ((fit 12 [10] @ lib_seal demo_lib ?key (fit 12 [10]) (fit 32 [9])) @ lib_kem_ek demo_lib (fit 64 [1]) @ ?key) = Ok psig"
    "AESGCMEncrypt demo_lib ?key psig [Some [14]] = ([], Ok resp)"
    by (rule demo_peer [OF demo_key_length])
  let ?ps = "message_packets MsgHandshakeRequest 1 m1 1400 @
    message_packets MsgHandshakeFinish 1 m3 1400 @ message_packets MsgIdentityMessage 1 encPub 1400 @
    message_packets MsgSignatureResponse 1 resp 1400 @ message_packets MsgChallenge 1 chal 1400 @ []"
  let ?w = "pipe (map (Pair BinaryMessage) ?ps)"
  let ?s = "\<lparr>sn_rng = ?r, sn_fb = fragmentBuffer ?cl, sn_conn = NewDirectConn ?w\<rparr>"
  have s: "direct_up demo_websocket demo_view (sn_conn ?s)" "fragments (sn_fb ?s) = []"
    "direct_in demo_view (sn_conn ?s) = ?ps"
    using demo_up [of ?ps] demo_in_out(1) [of ?ps] by (simp_all add: NewFragmentBuffer_def del: map_append)
  have "length (replicate 64 ([] :: bytes)) = 64" by simp
  then obtain s2 where "performHandshakeResponder demo_lib (direct_transport demo_websocket 0) env ?cl
      (demo_digest (fit 32 [6])) ?s = Some (s2, Ok (NewSecureChannel ?key))" "sn_rng s2 = []"
    by (rule direct_conn.responder_accepts [where now = 0 and env = env and n = "[7]" and y = "[8]" and r = "[]",
          OF demo_laws me demo_generates demo_target refl _ m1 m3 peer s(1) _ s(2,3)]) simp
  then have "Accept demo_lib demo_websocket 0 env ?w (demo_digest (fit 32 [6])) ?cl ?r =
      Some (sn_conn s2, ?cl\<lparr>fragmentBuffer := sn_fb s2\<rparr>, [], Ok (NewSecureChannel ?key))"
    by (simp add: Accept_def)
  then show ?thesis by blast
qed

section \<open>Messages over the secure channel\<close>

fun send_all ::
  "crypto_lib \<Rightarrow> 't Transport \<Rightarrow> SecureChannel \<Rightarrow> bytes list \<Rightarrow> (rng \<times> 't) \<Rightarrow> (rng \<times> 't) \<times> unit res" where
  "send_all c tr sc [] = st_lift (Ok ())"
| "send_all c tr sc (m # ms) = st_bind (SecureChannel_Send c tr sc m) (\<lambda>_. send_all c tr sc ms)"

fun recv_all ::
  "crypto_lib \<Rightarrow> 't Transport \<Rightarrow> SecureChannel \<Rightarrow> nat \<Rightarrow> 't \<Rightarrow> ('t \<times> bytes list res) option" where
  "recv_all c tr sc 0 t = Some (t, Ok [])"
| "recv_all c tr sc (Suc n) t = (case SecureChannel_Recv c tr sc t of
      None \<Rightarrow> None
    | Some (t, Err e) \<Rightarrow> Some (t, Err e)
    | Some (t, Panic p) \<Rightarrow> Some (t, Panic p)
    | Some (t, Ok m) \<Rightarrow> map_option (\<lambda>(t, ms). (t, go_bind ms (\<lambda>ms. Ok (m # ms)))) (recv_all c tr sc n t))"

context transport
begin

lemma send_all_seals:
  assumes "aead_laws c" "length (channelKey sc) = 32" "up t" "\<forall>m \<in> set msgs. length m \<le> gcm_max"
    and "length ds = length msgs"
  shows "\<exists>t' cts. send_all c tr sc msgs (map Some ds @ r, t) = ((r, t'), Ok ()) \<and> up t'
    \<and> sent t' = sent t @ cts \<and> map (AESGCMDecrypt c (channelKey sc)) cts = map Ok msgs"
  using assms(3-5)
proof (induction msgs arbitrary: t ds)
  case (Cons m msgs)
  then obtain d ds' where ds: "ds = d # ds'" by (cases ds) auto
  have "length m \<le> gcm_max" using Cons.prems by simp
  then obtain ct where ct: "AESGCMEncrypt c (channelKey sc) m (Some d # (map Some ds' @ r)) = (map Some ds' @ r, Ok ct)"
    using AESGCMEncrypt_Some [OF assms(2)] by blast
  obtain t1 where t1: "tr_Send tr ct t = (t1, Ok ())" "up t1" "sent t1 = sent t @ [ct]"
    using send_up [OF Cons.prems(1)] by blast
  obtain t2 cts where "send_all c tr sc msgs (map Some ds' @ r, t1) = ((r, t2), Ok ())" "up t2"
    "sent t2 = sent t1 @ cts" "map (AESGCMDecrypt c (channelKey sc)) cts = map Ok msgs"
    using Cons.IH [OF t1(2), of ds'] Cons.prems by (auto simp: ds)
  then show ?case
    using ct t1 aesgcm.unseal_seal [OF assms(1) ct]
    by (intro exI [of _ t2] exI [of _ "ct # cts"]) (simp add: ds SecureChannel_Send_def st_bind_def)
qed (simp add: st_lift_def)

lemma recv_all_opens:
  assumes "up t" "pending t = cts @ ps" "map (AESGCMDecrypt c (channelKey sc)) cts = map Ok msgs"
  shows "\<exists>t'. recv_all c tr sc (length cts) t = Some (t', Ok msgs) \<and> up t' \<and> pending t' = ps"
  using assms
proof (induction cts arbitrary: t msgs)
  case (Cons ct cts)
  then obtain m ms where msgs: "msgs = m # ms" by (cases msgs) auto
  obtain t1 where t1: "tr_Recv tr t = Some (t1, Ok ct)" "up t1" "pending t1 = cts @ ps"
    using recv_up [OF Cons.prems(1)] Cons.prems(2) by auto
  obtain t2 where "recv_all c tr sc (length cts) t1 = Some (t2, Ok ms)" "up t2" "pending t2 = ps"
    using Cons.IH [OF t1(2,3), of ms] Cons.prems(3) by (auto simp: msgs)
  with t1 Cons.prems(3) show ?case
    by (intro exI [of _ t2]) (simp add: SecureChannel_Recv_def msgs)
qed simp

end

section \<open>Properties\<close>

text \<open>
  C2. Two honest clients cannot establish a session. In a closed system over direct
  connections, each side runs exactly its part of the key exchange and then fails: the
  initiator sends its request, its finish message and its identity as one bare packet, and
  gives up waiting for a challenge; the responder answers with its agree message, takes the
  bare packet for a fragment of a longer message and gives up waiting for the rest. (The
  packet is only read otherwise if its nonce happens to start with the bytes 0, 1.)
\<close>

theorem honest_session_fails:
  assumes laws: "kem_laws c" "hash_laws c"
    and A: "sn_rng sA = Some a # Some a' # Some n # rA" "fragments (sn_fb sA) = []"
    and B: "sn_rng sB = Some b # Some b' # map Some ds @ rB" "length ds = 64" "fragments (sn_fb sB) = []"
    and pub: "length (dsa_Public (identityKeypair cA)) \<le> gcm_max"
    and nonce: "take 2 (fit 12 n) \<noteq> [0, 1]"
  shows "\<exists>requests agrees finishes.
     let identity = [identity_packet c (session_key c a a' b b') n (dsa_Public (identityKeypair cA))] in
     (\<forall>d. direct_up lib v d \<longrightarrow> direct_in v d = agrees \<longrightarrow>
        (\<exists>s' e. performHandshake c (direct_transport lib nowA) envA cA idB (sA\<lparr>sn_conn := d\<rparr>) = Some (s', Err e)
          \<and> direct_out v (sn_conn s') = direct_out v d @ requests @ finishes @ identity))
   \<and> (\<forall>d. direct_up lib v d \<longrightarrow> direct_in v d = requests @ finishes @ identity \<longrightarrow>
        (\<exists>s' e. performHandshakeResponder c (direct_transport lib nowB) envB cB idA (sB\<lparr>sn_conn := d\<rparr>) = Some (s', Err e)
          \<and> direct_out v (sn_conn s') = direct_out v d @ agrees))"
proof -
  obtain m1 where m1: "HandshakeRequest_Serialize (request_of c a) = Ok m1" using request.ser_total by blast
  obtain m2 where m2: "HandshakeAgree_Serialize (agree_of c a b b') = Ok m2" using agree.ser_total by blast
  obtain m3 where m3: "HandshakeFinish_Serialize \<lparr>fin_Ciphertext = snd (encaps_of c b a')\<rparr> = Ok m3"
    using finish.ser_total by blast
  let ?key = "session_key c a a' b b'" and ?pub = "dsa_Public (identityKeypair cA)"
  let ?ct = "fit 12 n @ lib_seal c ?key (fit 12 n) ?pub"
  let ?req = "message_packets MsgHandshakeRequest (msg_id envA 0) m1 1400"
    and ?fin = "message_packets MsgHandshakeFinish (msg_id envA 1) m3 1400"
    and ?agr = "message_packets MsgHandshakeAgree (msg_id envB 0) m2 1400"
  have ct: "10 \<le> length ?ct" "take 2 ?ct \<noteq> [0, 1]" using nonce by simp_all
  show ?thesis
    unfolding Let_def identity_packet_def
  proof (rule exI [of _ ?req], rule exI [of _ ?agr], rule exI [of _ ?fin], intro conjI allI impI)
    fix d assume d: "direct_up lib v d" "direct_in v d = ?agr"
    obtain s' e where "performHandshake c (direct_transport lib nowA) envA cA idB (sA\<lparr>sn_conn := d\<rparr>) = Some (s', Err e)"
      "direct_out v (sn_conn s') = direct_out v (sn_conn (sA\<lparr>sn_conn := d\<rparr>)) @ ?req @ ?fin @
        [identity_packet c ?key n ?pub]"
      by (rule direct_conn.initiator_run [where v = v and s = "sA\<lparr>sn_conn := d\<rparr>" and lib = lib and r = rA,
            OF laws _ _ _ m1 m2 m3 _ pub])
         (use d A in simp_all)
    then show "\<exists>s' e. performHandshake c (direct_transport lib nowA) envA cA idB (sA\<lparr>sn_conn := d\<rparr>) = Some (s', Err e)
      \<and> direct_out v (sn_conn s') = direct_out v d @ ?req @ ?fin @ [MsgIdentityMessage # field ?ct]"
      by (auto simp: identity_packet_def)
  next
    fix d assume d: "direct_up lib v d" "direct_in v d = ?req @ ?fin @ [MsgIdentityMessage # field ?ct]"
    obtain s' e where "performHandshakeResponder c (direct_transport lib nowB) envB cB idA (sB\<lparr>sn_conn := d\<rparr>) = Some (s', Err e)"
      "direct_out v (sn_conn s') = direct_out v (sn_conn (sB\<lparr>sn_conn := d\<rparr>)) @ ?agr"
      by (rule direct_conn.responder_run [where v = v and s = "sB\<lparr>sn_conn := d\<rparr>" and lib = lib and r = rB,
            OF laws _ _ B(2) _ m1 m2 m3 _ ct])
         (use d B in simp_all)
    then show "\<exists>s' e. performHandshakeResponder c (direct_transport lib nowB) envB cB idA (sB\<lparr>sn_conn := d\<rparr>) = Some (s', Err e)
      \<and> direct_out v (sn_conn s') = direct_out v d @ ?agr"
      by auto
  qed
qed

theorem honest_session_fails_witness:
  "\<forall>env. \<exists>requests agrees finishes pkt s' e s'' e'.
     performHandshake demo_lib (direct_transport demo_websocket 0) env
       \<lparr>identityKeypair = \<lparr>dsa_Public = [1], dsa_Private = []\<rparr>, myIDHash = [], relayURL = [], directAddr = [],
         fragmentBuffer = NewFragmentBuffer 9 0\<rparr> []
       \<lparr>sn_rng = [Some [1], Some [2], Some [7]], sn_fb = NewFragmentBuffer 9 0,
         sn_conn = NewDirectConn (pipe (map (Pair BinaryMessage) agrees))\<rparr> = Some (s', Err e)
   \<and> direct_out demo_view (sn_conn s') = requests @ finishes @ [pkt]
   \<and> performHandshakeResponder demo_lib (direct_transport demo_websocket 0) env
       \<lparr>identityKeypair = \<lparr>dsa_Public = [], dsa_Private = []\<rparr>, myIDHash = [], relayURL = [], directAddr = [],
         fragmentBuffer = NewFragmentBuffer 9 0\<rparr> []
       \<lparr>sn_rng = [Some [3], Some [4]] @ map Some (replicate 64 []), sn_fb = NewFragmentBuffer 9 0,
         sn_conn = NewDirectConn (pipe (map (Pair BinaryMessage) (requests @ finishes @ [pkt])))\<rparr> = Some (s'', Err e')
   \<and> direct_out demo_view (sn_conn s'') = agrees"
proof
  fix env
  let ?kp = "\<lparr>dsa_Public = [1], dsa_Private = []\<rparr>" and ?kp' = "\<lparr>dsa_Public = [], dsa_Private = []\<rparr>"
  let ?cl = "\<lambda>kp. \<lparr>identityKeypair = kp, myIDHash = [], relayURL = [], directAddr = [],
    fragmentBuffer = NewFragmentBuffer 9 0\<rparr>"
  let ?d = "\<lambda>inc. NewDirectConn (pipe (map (Pair BinaryMessage) inc))"
  let ?s = "\<lambda>r. \<lparr>sn_rng = r, sn_fb = NewFragmentBuffer 9 0, sn_conn = ?d []\<rparr>"
  have "\<exists>requests agrees finishes. let identity = [identity_packet demo_lib
      (session_key demo_lib [1] [2] [3] [4]) [7] (dsa_Public (identityKeypair (?cl ?kp)))] in
     (\<forall>d. direct_up demo_websocket demo_view d \<longrightarrow> direct_in demo_view d = agrees \<longrightarrow>
        (\<exists>s' e. performHandshake demo_lib (direct_transport demo_websocket 0) env (?cl ?kp) []
            (?s [Some [1], Some [2], Some [7]]\<lparr>sn_conn := d\<rparr>) = Some (s', Err e)
          \<and> direct_out demo_view (sn_conn s') = direct_out demo_view d @ requests @ finishes @ identity))
   \<and> (\<forall>d. direct_up demo_websocket demo_view d \<longrightarrow> direct_in demo_view d = requests @ finishes @ identity \<longrightarrow>
        (\<exists>s' e. performHandshakeResponder demo_lib (direct_transport demo_websocket 0) env (?cl ?kp') []
            (?s ([Some [3], Some [4]] @ map Some (replicate 64 []))\<lparr>sn_conn := d\<rparr>) = Some (s', Err e)
          \<and> direct_out demo_view (sn_conn s') = direct_out demo_view d @ agrees))"
    by (rule honest_session_fails [where rB = "[]" and ds = "replicate 64 []" and rA = "[]"])
       (simp_all add: NewFragmentBuffer_def gcm_max_def fit_def)
  then obtain requests agrees finishes pkt where
    A: "\<And>d. direct_up demo_websocket demo_view d \<Longrightarrow> direct_in demo_view d = agrees \<Longrightarrow>
        \<exists>s' e. performHandshake demo_lib (direct_transport demo_websocket 0) env (?cl ?kp) []
            (?s [Some [1], Some [2], Some [7]]\<lparr>sn_conn := d\<rparr>) = Some (s', Err e)
          \<and> direct_out demo_view (sn_conn s') = direct_out demo_view d @ requests @ finishes @ [pkt]"
    and B: "\<And>d. direct_up demo_websocket demo_view d \<Longrightarrow> direct_in demo_view d = requests @ finishes @ [pkt] \<Longrightarrow>
        \<exists>s' e. performHandshakeResponder demo_lib (direct_transport demo_websocket 0) env (?cl ?kp') []
            (?s ([Some [3], Some [4]] @ map Some (replicate 64 []))\<lparr>sn_conn := d\<rparr>) = Some (s', Err e)
          \<and> direct_out demo_view (sn_conn s') = direct_out demo_view d @ agrees"
    unfolding Let_def by blast
  show "\<exists>requests agrees finishes pkt s' e s'' e'.
      performHandshake demo_lib (direct_transport demo_websocket 0) env (?cl ?kp) []
        \<lparr>sn_rng = [Some [1], Some [2], Some [7]], sn_fb = NewFragmentBuffer 9 0, sn_conn = ?d agrees\<rparr> = Some (s', Err e)
    \<and> direct_out demo_view (sn_conn s') = requests @ finishes @ [pkt]
    \<and> performHandshakeResponder demo_lib (direct_transport demo_websocket 0) env (?cl ?kp') []
        \<lparr>sn_rng = [Some [3], Some [4]] @ map Some (replicate 64 []), sn_fb = NewFragmentBuffer 9 0,
          sn_conn = ?d (requests @ finishes @ [pkt])\<rparr> = Some (s'', Err e')
    \<and> direct_out demo_view (sn_conn s'') = agrees"
    using A [OF demo_up demo_in_out(1)] B [OF demo_up demo_in_out(1)]
    by (simp only: demo_in_out session.update_convs append_Nil) blast
qed

text \<open>
  C21. After an honest key exchange the two sides hold the same 32-byte key, both in
  ESTABLISHED, but not the same channel binding: the initiator's is both public keys, the
  responder's only the initiator's, since \<open>HandleFinish\<close> has dropped the responder's key pair
  and \<open>MyKEMPublicKey\<close> is empty by the time the binding is formed.
\<close>

theorem same_key_different_bindings:
  assumes laws: "kem_laws c" "hash_laws c"
    and A: "sn_rng sA = Some a # Some a' # rA" "fragments (sn_fb sA) = []"
    and B: "sn_rng sB = Some b # Some b' # map Some ds @ rB" "length ds = 64" "fragments (sn_fb sB) = []"
  shows "\<exists>requests agrees finishes hA hB key.
     (\<forall>d. direct_up lib v d \<longrightarrow> direct_in v d = agrees \<longrightarrow>
        (\<exists>s'. initiator_kem c (direct_transport lib nowA) envA (sA\<lparr>sn_conn := d\<rparr>) = Some (s', Ok (hA, key))
          \<and> direct_out v (sn_conn s') = direct_out v d @ requests @ finishes))
   \<and> (\<forall>d. direct_up lib v d \<longrightarrow> direct_in v d = requests @ finishes \<longrightarrow>
        (\<exists>s'. responder_kem c (direct_transport lib nowB) envB (sB\<lparr>sn_conn := d\<rparr>) = Some (s', Ok (hB, key))
          \<and> direct_out v (sn_conn s') = direct_out v d @ agrees))
   \<and> length key = 32 \<and> State hA = StateEstablished \<and> State hB = StateEstablished
   \<and> length (MyKEMPublicKey hA @ PeerPubkey hA) = 2368 \<and> length (MyKEMPublicKey hB @ PeerPubkey hB) = 1184"
proof -
  obtain m1 where m1: "HandshakeRequest_Serialize (request_of c a) = Ok m1" using request.ser_total by blast
  obtain m2 where m2: "HandshakeAgree_Serialize (agree_of c a b b') = Ok m2" using agree.ser_total by blast
  obtain m3 where m3: "HandshakeFinish_Serialize \<lparr>fin_Ciphertext = snd (encaps_of c b a')\<rparr> = Ok m3"
    using finish.ser_total by blast
  let ?req = "message_packets MsgHandshakeRequest (msg_id envA 0) m1 1400"
    and ?fin = "message_packets MsgHandshakeFinish (msg_id envA 1) m3 1400"
    and ?agr = "message_packets MsgHandshakeAgree (msg_id envB 0) m2 1400"
    and ?hA = "initiator_end c a a' b b'" and ?hB = "responder_end c a a' b b'"
    and ?key = "session_key c a a' b b'"
  have runA: "\<exists>s'. initiator_kem c (direct_transport lib nowA) envA (sA\<lparr>sn_conn := d\<rparr>) = Some (s', Ok (?hA, ?key))
      \<and> direct_out v (sn_conn s') = direct_out v d @ ?req @ ?fin"
    if "direct_up lib v d" "direct_in v d = ?agr" for d
    by (rule direct_conn.initiator_kem_run [where v = v and s = "sA\<lparr>sn_conn := d\<rparr>" and lib = lib
          and r = rA and ps = "[]" and now = nowA and env = envA, OF laws _ _ _ m1 m2 m3])
       (use that A in auto)
  have runB: "\<exists>s'. responder_kem c (direct_transport lib nowB) envB (sB\<lparr>sn_conn := d\<rparr>) = Some (s', Ok (?hB, ?key))
      \<and> direct_out v (sn_conn s') = direct_out v d @ ?agr"
    if "direct_up lib v d" "direct_in v d = ?req @ ?fin" for d
    by (rule direct_conn.responder_kem_run [where v = v and s = "sB\<lparr>sn_conn := d\<rparr>" and lib = lib
          and r = rB and ps = "[]" and now = nowB and env = envB, OF laws _ _ B(2) _ m1 m2 m3])
       (use that B in auto)
  have "length ?key = 32" "State ?hA = StateEstablished" "State ?hB = StateEstablished"
    "length (MyKEMPublicKey ?hA @ PeerPubkey ?hA) = 2368" "length (MyKEMPublicKey ?hB @ PeerPubkey ?hB) = 1184"
    unfolding initiator_binding
    by (simp_all add: session_key_def hash_law_facts [OF laws(2)] kem_law_facts [OF laws(1)] State_def
        initiator_end_def responder_end_def MyKEMPublicKey_def PeerPubkey_def)
  with runA runB show ?thesis by blast
qed

theorem same_key_different_bindings_witness:
  "\<forall>env. \<exists>agrees hA key s'.
     initiator_kem demo_lib (direct_transport demo_websocket 0) env
       \<lparr>sn_rng = [Some [1], Some [2]], sn_fb = NewFragmentBuffer 9 0,
         sn_conn = NewDirectConn (pipe (map (Pair BinaryMessage) agrees))\<rparr> = Some (s', Ok (hA, key))
   \<and> State hA = StateEstablished \<and> length key = 32"
proof
  fix env
  let ?s = "\<lambda>r. \<lparr>sn_rng = r, sn_fb = NewFragmentBuffer 9 0, sn_conn = NewDirectConn (pipe [])\<rparr> :: pipe DirectConn session"
  obtain agrees hA key where
    "\<forall>d. direct_up demo_websocket demo_view d \<longrightarrow> direct_in demo_view d = agrees \<longrightarrow>
        (\<exists>s'. initiator_kem demo_lib (direct_transport demo_websocket 0) env
           (?s [Some [1], Some [2]]\<lparr>sn_conn := d\<rparr>) = Some (s', Ok (hA, key)))"
    "length key = 32" "State hA = StateEstablished"
    using same_key_different_bindings [OF demo_laws(1,4), where sA = "?s [Some [1], Some [2]]"
        and sB = "?s ([Some [3], Some [4]] @ map Some (replicate 64 []))" and rA = "[]" and rB = "[]"
        and ds = "replicate 64 []" and v = demo_view and lib = demo_websocket and nowA = 0 and envA = env
        and a = "[1]" and a' = "[2]" and b = "[3]" and b' = "[4]" and nowB = 0 and envB = env]
    by (auto simp: NewFragmentBuffer_def) blast
  then show "\<exists>agrees hA key s'. initiator_kem demo_lib (direct_transport demo_websocket 0) env
       \<lparr>sn_rng = [Some [1], Some [2]], sn_fb = NewFragmentBuffer 9 0,
         sn_conn = NewDirectConn (pipe (map (Pair BinaryMessage) agrees))\<rparr> = Some (s', Ok (hA, key))
     \<and> State hA = StateEstablished \<and> length key = 32"
    using demo_up [of agrees] demo_in_out(1) [of agrees] by fastforce
qed

text \<open>
  C4. A channel is handed out only to a peer that proved the identity asked for. Whatever the
  peer and the network do, when \<open>Connect\<close> returns a channel its run is a key exchange that ended
  in the channel's key, the proof of its own identity, and then the evidence of \<open>peer_proved\<close>:
  on this connection a public key hashing to the target arrived, the client sent a challenge
  made from its next two random draws, and the answer opened to a signature under that public
  key over this challenge, this session's channel binding and its key. When \<open>Accept\<close> returns a
  channel the same evidence follows the key exchange directly.
\<close>

theorem channel_only_if_peer_proved:
  "(Connect c lib now env dial target cl r = Some (cn, cl', r', Ok ch) \<longrightarrow>
     (\<exists>t h cb e s1 s2 s3. dial_conn dial cl = Ok t
      \<and> initiator_kem c (any_transport lib now) env \<lparr>sn_rng = r, sn_fb = fragmentBuffer cl, sn_conn = t\<rparr>
          = Some (s1, Ok (h, channelKey ch))
      \<and> DeriveSessionKey c h = Ok (channelKey ch) \<and> cb = MyKEMPublicKey h @ PeerPubkey h
      \<and> prove_self c (any_transport lib now) env 1 2 cb (channelKey ch) e s1 = Some (s2, Ok e)
      \<and> e = NewIdentityExchange (channelKey ch) (Some (identityKeypair cl)) target
      \<and> peer_proved c (any_transport lib now) env 2 3 3 cb (channelKey ch) target s2 s3
      \<and> cn = Some (sn_conn s3) \<and> cl' = cl\<lparr>fragmentBuffer := sn_fb s3\<rparr> \<and> r' = sn_rng s3))
   \<and> (Accept c lib now env w target cl r = Some (d, cl', r', Ok ch) \<longrightarrow>
     (\<exists>h cb s1 s2. responder_kem c (direct_transport lib now) env
          \<lparr>sn_rng = r, sn_fb = fragmentBuffer cl, sn_conn = NewDirectConn w\<rparr> = Some (s1, Ok (h, channelKey ch))
      \<and> DeriveSessionKey c h = Ok (channelKey ch) \<and> cb = MyKEMPublicKey h @ PeerPubkey h
      \<and> peer_proved c (direct_transport lib now) env 2 1 3 cb (channelKey ch) target s1 s2))"
proof (intro conjI impI)
  assume "Connect c lib now env dial target cl r = Some (cn, cl', r', Ok ch)"
  then obtain t s3 where dial: "dial_conn dial cl = Ok t" and run: "performHandshake c (any_transport lib now) env cl target
      \<lparr>sn_rng = r, sn_fb = fragmentBuffer cl, sn_conn = t\<rparr> = Some (s3, Ok ch)"
    and s3: "cn = Some (sn_conn s3)" "cl' = cl\<lparr>fragmentBuffer := sn_fb s3\<rparr>" "r' = sn_rng s3"
    by (auto simp: Connect_def split: res.splits option.splits)
  from run show "\<exists>t h cb e s1 s2 s3. dial_conn dial cl = Ok t
      \<and> initiator_kem c (any_transport lib now) env \<lparr>sn_rng = r, sn_fb = fragmentBuffer cl, sn_conn = t\<rparr>
          = Some (s1, Ok (h, channelKey ch))
      \<and> DeriveSessionKey c h = Ok (channelKey ch) \<and> cb = MyKEMPublicKey h @ PeerPubkey h
      \<and> prove_self c (any_transport lib now) env 1 2 cb (channelKey ch) e s1 = Some (s2, Ok e)
      \<and> e = NewIdentityExchange (channelKey ch) (Some (identityKeypair cl)) target
      \<and> peer_proved c (any_transport lib now) env 2 3 3 cb (channelKey ch) target s2 s3
      \<and> cn = Some (sn_conn s3) \<and> cl' = cl\<lparr>fragmentBuffer := sn_fb s3\<rparr> \<and> r' = sn_rng s3"
    by (rule performHandshake_proves) (use dial s3 in \<open>auto simp: NewSecureChannel_def\<close>)
next
  assume "Accept c lib now env w target cl r = Some (d, cl', r', Ok ch)"
  then obtain s3 where run: "performHandshakeResponder c (direct_transport lib now) env cl target
      \<lparr>sn_rng = r, sn_fb = fragmentBuffer cl, sn_conn = NewDirectConn w\<rparr> = Some (s3, Ok ch)"
    by (auto simp: Accept_def split: res.splits option.splits)
  then show "\<exists>h cb s1 s2. responder_kem c (direct_transport lib now) env
          \<lparr>sn_rng = r, sn_fb = fragmentBuffer cl, sn_conn = NewDirectConn w\<rparr> = Some (s1, Ok (h, channelKey ch))
      \<and> DeriveSessionKey c h = Ok (channelKey ch) \<and> cb = MyKEMPublicKey h @ PeerPubkey h
      \<and> peer_proved c (direct_transport lib now) env 2 1 3 cb (channelKey ch) target s1 s2"
    by (rule performHandshakeResponder_proves) (auto simp: NewSecureChannel_def)
qed

theorem channel_only_if_peer_proved_witness:
  "\<forall>env. (\<exists>w t cl' ch cb s2 s3. Connect demo_lib demo_websocket 0 env (\<lambda>url. Ok w) (demo_digest (fit 32 [6]))
        (demo_client ''h:1'') (map Some [[1], [2], [7], [8], [9], [10]]) = Some (Some t, cl', [], Ok ch)
      \<and> peer_proved demo_lib (any_transport demo_websocket 0) env 2 3 3 cb (channelKey ch) (demo_digest (fit 32 [6])) s2 s3)
   \<and> (\<exists>w t cl' ch cb s1 s2. Accept demo_lib demo_websocket 0 env w (demo_digest (fit 32 [6])) (demo_client [])
        (Some [3] # Some [4] # map Some (replicate 64 []) @ map Some [[9], [10], [7], [8]]) = Some (t, cl', [], Ok ch)
      \<and> peer_proved demo_lib (direct_transport demo_websocket 0) env 2 1 3 cb (channelKey ch) (demo_digest (fit 32 [6])) s1 s2)"
proof (intro allI conjI)
  fix env
  obtain w t cl' key where run: "Connect demo_lib demo_websocket 0 env (\<lambda>url. Ok w) (demo_digest (fit 32 [6]))
      (demo_client ''h:1'') (map Some [[1], [2], [7], [8], [9], [10]]) = Some (Some t, cl', [], Ok (NewSecureChannel key))"
    using demo_connects [of env] by blast
  from channel_only_if_peer_proved [THEN conjunct1, rule_format, OF run] run
  show "\<exists>w t cl' ch cb s2 s3. Connect demo_lib demo_websocket 0 env (\<lambda>url. Ok w) (demo_digest (fit 32 [6]))
        (demo_client ''h:1'') (map Some [[1], [2], [7], [8], [9], [10]]) = Some (Some t, cl', [], Ok ch)
      \<and> peer_proved demo_lib (any_transport demo_websocket 0) env 2 3 3 cb (channelKey ch) (demo_digest (fit 32 [6])) s2 s3"
    by blast
next
  fix env
  obtain w t cl' key where run: "Accept demo_lib demo_websocket 0 env w (demo_digest (fit 32 [6])) (demo_client [])
      (Some [3] # Some [4] # map Some (replicate 64 []) @ map Some [[9], [10], [7], [8]])
      = Some (t, cl', [], Ok (NewSecureChannel key))"
    using demo_accepts [of env] by blast
  from channel_only_if_peer_proved [THEN conjunct2, rule_format, OF run] run
  show "\<exists>w t cl' ch cb s1 s2. Accept demo_lib demo_websocket 0 env w (demo_digest (fit 32 [6])) (demo_client [])
        (Some [3] # Some [4] # map Some (replicate 64 []) @ map Some [[9], [10], [7], [8]]) = Some (t, cl', [], Ok ch)
      \<and> peer_proved demo_lib (direct_transport demo_websocket 0) env 2 1 3 cb (channelKey ch) (demo_digest (fit 32 [6])) s1 s2"
    by blast
qed

text \<open>
  C18. Connecting and accepting return once the peer falls silent: on a connection on which it
  has sent any number of binary frames, whatever they contain, and then sends no more,
  \<open>Connect\<close> and \<open>Accept\<close> come back with a channel on a connection that is still up, or with an
  error and the connection closed, or with a panic. They do because every \<open>Recv\<close> sets a read
  deadline: a read without one would wait for ever. The client's identity is not changed.
\<close>

theorem connecting_returns:
  assumes "ws_laws lib v" and "ws_live v w" and "frames_binary v w"
    and "\<forall>url. dial url = Ok w \<or> (\<exists>e. dial url = Err e)"
  shows "(\<exists>cn cl' r' x. Connect c lib now env dial target cl r = Some (cn, cl', r', x)
      \<and> identityKeypair cl' = identityKeypair cl
      \<and> (case (x, cn) of (Ok ch, Some t) \<Rightarrow> any_up lib v t
         | (Ok ch, None) \<Rightarrow> False
         | (Err e, Some (Direct d)) \<Rightarrow> DirectConn_IsClosed d
         | (Err e, Some (Relay d)) \<Rightarrow> WebSocketConn_IsClosed d
         | _ \<Rightarrow> True))
   \<and> (\<exists>d cl' r' x. Accept c lib now env w target cl r = Some (d, cl', r', x)
      \<and> identityKeypair cl' = identityKeypair cl
      \<and> (case x of Ok ch \<Rightarrow> direct_up lib v d | Err e \<Rightarrow> DirectConn_IsClosed d | Panic p \<Rightarrow> True))"
proof
  let ?s = "\<lambda>t. \<lparr>sn_rng = r, sn_fb = fragmentBuffer cl, sn_conn = t\<rparr>"
  have up: "any_up lib v (Direct (NewDirectConn w))" "any_up lib v (Relay (NewWebSocketConn w))"
    "direct_up lib v (NewDirectConn w)"
    using assms(1-3) by (auto simp: ws_up_def direct_up_def NewDirectConn_def NewWebSocketConn_def)
  have ran: "\<exists>s' x. performHandshake c (any_transport lib now) env cl target (?s t) = Some (s', x)
      \<and> (is_ok x \<longrightarrow> any_up lib v (sn_conn s'))" if "any_up lib v t" for t
    using returnsD [OF any_conn.performHandshake_returns, of lib v "?s t"] that by simp
  have dial: "(\<exists>e. dial_conn dial cl = Err e) \<or> (\<exists>t. dial_conn dial cl = Ok t \<and> any_up lib v t)"
    using up(1,2) assms(4) [rule_format, of "''ws://'' @ directAddr cl"] assms(4) [rule_format, of "relayURL cl"]
    by (auto simp: dial_conn_def)
  have close: "case fst (any_Close lib t) of Direct d \<Rightarrow> DirectConn_IsClosed d | Relay d \<Rightarrow> WebSocketConn_IsClosed d"
    for t
    by (cases t) (auto simp: DirectConn_Close_def DirectConn_IsClosed_def WebSocketConn_Close_def
        WebSocketConn_IsClosed_def Let_def split: option.splits prod.splits)
  from dial show "\<exists>cn cl' r' x. Connect c lib now env dial target cl r = Some (cn, cl', r', x)
      \<and> identityKeypair cl' = identityKeypair cl
      \<and> (case (x, cn) of (Ok ch, Some t) \<Rightarrow> any_up lib v t
         | (Ok ch, None) \<Rightarrow> False
         | (Err e, Some (Direct d)) \<Rightarrow> DirectConn_IsClosed d
         | (Err e, Some (Relay d)) \<Rightarrow> WebSocketConn_IsClosed d
         | _ \<Rightarrow> True)"
  proof (elim disjE exE conjE)
    fix t assume t: "dial_conn dial cl = Ok t" "any_up lib v t"
    obtain s' x where "performHandshake c (any_transport lib now) env cl target (?s t) = Some (s', x)"
      "is_ok x \<longrightarrow> any_up lib v (sn_conn s')"
      using ran [OF t(2)] by blast
    then show ?thesis
      using t(1) close [of "sn_conn s'"]
      by (cases x) (auto simp: Connect_def split: any_conn.splits)
  qed (simp add: Connect_def)
  obtain s' x where "performHandshakeResponder c (direct_transport lib now) env cl target (?s (NewDirectConn w))
      = Some (s', x)" "is_ok x \<longrightarrow> direct_up lib v (sn_conn s')"
    using returnsD [OF direct_conn.performHandshakeResponder_returns [where c = c and now = now and env = env
        and cl = cl and target = target], of lib v "?s (NewDirectConn w)"] up(3) by auto
  then show "\<exists>d cl' r' x. Accept c lib now env w target cl r = Some (d, cl', r', x)
      \<and> identityKeypair cl' = identityKeypair cl
      \<and> (case x of Ok ch \<Rightarrow> direct_up lib v d | Err e \<Rightarrow> DirectConn_IsClosed d | Panic p \<Rightarrow> True)"
    using close [of "Direct (sn_conn s')"]
    by (cases x) (auto simp: Accept_def split: prod.splits)
qed

theorem connecting_returns_witness:
  "\<forall>env. \<exists>d cl' r' x. Accept demo_lib demo_websocket 0 env (pipe [(BinaryMessage, [1, 2])]) []
       \<lparr>identityKeypair = \<lparr>dsa_Public = [], dsa_Private = []\<rparr>, myIDHash = [], relayURL = [], directAddr = [],
         fragmentBuffer = NewFragmentBuffer 9 0\<rparr> [] = Some (d, cl', r', x)"
proof
  fix env
  have live: "ws_live demo_view (pipe [(BinaryMessage, [1, 2])])"
    and binary: "frames_binary demo_view (pipe [(BinaryMessage, [1, 2])])"
    by (simp_all add: frames_binary_def)
  show "\<exists>d cl' r' x. Accept demo_lib demo_websocket 0 env (pipe [(BinaryMessage, [1, 2])]) []
       \<lparr>identityKeypair = \<lparr>dsa_Public = [], dsa_Private = []\<rparr>, myIDHash = [], relayURL = [], directAddr = [],
         fragmentBuffer = NewFragmentBuffer 9 0\<rparr> [] = Some (d, cl', r', x)"
    using connecting_returns [OF demo_ws_laws live binary, where dial = "\<lambda>url. Err (ErrLib [])" and c = demo_lib
        and now = 0 and env = env and target = "[]" and r = "[]"
        and cl = "\<lparr>identityKeypair = \<lparr>dsa_Public = [], dsa_Private = []\<rparr>, myIDHash = [], relayURL = [],
          directAddr = [], fragmentBuffer = NewFragmentBuffer 9 0\<rparr>"]
    by auto
qed

text \<open>
  C7. Which peer the initiator does accept. \<open>Connect\<close> succeeds against a peer that runs the key
  exchange as written but differs from this program in three ways: its identity arrives as a
  fragmented message holding the bare ciphertext; it signs the initiator's encrypted challenge
  and not the nonce inside; and it signs for the initiator's channel binding, both public keys.
\<close>

theorem connects_to_matching_peer:
  assumes laws: "kem_laws c" "aead_laws c" "sig_laws c" "hash_laws c"
    and me: "GenerateMLDSAKeypair c q = (q', Ok (identityKeypair cl))"
    and peer: "GenerateMLDSAKeypair c p = (p', Ok peerKp)" "ComputeIDHash c (dsa_Public peerKp) = Ok target"
    and cl: "directAddr cl \<noteq> []" "fragments (fragmentBuffer cl) = []" "dial (''ws://'' @ directAddr cl) = Ok w"
    and key: "key = session_key c a a' b b'"
    and agree: "HandshakeAgree_Serialize (agree_of c a b b') = Ok m2"
    and chal: "AESGCMEncrypt c key (fit 32 nonce) r1 = (r1', Ok chal)"
    and ident: "AESGCMEncrypt c key (dsa_Public peerKp) r2 = (r2', Ok encPub)"
    and sign: "MLDSASign c (dsa_Private peerKp) ((fit 12 x @ lib_seal c key (fit 12 x) (fit 32 n')) @
        (lib_kem_ek c (fit 64 a) @ lib_kem_ek c (fit 64 b)) @ key) = Ok psig"
    and resp: "AESGCMEncrypt c key psig r3 = (r3', Ok resp)"
    and w: "ws_laws lib v" "ws_live v w" "ws_waiting v w = map (Pair BinaryMessage)
        (message_packets MsgHandshakeAgree i0 m2 1400 @ message_packets MsgChallenge i1 chal 1400 @
         message_packets MsgIdentityMessage i2 encPub 1400 @ message_packets MsgSignatureResponse i3 resp 1400)"
  shows "\<exists>t cl'. Connect c lib now env dial target cl
      (Some a # Some a' # Some n # Some y # Some n' # Some x # r) = Some (Some t, cl', r, Ok (NewSecureChannel key))
    \<and> any_up lib v t \<and> any_in v t = []"
proof -
  let ?s = "\<lparr>sn_rng = Some a # Some a' # Some n # Some y # Some n' # Some x # r, sn_fb = fragmentBuffer cl,
    sn_conn = Direct (NewDirectConn w)\<rparr>"
  have up: "any_up lib v (sn_conn ?s)" "fragments (sn_fb ?s) = []" "any_in v (sn_conn ?s) =
      message_packets MsgHandshakeAgree i0 m2 1400 @ message_packets MsgChallenge i1 chal 1400 @
      message_packets MsgIdentityMessage i2 encPub 1400 @ message_packets MsgSignatureResponse i3 resp 1400 @ []"
    using w cl(2) by (auto simp: direct_up_def direct_in_def NewDirectConn_def frames_binary_def comp_def)
  obtain s2 where "performHandshake c (any_transport lib now) env cl target ?s = Some (s2, Ok (NewSecureChannel key))"
    "any_up lib v (sn_conn s2)" "any_in v (sn_conn s2) = []" "sn_rng s2 = r"
    by (rule any_conn.initiator_accepts [where now = now and env = env,
          OF laws me peer key agree chal ident sign resp up(1) _ up(2,3)]) simp
  then show ?thesis using cl by (auto simp: Connect_def dial_conn_def)
qed

theorem connects_to_matching_peer_witness:
  "\<forall>env. \<exists>w t cl' key. Connect demo_lib demo_websocket 0 env (\<lambda>url. Ok w) (demo_digest (fit 32 [6]))
       (demo_client ''h:1'') (map Some [[1], [2], [7], [8], [9], [10]]) = Some (Some t, cl', [], Ok (NewSecureChannel key))"
proof
  fix env
  let ?cl = "demo_client ''h:1''" and ?key = "session_key demo_lib [1] [2] [3] [4]"
  have me: "GenerateMLDSAKeypair demo_lib [Some [5]] = ([], Ok (identityKeypair ?cl))" by (simp add: demo_generates)
  obtain m2 where m2: "HandshakeAgree_Serialize (agree_of demo_lib [1] [3] [4]) = Ok m2"
    using agree.ser_total by blast
  obtain chal encPub psig resp where peer:
    "AESGCMEncrypt demo_lib ?key (fit 32 [11]) [Some [12]] = ([], Ok chal)"
    "AESGCMEncrypt demo_lib ?key (dsa_Public (demo_keypair 6)) [Some [13]] = ([], Ok encPub)"
    "MLDSASign demo_lib (dsa_Private (demo_keypair 6))
      ((fit 12 [10] @ lib_seal demo_lib ?key (fit 12 [10]) (fit 32 [9])) @
        (lib_kem_ek demo_lib (fit 64 [1]) @ lib_kem_ek demo_lib (fit 64 [3])) @ ?key) = Ok psig"
    "AESGCMEncrypt demo_lib ?key psig [Some [14]] = ([], Ok resp)"
    by (rule demo_peer [OF demo_key_length])
  let ?ps = "message_packets MsgHandshakeAgree 1 m2 1400 @
    message_packets MsgChallenge 1 chal 1400 @ message_packets MsgIdentityMessage 1 encPub 1400 @
    message_packets MsgSignatureResponse 1 resp 1400"
  let ?w = "pipe (map (Pair BinaryMessage) ?ps)"
  have w: "ws_live demo_view ?w" "ws_waiting demo_view ?w = map (Pair BinaryMessage) ?ps" by simp_all
  have cl: "directAddr ?cl \<noteq> []" "fragments (fragmentBuffer ?cl) = []" "(\<lambda>url. Ok ?w) (''ws://'' @ directAddr ?cl) = Ok ?w"
    by (simp_all add: NewFragmentBuffer_def)
  from connects_to_matching_peer [OF demo_laws me demo_generates demo_target cl refl m2 peer demo_ws_laws w(1)
      w(2), where now = 0 and env = env and n = "[7]" and y = "[8]" and r = "[]"]
  obtain t cl' where "Connect demo_lib demo_websocket 0 env (\<lambda>url. Ok ?w) (demo_digest (fit 32 [6])) ?cl
      (map Some [[1], [2], [7], [8], [9], [10]]) = Some (Some t, cl', [], Ok (NewSecureChannel ?key))"
    by auto
  then show "\<exists>w t cl' key. Connect demo_lib demo_websocket 0 env (\<lambda>url. Ok w) (demo_digest (fit 32 [6])) ?cl
       (map Some [[1], [2], [7], [8], [9], [10]]) = Some (Some t, cl', [], Ok (NewSecureChannel key))"
    by blast
qed

text \<open>
  C8. Which peer the responder does accept. \<open>Accept\<close> succeeds against a peer that runs the key
  exchange as written, frames its identity, signs the responder's encrypted challenge, and
  signs for the responder's channel binding, which is the peer's own public key alone.
\<close>

theorem accepts_matching_peer:
  assumes laws: "kem_laws c" "aead_laws c" "sig_laws c" "hash_laws c"
    and me: "GenerateMLDSAKeypair c q = (q', Ok (identityKeypair cl))" "fragments (fragmentBuffer cl) = []"
    and peer: "GenerateMLDSAKeypair c p = (p', Ok peerKp)" "ComputeIDHash c (dsa_Public peerKp) = Ok target"
    and key: "key = session_key c a a' b b'" "length ds = 64"
    and m: "HandshakeRequest_Serialize (request_of c a) = Ok m1"
      "HandshakeFinish_Serialize \<lparr>fin_Ciphertext = snd (encaps_of c b a')\<rparr> = Ok m3"
    and chal: "AESGCMEncrypt c key (fit 32 nonce) r1 = (r1', Ok chal)"
    and ident: "AESGCMEncrypt c key (dsa_Public peerKp) r2 = (r2', Ok encPub)"
    and sign: "MLDSASign c (dsa_Private peerKp) ((fit 12 x @ lib_seal c key (fit 12 x) (fit 32 n')) @
        lib_kem_ek c (fit 64 a) @ key) = Ok psig"
    and resp: "AESGCMEncrypt c key psig r3 = (r3', Ok resp)"
    and w: "ws_laws lib v" "ws_live v w" "ws_waiting v w = map (Pair BinaryMessage)
        (message_packets MsgHandshakeRequest i0 m1 1400 @ message_packets MsgHandshakeFinish i0' m3 1400 @
         message_packets MsgIdentityMessage i2 encPub 1400 @ message_packets MsgSignatureResponse i3 resp 1400 @
         message_packets MsgChallenge i1 chal 1400)"
  shows "\<exists>t cl'. Accept c lib now env w target cl
      (Some b # Some b' # map Some ds @ Some n' # Some x # Some n # Some y # r) = Some (t, cl', r, Ok (NewSecureChannel key))
    \<and> direct_up lib v t \<and> direct_in v t = []"
proof -
  let ?s = "\<lparr>sn_rng = Some b # Some b' # map Some ds @ Some n' # Some x # Some n # Some y # r,
    sn_fb = fragmentBuffer cl, sn_conn = NewDirectConn w\<rparr>"
  have up: "direct_up lib v (sn_conn ?s)" "fragments (sn_fb ?s) = []" "direct_in v (sn_conn ?s) =
      message_packets MsgHandshakeRequest i0 m1 1400 @ message_packets MsgHandshakeFinish i0' m3 1400 @
      message_packets MsgIdentityMessage i2 encPub 1400 @ message_packets MsgSignatureResponse i3 resp 1400 @
      message_packets MsgChallenge i1 chal 1400 @ []"
    using accepted_up [OF w] me(2) by simp_all
  obtain s2 where "performHandshakeResponder c (direct_transport lib now) env cl target ?s =
      Some (s2, Ok (NewSecureChannel key))"
    "direct_up lib v (sn_conn s2)" "direct_in v (sn_conn s2) = []" "sn_rng s2 = r"
    by (rule direct_conn.responder_accepts [where now = now and env = env,
          OF laws me(1) peer key m chal ident sign resp up(1) _ up(2,3)]) simp
  then show ?thesis by (auto simp: Accept_def)
qed

theorem accepts_matching_peer_witness:
  "\<forall>env. \<exists>w t cl' key. Accept demo_lib demo_websocket 0 env w (demo_digest (fit 32 [6])) (demo_client [])
       (Some [3] # Some [4] # map Some (replicate 64 []) @ map Some [[9], [10], [7], [8]])
       = Some (t, cl', [], Ok (NewSecureChannel key))"
proof
  fix env
  let ?cl = "demo_client []" and ?key = "session_key demo_lib [1] [2] [3] [4]"
  have me: "GenerateMLDSAKeypair demo_lib [Some [5]] = ([], Ok (identityKeypair ?cl))" "fragments (fragmentBuffer ?cl) = []"
    by (simp_all add: demo_generates NewFragmentBuffer_def)
  obtain m1 where m1: "HandshakeRequest_Serialize (request_of demo_lib [1]) = Ok m1"
    using request.ser_total by blast
  obtain m3 where m3: "HandshakeFinish_Serialize \<lparr>fin_Ciphertext = snd (encaps_of demo_lib [3] [2])\<rparr> = Ok m3"
    using finish.ser_total by blast
  obtain chal encPub psig resp where peer:
    "AESGCMEncrypt demo_lib ?key (fit 32 [11]) [Some [12]] = ([], Ok chal)"
    "AESGCMEncrypt demo_lib ?key (dsa_Public (demo_keypair 6)) [Some [13]] = ([], Ok encPub)"
    "MLDSASign demo_lib (dsa_Private (demo_keypair 6))
      ((fit 12 [10] @ lib_seal demo_lib ?key (fit 12 [10]) (fit 32 [9])) @ lib_kem_ek demo_lib (fit 64 [1]) @ ?key) = Ok psig"
    "AESGCMEncrypt demo_lib ?key psig [Some [14]] = ([], Ok resp)"
    by (rule demo_peer [OF demo_key_length])
  let ?ps = "message_packets MsgHandshakeRequest 1 m1 1400 @
    message_packets MsgHandshakeFinish 1 m3 1400 @ message_packets MsgIdentityMessage 1 encPub 1400 @
    message_packets MsgSignatureResponse 1 resp 1400 @ message_packets MsgChallenge 1 chal 1400"
  let ?w = "pipe (map (Pair BinaryMessage) ?ps)"
  have w: "ws_live demo_view ?w" "ws_waiting demo_view ?w = map (Pair BinaryMessage) ?ps" by simp_all
  have "length (replicate 64 ([] :: bytes)) = 64" by simp
  from accepts_matching_peer [OF demo_laws me demo_generates demo_target refl this m1 m3 peer demo_ws_laws w(1)
      w(2), where now = 0 and env = env and n = "[7]" and y = "[8]" and r = "[]"]
  obtain t cl' where "Accept demo_lib demo_websocket 0 env ?w (demo_digest (fit 32 [6])) ?cl
      (Some [3] # Some [4] # map Some (replicate 64 []) @ map Some [[9], [10], [7], [8]])
      = Some (t, cl', [], Ok (NewSecureChannel ?key))"
    by auto
  then show "\<exists>w t cl' key. Accept demo_lib demo_websocket 0 env w (demo_digest (fit 32 [6])) ?cl
       (Some [3] # Some [4] # map Some (replicate 64 []) @ map Some [[9], [10], [7], [8]])
       = Some (t, cl', [], Ok (NewSecureChannel key))"
    by blast
qed

text \<open>
  C20. What a secure channel delivers. Messages sent over it leave as one packet each, and the
  other end, holding the same key, returns the plaintext of every packet that reaches it. That
  is confidential transport of single messages and nothing more: any choice of the packets, in
  any order and any number of times, is accepted, so neither replay nor reordering nor loss
  is noticed.
\<close>

theorem secure_channel_accepts_any_order:
  assumes laws: "aead_laws c" and key: "length (channelKey sc) = 32"
    and up: "any_up lib v t" and size: "\<forall>m \<in> set msgs. length m \<le> gcm_max" "length ds = length msgs"
  shows "\<exists>t' packets. send_all c (any_transport lib now) sc msgs (map Some ds @ r, t) = ((r, t'), Ok ())
    \<and> any_up lib v t' \<and> any_out v t' = any_out v t @ packets \<and> length packets = length msgs
    \<and> (\<forall>is u. list_all (\<lambda>i. i < length msgs) is \<longrightarrow> any_up lib' v' u \<longrightarrow> any_in v' u = map ((!) packets) is \<longrightarrow>
         (\<exists>u'. recv_all c (any_transport lib' now') sc (length is) u = Some (u', Ok (map ((!) msgs) is)) \<and> any_up lib' v' u'))"
proof -
  obtain t' cts where send: "send_all c (any_transport lib now) sc msgs (map Some ds @ r, t) = ((r, t'), Ok ())"
    "any_up lib v t'" "any_out v t' = any_out v t @ cts"
    and cts: "map (AESGCMDecrypt c (channelKey sc)) cts = map Ok msgs"
    using any_conn.send_all_seals [OF laws key up size, of now r] by blast
  have n: "length cts = length msgs" using arg_cong [OF cts, of length] by simp
  have "\<exists>u'. recv_all c (any_transport lib' now') sc (length is) u = Some (u', Ok (map ((!) msgs) is)) \<and> any_up lib' v' u'"
    if "list_all (\<lambda>i. i < length msgs) is" and u: "any_up lib' v' u" "any_in v' u = map ((!) cts) is" for "is" u
  proof -
    have "AESGCMDecrypt c (channelKey sc) (cts ! i) = Ok (msgs ! i)" if "i < length msgs" for i
      using arg_cong [OF cts, of "\<lambda>xs. xs ! i"] that n by simp
    then have "map (AESGCMDecrypt c (channelKey sc)) (map ((!) cts) is) = map Ok (map ((!) msgs) is)"
      using that(1) by (auto simp: list_all_iff)
    from any_conn.recv_all_opens [OF u(1) _ this, of "[]" now'] u(2) show ?thesis by auto
  qed
  with send n show ?thesis by blast
qed

theorem secure_channel_accepts_any_order_witness:
  "\<exists>p q u'. recv_all demo_lib (any_transport demo_websocket 0) (NewSecureChannel (replicate 32 7)) 3
     (Direct (NewDirectConn (pipe (map (Pair BinaryMessage) [q, p, q])))) = Some (u', Ok [[2, 2], [1], [2, 2]])"
proof -
  let ?msgs = "[[1], [2, 2]] :: bytes list" and ?sc = "NewSecureChannel (replicate 32 7)"
  let ?conn = "\<lambda>inc. Direct (NewDirectConn (pipe (map (Pair BinaryMessage) inc)))"
  have key: "length (channelKey ?sc) = 32" by (simp add: NewSecureChannel_def)
  have up: "any_up demo_websocket demo_view (?conn inc)" for inc using demo_up by simp
  have size: "\<forall>m \<in> set ?msgs. length m \<le> gcm_max" "length [[3], [4 :: byte]] = length ?msgs"
    by (simp_all add: gcm_max_def)
  obtain packets where
    recv: "\<forall>is u. list_all (\<lambda>i. i < length ?msgs) is \<longrightarrow> any_up demo_websocket demo_view u \<longrightarrow>
      any_in demo_view u = map ((!) packets) is \<longrightarrow>
      (\<exists>u'. recv_all demo_lib (any_transport demo_websocket 0) ?sc (length is) u = Some (u', Ok (map ((!) ?msgs) is))
        \<and> any_up demo_websocket demo_view u')"
    using secure_channel_accepts_any_order [OF demo_laws(2) key up [of "[]"] size, where now = 0 and r = "[]"
        and lib' = demo_websocket and v' = demo_view and now' = 0]
    by (elim exE conjE) (rule that)
  from recv [rule_format, of "[1, 0, 1]", OF _ up, of "[packets ! 1, packets ! 0, packets ! 1]"]
  have "\<exists>u'. recv_all demo_lib (any_transport demo_websocket 0) ?sc 3
      (?conn [packets ! 1, packets ! 0, packets ! 1]) = Some (u', Ok [[2, 2], [1], [2, 2]])"
    by (simp add: numeral_eq_Suc direct_in_def NewDirectConn_def) blast
  then show ?thesis by blast
qed

end
