(* ===== verification/Chat.thy ===== *)
theory Chat
  imports Client
begin

text \<open>
  \<open>interactiveChat\<close> of \<open>cmd/pqc-chart-tool/main.go\<close> on both ends of a connection, with the mutex
  of the connection types in \<open>pkg/transport\<close>.

  Each end runs two goroutines over one secure channel: the reader calls \<open>Recv\<close> in a loop and
  the sender calls \<open>Send\<close> for every line that is typed. \<open>Send\<close>, \<open>Recv\<close> and \<open>Close\<close> of the
  connection hold its mutex while they run, \<open>Recv\<close> also while it waits for a frame. The model
  gives each goroutine the program points where another one may run, and \<open>chat_step\<close> is one
  move of any of the four. It restates \<open>Send\<close>, \<open>Recv\<close> and \<open>Close\<close> of the connection, which theory
  \<open>Conn\<close> has as functions, cut where they take and give up the mutex. The read deadline passing is a step of its own, so that what
  happens before it can be told apart from what happens after.

  The lemmas show that the mutex works, that what is printed is what was typed at the other
  end, and that both ends can wait for each other until the deadline.
\<close>

section \<open>The two goroutines of one end\<close>

text \<open>
  Before \<open>Lock\<close> in \<open>Recv\<close>; inside \<open>ReadMessage\<close>; after \<open>interactiveChat\<close> returned, before \<open>Lock\<close> in the
  \<open>Close\<close> its caller has deferred; before the library's close; and after that.
\<close>

datatype reader = R_lock | R_read | R_return | R_closing | R_done

text \<open>
  In \<open>scanner.Scan\<close>; before \<open>Lock\<close> in \<open>Send\<close> with the encrypted line; before the write; before
  \<open>Lock\<close> in \<open>Close\<close>; before the library's close; and after the goroutine returned.
\<close>

datatype sender = S_scan | S_lock bytes | S_write bytes | S_close | S_closing | S_return

text \<open>
  \<open>typed\<close> are the lines the scanner will still find, \<open>inbox\<close> the frames that have arrived and
  \<open>printed\<close> the messages shown. \<open>mu\<close> is the connection's mutex. A process that has exited is
  not \<open>running\<close>.
\<close>

record endpoint =
  reader :: reader
  sender :: sender
  mu :: bool
  typed :: "string list"
  tape :: rng
  inbox :: "bytes list"
  printed :: "bytes list"
  opened :: bool
  running :: bool

text \<open>\<open>strings.ToLower\<close> on ASCII text.\<close>

definition strings_ToLower :: "string \<Rightarrow> string" where
  "strings_ToLower s = map (\<lambda>ch. let n = (of_char ch :: nat) in
     if 65 \<le> n \<and> n \<le> 90 then char_of (n + 32) else ch) s"

text \<open>A line of 64 KiB or more makes \<open>Scan\<close> return false.\<close>

definition MaxScanTokenSize :: nat where "MaxScanTokenSize = 64 * 1024"

text \<open>
  One turn of the sender's loop up to the call of the transport: the end of the input, \<open>quit\<close>,
  and a line to be encrypted. A panic would end the process.
\<close>

definition scan_line :: "crypto_lib \<Rightarrow> bytes \<Rightarrow> endpoint \<Rightarrow> endpoint" where
  "scan_line c key e = (case typed e of
      [] \<Rightarrow> e\<lparr>sender := S_return\<rparr>
    | l # ls \<Rightarrow>
        if MaxScanTokenSize \<le> length l then e\<lparr>sender := S_return\<rparr>
        else if strings_ToLower l = ''quit'' then e\<lparr>typed := ls, sender := S_close\<rparr>
        else (case AESGCMEncrypt c key (bytes_of_string l) (tape e) of
            (r, Ok pkt) \<Rightarrow> e\<lparr>typed := ls, tape := r, sender := S_lock pkt\<rparr>
          | (r, Err _) \<Rightarrow> e\<lparr>typed := ls, tape := r, sender := S_return\<rparr>
          | (r, Panic _) \<Rightarrow> e\<lparr>typed := ls, tape := r, running := False\<rparr>))"

text \<open>\<open>Recv\<close> after a frame has arrived: unlock, decrypt, print or return.\<close>

definition take_frame :: "crypto_lib \<Rightarrow> bytes \<Rightarrow> bytes \<Rightarrow> bytes list \<Rightarrow> endpoint \<Rightarrow> endpoint" where
  "take_frame c key pkt rest e = (case AESGCMDecrypt c key pkt of
      Ok m \<Rightarrow> e\<lparr>mu := False, inbox := rest, printed := printed e @ [m], reader := R_lock\<rparr>
    | Err _ \<Rightarrow> e\<lparr>mu := False, inbox := rest, reader := R_return\<rparr>
    | Panic _ \<Rightarrow> e\<lparr>mu := False, inbox := rest, running := False\<rparr>)"

section \<open>The system\<close>

datatype side = Dialler | Listener

fun other :: "side \<Rightarrow> side" where
  "other Dialler = Listener"
| "other Listener = Dialler"

lemma other_simps [simp]: "other p \<noteq> p" "p \<noteq> other p" "other (other p) = p"
  by (cases p; simp)+

lemma other_eq [simp]: "other p = other q \<longleftrightarrow> p = q"
  by (cases p; cases q; simp)

lemma side_cases: "q = p \<or> q = other p"
  by (cases p; cases q; simp)

lemma all_sides: "(\<forall>p. P p) \<longleftrightarrow> P Dialler \<and> P Listener"
  by (metis side.exhaust)

text \<open>With two ends, what holds of every end can be computed.\<close>

instantiation side :: enum
begin

definition enum_side :: "side list" where "enum_side = [Dialler, Listener]"

definition enum_all_side :: "(side \<Rightarrow> bool) \<Rightarrow> bool" where
  "enum_all_side P \<longleftrightarrow> P Dialler \<and> P Listener"

definition enum_ex_side :: "(side \<Rightarrow> bool) \<Rightarrow> bool" where
  "enum_ex_side P \<longleftrightarrow> P Dialler \<or> P Listener"

instance
  by intro_classes
    (auto simp: enum_side_def enum_all_side_def enum_ex_side_def all_sides, (metis side.exhaust)+)

end

type_synonym chat = "side \<Rightarrow> endpoint"

definition chat_start :: "(side \<Rightarrow> string list) \<Rightarrow> (side \<Rightarrow> rng) \<Rightarrow> chat" where
  "chat_start input r p = \<lparr>reader = R_lock, sender = S_scan, mu = False, typed = input p, tape = r p,
     inbox = [], printed = [], opened = True, running = True\<rparr>"

text \<open>
  A write reaches the other end's library whether or not its process still reads; it may fail
  when the connection is closed or the other end has closed it or gone. \<open>quit\<close> closes the
  connection and exits. A read fails when the other end has closed the connection or gone and
  nothing is left to read. When the reader has returned, \<open>connectToPeer\<close> closes the channel and
  ends the process; so does \<open>startServer\<close>'s handler, whose process goes on.
\<close>

inductive chat_step :: "crypto_lib \<Rightarrow> bytes \<Rightarrow> chat \<Rightarrow> chat \<Rightarrow> bool" for c key where
  scan: "running (s p) \<Longrightarrow> sender (s p) = S_scan \<Longrightarrow>
     chat_step c key s (s(p := scan_line c key (s p)))"
| send_lock: "running (s p) \<Longrightarrow> sender (s p) = S_lock pkt \<Longrightarrow> \<not> mu (s p) \<Longrightarrow>
     chat_step c key s (s(p := (s p)\<lparr>mu := True, sender := S_write pkt\<rparr>))"
| send_write: "running (s p) \<Longrightarrow> sender (s p) = S_write pkt \<Longrightarrow> opened (s p) \<Longrightarrow> q = other p \<Longrightarrow>
     chat_step c key s (s(p := (s p)\<lparr>mu := False, sender := S_scan\<rparr>,
       q := (s q)\<lparr>inbox := inbox (s q) @ [pkt]\<rparr>))"
| send_fail: "running (s p) \<Longrightarrow> sender (s p) = S_write pkt \<Longrightarrow>
     \<not> opened (s p) \<or> \<not> opened (s (other p)) \<or> \<not> running (s (other p)) \<Longrightarrow>
     chat_step c key s (s(p := (s p)\<lparr>mu := False, sender := S_return\<rparr>))"
| close_lock: "running (s p) \<Longrightarrow> sender (s p) = S_close \<Longrightarrow> \<not> mu (s p) \<Longrightarrow>
     chat_step c key s (s(p := (s p)\<lparr>mu := True, sender := S_closing\<rparr>))"
| close_exit: "running (s p) \<Longrightarrow> sender (s p) = S_closing \<Longrightarrow>
     chat_step c key s (s(p := (s p)\<lparr>mu := False, opened := False, running := False\<rparr>))"
| recv_lock: "running (s p) \<Longrightarrow> reader (s p) = R_lock \<Longrightarrow> \<not> mu (s p) \<Longrightarrow>
     chat_step c key s (s(p := if opened (s p) then (s p)\<lparr>mu := True, reader := R_read\<rparr>
       else (s p)\<lparr>reader := R_return\<rparr>))"
| recv_frame: "running (s p) \<Longrightarrow> reader (s p) = R_read \<Longrightarrow> inbox (s p) = pkt # rest \<Longrightarrow>
     chat_step c key s (s(p := take_frame c key pkt rest (s p)))"
| recv_lost: "running (s p) \<Longrightarrow> reader (s p) = R_read \<Longrightarrow> inbox (s p) = [] \<Longrightarrow>
     \<not> opened (s (other p)) \<or> \<not> running (s (other p)) \<Longrightarrow>
     chat_step c key s (s(p := (s p)\<lparr>mu := False, reader := R_return\<rparr>))"
| defer_lock: "running (s p) \<Longrightarrow> reader (s p) = R_return \<Longrightarrow> \<not> mu (s p) \<Longrightarrow>
     chat_step c key s (s(p := (s p)\<lparr>mu := True, reader := R_closing\<rparr>))"
| defer_close: "running (s p) \<Longrightarrow> reader (s p) = R_closing \<Longrightarrow>
     chat_step c key s (s(p := (s p)\<lparr>mu := False, reader := R_done, opened := False, running := (p = Listener)\<rparr>))"

text \<open>Five minutes after \<open>Recv\<close> set its deadline.\<close>

inductive deadline_step :: "chat \<Rightarrow> chat \<Rightarrow> bool" where
  deadline: "running (s p) \<Longrightarrow> reader (s p) = R_read \<Longrightarrow> inbox (s p) = [] \<Longrightarrow>
     deadline_step s (s(p := (s p)\<lparr>mu := False, reader := R_return\<rparr>))"

definition chat_any :: "crypto_lib \<Rightarrow> bytes \<Rightarrow> chat \<Rightarrow> chat \<Rightarrow> bool" where
  "chat_any c key s s' \<longleftrightarrow> chat_step c key s s' \<or> deadline_step s s'"

inductive_cases chat_stepE: "chat_step c key s s'"
inductive_simps deadline_step_iff: "deadline_step s s'"

section \<open>What a turn of a goroutine leaves alone\<close>

text \<open>A line the scanner returns is short enough to be encrypted, so scanning never panics.\<close>

lemma scan_line_cases:
  assumes "scan_line c key e = e'"
  obtains (stop) ls r where "e' = e\<lparr>typed := ls, tape := r, sender := S_return\<rparr>" "\<exists>ls'. typed e = ls' @ ls"
    | (quit) l ls where "typed e = l # ls" "e' = e\<lparr>typed := ls, sender := S_close\<rparr>"
    | (send) l ls r pkt where "typed e = l # ls" "AESGCMEncrypt c key (bytes_of_string l) (tape e) = (r, Ok pkt)"
        "e' = e\<lparr>typed := ls, tape := r, sender := S_lock pkt\<rparr>"
proof (cases "typed e")
  case Nil
  then show thesis using assms stop [where ls = "[]" and r = "tape e"] by (cases e) (simp add: scan_line_def)
next
  case (Cons l ls)
  show thesis
  proof (cases "MaxScanTokenSize \<le> length l \<or> strings_ToLower l = ''quit''")
    case True
    then show thesis
      using assms Cons stop [where ls = "l # ls" and r = "tape e"] quit [of l ls]
      by (cases e) (auto simp: scan_line_def split: if_splits)
  next
    case False
    obtain r x where enc: "AESGCMEncrypt c key (bytes_of_string l) (tape e) = (r, x)" by fastforce
    have "length (bytes_of_string l) \<le> gcm_max"
      using False by (simp add: MaxScanTokenSize_def gcm_max_def)
    then have "\<not> is_panic x" using AESGCMEncrypt_no_panic [of "bytes_of_string l" c key "tape e"] enc by simp
    then show thesis
      using assms Cons False enc stop [where ls = ls and r = r] send [of l ls r] by (cases x) (auto simp: scan_line_def)
  qed
qed

text \<open>What arrived is always taken out of the inbox; reading gives up only on a bad packet.\<close>

lemma take_frame_cases:
  obtains (shown) m where "AESGCMDecrypt c key pkt = Ok m"
      "take_frame c key pkt rest e = e\<lparr>mu := False, inbox := rest, printed := printed e @ [m], reader := R_lock\<rparr>"
    | (bad) "\<nexists>m. AESGCMDecrypt c key pkt = Ok m"
      "take_frame c key pkt rest e = e\<lparr>mu := False, inbox := rest, reader := R_return\<rparr>"
  using AESGCMDecrypt_no_panic [of c key pkt] by (cases "AESGCMDecrypt c key pkt") (auto simp: take_frame_def)

section \<open>The mutex\<close>

text \<open>
  The mutex is held exactly while one goroutine is inside a call that locked it, and never by
  both; and an end that runs on with its connection closed no longer reads.
\<close>

definition lock_inv :: "endpoint \<Rightarrow> bool" where
  "lock_inv e \<longleftrightarrow> (running e \<longrightarrow> (opened e \<or> reader e = R_done) \<and>
     (mu e \<longleftrightarrow> reader e = R_read \<or> reader e = R_closing \<or> sender e = S_closing \<or> (\<exists>pkt. sender e = S_write pkt)) \<and>
     \<not> ((reader e = R_read \<or> reader e = R_closing) \<and> (sender e = S_closing \<or> (\<exists>pkt. sender e = S_write pkt))))"

lemma lock_inv_scan:
  assumes "lock_inv e" "sender e = S_scan"
  shows "lock_inv (scan_line c key e)"
  by (rule scan_line_cases [OF refl, of c key e]) (use assms in \<open>auto simp: lock_inv_def\<close>)

lemma lock_inv_frame:
  assumes "lock_inv e" "reader e = R_read"
  shows "lock_inv (take_frame c key pkt rest e)"
  by (rule take_frame_cases [of c key pkt rest e]) (use assms in \<open>auto simp: lock_inv_def\<close>)

lemma lock_inv_step:
  assumes "chat_any c key s s'" "\<forall>p. lock_inv (s p)"
  shows "\<forall>p. lock_inv (s' p)"
proof -
  have "\<forall>p. lock_inv (s' p)" if "chat_step c key s s'"
    using that assms(2)
    by (elim chat_stepE) (auto simp: lock_inv_scan lock_inv_frame, auto simp: lock_inv_def)
  moreover have "\<forall>p. lock_inv (s' p)" if "deadline_step s s'"
    using that assms(2) by (auto simp: deadline_step_iff lock_inv_def split: if_splits)
  ultimately show ?thesis using assms(1) unfolding chat_any_def by blast
qed

section \<open>What is printed\<close>

primrec in_flight :: "sender \<Rightarrow> bytes list" where
  "in_flight S_scan = []"
| "in_flight (S_lock pkt) = [pkt]"
| "in_flight (S_write pkt) = [pkt]"
| "in_flight S_close = []"
| "in_flight S_closing = []"
| "in_flight S_return = []"

definition sending :: "sender \<Rightarrow> bool" where
  "sending x \<longleftrightarrow> x = S_scan \<or> in_flight x \<noteq> []"

text \<open>
  One direction of the conversation, from the sending end \<open>es\<close> to the receiving end \<open>er\<close>: the
  lines read so far are those printed there, then those on the way, then those lost; as long
  as the sender goes on, none is lost.
\<close>

definition line_inv :: "crypto_lib \<Rightarrow> bytes \<Rightarrow> string list \<Rightarrow> endpoint \<Rightarrow> endpoint \<Rightarrow> bool" where
  "line_inv c key lines es er \<longleftrightarrow> (\<exists>done ms lost. lines = done @ typed es
     \<and> map (AESGCMDecrypt c key) (inbox er @ in_flight (sender es)) = map Ok ms
     \<and> map bytes_of_string done = printed er @ ms @ lost
     \<and> (sending (sender es) \<longrightarrow> lost = []))"

lemma line_inv_start: "line_inv c key (input p) (chat_start input r p) (chat_start input r (other p))"
  by (simp add: line_inv_def chat_start_def)

lemma line_inv_scan:
  assumes c: "aead_laws c" and inv: "line_inv c key lines es er" "sender es = S_scan"
  shows "line_inv c key lines (scan_line c key es) er"
proof -
  obtain dn ms where inv: "lines = dn @ typed es"
    "map (AESGCMDecrypt c key) (inbox er) = map Ok ms" "map bytes_of_string dn = printed er @ ms"
    using inv by (auto simp: line_inv_def sending_def)
  show ?thesis
  proof (rule scan_line_cases [OF refl, of c key es])
    fix ls r
    assume stop: "scan_line c key es = es\<lparr>typed := ls, tape := r, sender := S_return\<rparr>"
      and "\<exists>ls'. typed es = ls' @ ls"
    then obtain ls' where "typed es = ls' @ ls" by blast
    with inv stop show ?thesis
      unfolding line_inv_def
      by (intro exI [of _ "dn @ ls'"] exI [of _ ms] exI [of _ "map bytes_of_string ls'"]) (simp add: sending_def)
  next
    fix l ls
    assume "typed es = l # ls" "scan_line c key es = es\<lparr>typed := ls, sender := S_close\<rparr>"
    with inv show ?thesis
      unfolding line_inv_def
      by (intro exI [of _ "dn @ [l]"] exI [of _ ms] exI [of _ "[bytes_of_string l]"]) (simp add: sending_def)
  next
    fix l ls r pkt
    assume send: "typed es = l # ls" "AESGCMEncrypt c key (bytes_of_string l) (tape es) = (r, Ok pkt)"
      "scan_line c key es = es\<lparr>typed := ls, tape := r, sender := S_lock pkt\<rparr>"
    have "AESGCMDecrypt c key pkt = Ok (bytes_of_string l)"
      using aesgcm.unseal_seal [OF c send(2)] .
    with inv send show ?thesis
      unfolding line_inv_def
      by (intro exI [of _ "dn @ [l]"] exI [of _ "ms @ [bytes_of_string l]"] exI [of _ "[]"]) simp
  qed
qed

lemma line_inv_frame:
  assumes "line_inv c key lines es er" "inbox er = pkt # rest"
  shows "line_inv c key lines es (take_frame c key pkt rest er)"
proof -
  obtain dn ms lost where inv: "lines = dn @ typed es"
    "map (AESGCMDecrypt c key) (inbox er @ in_flight (sender es)) = map Ok ms"
    "map bytes_of_string dn = printed er @ ms @ lost" "sending (sender es) \<longrightarrow> lost = []"
    using assms(1) unfolding line_inv_def by blast
  then obtain m ms' where m: "ms = m # ms'" "AESGCMDecrypt c key pkt = Ok m"
    using assms(2) by (cases ms) auto
  from m(2) have "take_frame c key pkt rest er =
      er\<lparr>mu := False, inbox := rest, printed := printed er @ [m], reader := R_lock\<rparr>"
    by (simp add: take_frame_def)
  with inv m assms(2) show ?thesis
    unfolding line_inv_def by (intro exI [of _ dn] exI [of _ ms'] exI [of _ lost]) simp
qed

lemma line_inv_write:
  assumes "line_inv c key lines es er" "sender es = S_write pkt"
  shows "line_inv c key lines (es\<lparr>mu := b, sender := S_scan\<rparr>) (er\<lparr>inbox := inbox er @ [pkt]\<rparr>)"
  using assms by (simp add: line_inv_def sending_def)

lemma line_inv_lost:
  assumes "line_inv c key lines es er" "sender es = S_write pkt"
  shows "line_inv c key lines (es\<lparr>mu := b, sender := S_return\<rparr>) er"
proof -
  obtain dn ms where inv: "lines = dn @ typed es"
    "map (AESGCMDecrypt c key) (inbox er @ [pkt]) = map Ok ms" "map bytes_of_string dn = printed er @ ms"
    using assms by (auto simp: line_inv_def sending_def)
  from inv(2) have "ms \<noteq> []" by auto
  then obtain ms' m where "ms = ms' @ [m]" by (metis rev_exhaust)
  with inv show ?thesis
    unfolding line_inv_def by (intro exI [of _ dn] exI [of _ ms'] exI [of _ "[m]"]) (auto simp: sending_def)
qed

text \<open>The other moves change nothing the invariant looks at, or stop an idle sender.\<close>

lemma line_inv_idle:
  assumes "line_inv c key lines es er"
  shows "line_inv c key lines (es\<lparr>mu := b, reader := x\<rparr>) er"
    and "line_inv c key lines (es\<lparr>reader := x\<rparr>) er"
    and "line_inv c key lines es (er\<lparr>mu := b, reader := x\<rparr>)"
    and "line_inv c key lines es (er\<lparr>reader := x\<rparr>)"
    and "line_inv c key lines es (er\<lparr>mu := b, sender := y\<rparr>)"
    and "line_inv c key lines es (er\<lparr>mu := b, opened := o', running := o''\<rparr>)"
    and "line_inv c key lines (es\<lparr>mu := b, opened := o', running := o''\<rparr>) er"
    and "line_inv c key lines es (scan_line c key er)"
    and "line_inv c key lines (take_frame c key pkt rest es) er"
    and "sender es = S_lock pkt \<Longrightarrow> line_inv c key lines (es\<lparr>mu := b, sender := S_write pkt\<rparr>) er"
    and "sender es = S_close \<Longrightarrow> line_inv c key lines (es\<lparr>mu := b, sender := S_closing\<rparr>) er"
    and "line_inv c key lines (es\<lparr>inbox := i'\<rparr>) er"
    and "line_inv c key lines (es\<lparr>mu := b, reader := x, opened := o', running := o''\<rparr>) er"
    and "line_inv c key lines es (er\<lparr>mu := b, reader := x, opened := o', running := o''\<rparr>)"
proof -
  show "line_inv c key lines es (scan_line c key er)"
    by (rule scan_line_cases [OF refl, of c key er]) (use assms in \<open>simp_all add: line_inv_def\<close>)
  show "line_inv c key lines (take_frame c key pkt rest es) er"
    by (rule take_frame_cases [of c key pkt rest es]) (use assms in \<open>simp_all add: line_inv_def\<close>)
qed (use assms in \<open>auto simp: line_inv_def sending_def\<close>)

lemma line_inv_step:
  assumes c: "aead_laws c" and step: "chat_any c key s s'"
    and inv: "\<And>p. line_inv c key (input p) (s p) (s (other p))"
  shows "line_inv c key (input p) (s' p) (s' (other p))"
proof -
  note keep = line_inv_scan [OF c] line_inv_frame line_inv_write line_inv_lost line_inv_idle
  have p: "line_inv c key (input p) (s p) (s (other p))" by (rule inv)
  have "line_inv c key (input p) (s' p) (s' (other p))" if "chat_step c key s s'"
    using that p keep side_cases [of _ p] by (elim chat_stepE) auto
  moreover have "line_inv c key (input p) (s' p) (s' (other p))" if "deadline_step s s'"
    using that p keep side_cases [of _ p] by (auto simp: deadline_step_iff)
  ultimately show ?thesis using step unfolding chat_any_def by blast
qed

section \<open>Waiting for each other\<close>

text \<open>Both readers wait inside \<open>Recv\<close>, nothing has been shown and nothing is on its way.\<close>

definition both_wait :: "chat \<Rightarrow> bool" where
  "both_wait s \<longleftrightarrow> (\<forall>p. running (s p) \<and> opened (s p) \<and> reader (s p) = R_read \<and> mu (s p) \<and> inbox (s p) = []
     \<and> printed (s p) = [] \<and> sender (s p) \<noteq> S_closing \<and> (\<forall>pkt. sender (s p) \<noteq> S_write pkt))"

lemma both_wait_scan:
  assumes "both_wait s" "sender (s p) = S_scan"
  shows "both_wait (s(p := scan_line c key (s p)))"
  by (rule scan_line_cases [OF refl, of c key "s p"]) (use assms in \<open>auto simp: both_wait_def\<close>)

lemma both_wait_step: "chat_step c key s s' \<Longrightarrow> both_wait s \<Longrightarrow> both_wait s'"
  by (elim chat_stepE) (simp_all add: both_wait_scan, auto simp: both_wait_def)

lemma both_wait_steps: "(chat_step c key)\<^sup>*\<^sup>* s s' \<Longrightarrow> both_wait s \<Longrightarrow> both_wait s'"
  by (induction rule: rtranclp_induct) (auto intro: both_wait_step)

lemma both_wait_reachable: "\<exists>s. (chat_step c key)\<^sup>*\<^sup>* (chat_start input r) s \<and> both_wait s"
proof -
  let ?s = "chat_start input r"
  let ?wait = "\<lambda>p. (?s p)\<lparr>mu := True, reader := R_read\<rparr>"
  have "chat_step c key ?s (?s(Dialler := ?wait Dialler))"
    using chat_step.recv_lock [of ?s Dialler c key] by (simp add: chat_start_def)
  moreover have "chat_step c key (?s(Dialler := ?wait Dialler)) (?s(Dialler := ?wait Dialler, Listener := ?wait Listener))"
    using chat_step.recv_lock [of "?s(Dialler := ?wait Dialler)" Listener c key] by (simp add: chat_start_def)
  moreover have "both_wait (?s(Dialler := ?wait Dialler, Listener := ?wait Listener))"
    by (simp add: both_wait_def all_sides chat_start_def)
  ultimately show ?thesis by (meson rtranclp.rtrancl_into_rtrancl rtranclp.rtrancl_refl)
qed

section \<open>A line that arrives\<close>

lemma demo_chat:
  "\<exists>s. (chat_any demo_lib (replicate 32 7))\<^sup>*\<^sup>* (chat_start (case_side [''hi''] []) (case_side [Some [1]] [])) s
     \<and> printed (s Listener) = [bytes_of_string ''hi'']"
proof -
  let ?key = "replicate 32 7 :: bytes" and ?hi = "bytes_of_string ''hi''"
  let ?R = "(chat_any demo_lib ?key)\<^sup>*\<^sup>*" and ?s0 = "chat_start (case_side [''hi''] []) (case_side [Some [1]] [])"
  have run: "?R s s''" if "?R s s'" "chat_step demo_lib ?key s' s''" for s s' s''
    using that by (auto simp: chat_any_def intro: rtranclp.rtrancl_into_rtrancl)
  obtain pkt where enc: "AESGCMEncrypt demo_lib ?key ?hi [Some [1]] = ([], Ok pkt)"
    using AESGCMEncrypt_Some [of ?key ?hi] by (simp add: gcm_max_def)
  have dec: "AESGCMDecrypt demo_lib ?key pkt = Ok ?hi" by (rule aesgcm.unseal_seal [OF demo_laws(2) enc])
  have not_quit: "strings_ToLower ''hi'' \<noteq> ''quit''" by (simp add: strings_ToLower_def)
  let ?s1 = "?s0(Dialler := (?s0 Dialler)\<lparr>typed := [], tape := [], sender := S_lock pkt\<rparr>)"
  have "scan_line demo_lib ?key (?s0 Dialler) = (?s0 Dialler)\<lparr>typed := [], tape := [], sender := S_lock pkt\<rparr>"
    using enc not_quit by (simp add: scan_line_def chat_start_def MaxScanTokenSize_def)
  then have "?R ?s0 ?s1"
    using run [OF _ chat_step.scan [of ?s0 Dialler]] by (simp add: chat_start_def)
  let ?s2 = "?s1(Dialler := (?s1 Dialler)\<lparr>mu := True, sender := S_write pkt\<rparr>)"
  have "?R ?s0 ?s2"
    by (rule run [OF \<open>?R ?s0 ?s1\<close> chat_step.send_lock]) (simp_all add: chat_start_def)
  let ?s3 = "?s2(Dialler := (?s2 Dialler)\<lparr>mu := False, sender := S_scan\<rparr>,
    Listener := (?s2 Listener)\<lparr>inbox := inbox (?s2 Listener) @ [pkt]\<rparr>)"
  have "?R ?s0 ?s3"
    by (rule run [OF \<open>?R ?s0 ?s2\<close> chat_step.send_write]) (simp_all add: chat_start_def)
  let ?s4 = "?s3(Listener := if opened (?s3 Listener) then (?s3 Listener)\<lparr>mu := True, reader := R_read\<rparr>
      else (?s3 Listener)\<lparr>reader := R_return\<rparr>)"
  have "?R ?s0 ?s4"
    by (rule run [OF \<open>?R ?s0 ?s3\<close> chat_step.recv_lock]) (simp_all add: chat_start_def)
  let ?s5 = "?s4(Listener := take_frame demo_lib ?key pkt [] (?s4 Listener))"
  have "?R ?s0 ?s5"
    by (rule run [OF \<open>?R ?s0 ?s4\<close> chat_step.recv_frame]) (simp_all add: chat_start_def)
  moreover have "printed (?s5 Listener) = [?hi]"
    using dec by (simp add: take_frame_def chat_start_def)
  ultimately show ?thesis by blast
qed

section \<open>Properties\<close>

text \<open>
  C3. A chat shows what was typed. In every state that two ends holding the same key can reach,
  deadlines included, the messages printed at one end are the first lines typed at the other,
  in order and unchanged; and while a process runs, its two goroutines are never inside the
  connection at the same time.
\<close>

theorem chat_prints_what_was_typed:
  assumes c: "aead_laws c" and reach: "(chat_any c key)\<^sup>*\<^sup>* (chat_start input r) s"
  shows "(\<exists>rest. map bytes_of_string (input p) = printed (s (other p)) @ rest)
    \<and> \<not> (running (s p) \<and> reader (s p) \<in> {R_read, R_closing} \<and> sender (s p) \<in> insert S_closing (range S_write))"
proof -
  have "\<forall>p. line_inv c key (input p) (s p) (s (other p)) \<and> lock_inv (s p)"
    using reach
  proof (induction rule: rtranclp_induct)
    case base
    have "lock_inv (chat_start input r p)" for p by (simp add: lock_inv_def chat_start_def)
    then show ?case using line_inv_start by blast
  next
    case (step s s')
    then show ?case using line_inv_step [OF c step(2)] lock_inv_step [OF step(2)] by blast
  qed
  then have "line_inv c key (input p) (s p) (s (other p))" "lock_inv (s p)" by blast+
  then show ?thesis by (auto simp: line_inv_def lock_inv_def)
qed

theorem chat_prints_what_was_typed_witness:
  "\<exists>s rest. (chat_any demo_lib (replicate 32 7))\<^sup>*\<^sup>*
       (chat_start (case_side [''hi''] []) (case_side [Some [1]] [])) s
     \<and> printed (s Listener) = [bytes_of_string ''hi'']
     \<and> map bytes_of_string [''hi''] = printed (s Listener) @ rest"
proof -
  obtain s where s: "(chat_any demo_lib (replicate 32 7))\<^sup>*\<^sup>*
      (chat_start (case_side [''hi''] []) (case_side [Some [1]] [])) s"
    "printed (s Listener) = [bytes_of_string ''hi'']"
    using demo_chat by blast
  from chat_prints_what_was_typed [OF demo_laws(2) s(1), of Dialler] s show ?thesis by auto
qed

text \<open>
  C19. The chat can come to a halt. Whatever will be typed, the two ends can reach a state in
  which each reader holds its connection's mutex and waits for a message, and from which no
  move before a read deadline ever sends, shows or closes anything: every \<open>Send\<close> and every
  \<open>quit\<close> waits for the mutex. Only the deadline, five minutes later, ends the wait.
\<close>

theorem chat_deadlocks:
  "\<exists>s. (chat_step c key)\<^sup>*\<^sup>* (chat_start input r) s
    \<and> (\<forall>s'. (chat_step c key)\<^sup>*\<^sup>* s s' \<longrightarrow>
        (\<forall>p. running (s' p) \<and> reader (s' p) = R_read \<and> inbox (s' p) = [] \<and> printed (s' p) = [])
        \<and> (\<exists>s''. deadline_step s' s''))"
proof -
  obtain s where s: "(chat_step c key)\<^sup>*\<^sup>* (chat_start input r) s" "both_wait s"
    using both_wait_reachable by blast
  have "(\<forall>p. running (s' p) \<and> reader (s' p) = R_read \<and> inbox (s' p) = [] \<and> printed (s' p) = [])
      \<and> (\<exists>s''. deadline_step s' s'')" if "(chat_step c key)\<^sup>*\<^sup>* s s'" for s'
    using both_wait_steps [OF that s(2)] by (auto simp: both_wait_def deadline_step_iff)
  with s(1) show ?thesis by blast
qed

theorem chat_deadlocks_witness:
  "\<exists>s. (chat_step demo_lib (replicate 32 7))\<^sup>*\<^sup>* (chat_start (\<lambda>p. [''hi'']) (\<lambda>p. [Some [1]])) s
     \<and> reader (s Dialler) = R_read \<and> reader (s Listener) = R_read \<and> printed (s Listener) = []"
proof -
  obtain s where "(chat_step demo_lib (replicate 32 7))\<^sup>*\<^sup>* (chat_start (\<lambda>p. [''hi'']) (\<lambda>p. [Some [1]])) s"
    "\<forall>s'. (chat_step demo_lib (replicate 32 7))\<^sup>*\<^sup>* s s' \<longrightarrow>
      (\<forall>p. running (s' p) \<and> reader (s' p) = R_read \<and> inbox (s' p) = [] \<and> printed (s' p) = [])
      \<and> (\<exists>s''. deadline_step s' s'')"
    using chat_deadlocks [of demo_lib "replicate 32 7" "\<lambda>p. [''hi'']" "\<lambda>p. [Some [1]]"] by blast
  then show ?thesis by blast
qed

end
