(* ===== verification/Commands.thy ===== *)
theory Commands
  imports Store Chat
begin

text \<open>
  The command line, after the second half of \<open>cmd/pqc-chart-tool/main.go\<close>: \<open>main\<close> and its
  commands, from the arguments and the password prompt to the calls of the key store and the
  client.

  A command works on the \<open>world\<close>: the files, the random numbers, standard input and standard
  output, which is kept as the list of printed lines. It returns, exits with a status, ends
  in an uncaught panic, or does not come back. \<open>log.Fatalf\<close> and \<open>os.Exit\<close> end the process
  without running deferred calls, a return and a panic run them first: \<open>deferring\<close> is that
  difference. What goes to the log is left out. Parsing of flags is the pflag package, a
  parameter. The interactive part, with its goroutines, is the transition system of the theory
  \<open>Chat\<close>; the commands take what one run of it does to the connection as an argument.
\<close>

section \<open>Commands and what they work on\<close>

record world =
  w_fs :: fs
  w_rng :: rng
  w_stdin :: string
  w_out :: "string list"
  w_home :: "string res"

datatype 'a outcome = Done 'a | Exit int | Crash string | Hangs

type_synonym 'a cmd = "world \<Rightarrow> world \<times> 'a outcome"

definition cmd_return :: "'a \<Rightarrow> 'a cmd" where
  "cmd_return a w = (w, Done a)"

definition cmd_bind :: "'a cmd \<Rightarrow> ('a \<Rightarrow> 'b cmd) \<Rightarrow> 'b cmd" where
  "cmd_bind m f w = (case m w of (w', Done a) \<Rightarrow> f a w' | (w', Exit n) \<Rightarrow> (w', Exit n)
     | (w', Crash p) \<Rightarrow> (w', Crash p) | (w', Hangs) \<Rightarrow> (w', Hangs))"

definition os_Exit :: "int \<Rightarrow> 'a cmd" where
  "os_Exit n w = (w, Exit n)"

text \<open>\<open>if err != nil { log.Fatalf(...) }\<close>.\<close>

definition or_fatal :: "'a res \<Rightarrow> 'a cmd" where
  "or_fatal x w = (case x of Ok a \<Rightarrow> (w, Done a) | Err e \<Rightarrow> (w, Exit 1) | Panic p \<Rightarrow> (w, Crash p))"

definition on_fs :: "(fs, 'a) st \<Rightarrow> 'a res cmd" where
  "on_fs m w = (case m (w_fs w) of (f, x) \<Rightarrow> (w\<lparr>w_fs := f\<rparr>, Done x))"

definition on_rng :: "(rng, 'a) st \<Rightarrow> 'a res cmd" where
  "on_rng m w = (case m (w_rng w) of (r, x) \<Rightarrow> (w\<lparr>w_rng := r\<rparr>, Done x))"

definition on_both :: "(fs, 'a) meth \<Rightarrow> 'a res cmd" where
  "on_both m w = (case m (w_fs w, w_rng w) of ((f, r), x) \<Rightarrow> (w\<lparr>w_fs := f, w_rng := r\<rparr>, Done x))"

definition from_fs :: "(fs \<Rightarrow> 'a) \<Rightarrow> 'a cmd" where
  "from_fs g w = (w, Done (g (w_fs w)))"

text \<open>\<open>defer deferred(); body\<close>.\<close>

definition deferring :: "unit cmd \<Rightarrow> 'a cmd \<Rightarrow> 'a cmd" where
  "deferring deferred body w = (case body w of
      (w', Done a) \<Rightarrow> cmd_bind deferred (\<lambda>_. cmd_return a) w'
    | (w', Crash p) \<Rightarrow> cmd_bind deferred (\<lambda>_ w'. (w', Crash p)) w'
    | (w', x) \<Rightarrow> (w', x))"

definition println :: "string \<Rightarrow> unit cmd" where
  "println s w = (w\<lparr>w_out := w_out w @ [s]\<rparr>, Done ())"

definition println_all :: "string list \<Rightarrow> unit cmd" where
  "println_all ls w = (w\<lparr>w_out := w_out w @ ls\<rparr>, Done ())"

section \<open>Reading the password\<close>

definition newline :: char where "newline = char_of (10 :: nat)"

text \<open>White space of ASCII text.\<close>

definition go_isSpace :: "char \<Rightarrow> bool" where
  "go_isSpace ch = (let n = (of_char ch :: nat) in n = 32 \<or> 9 \<le> n \<and> n \<le> 13)"

definition blank :: "char \<Rightarrow> bool" where
  "blank ch \<longleftrightarrow> go_isSpace ch \<and> ch \<noteq> newline"

text \<open>
  \<open>fmt.Scanln(&password)\<close>, its error ignored: the word read and what is left of the input. A
  newline or the end of the input in front of a word is an error and leaves the string empty;
  after the word, a character other than blanks and a newline is consumed and is an error.
\<close>

definition Scanln :: "string \<Rightarrow> string \<times> string" where
  "Scanln s = (case dropWhile blank s of
      [] \<Rightarrow> ([], [])
    | ch # r \<Rightarrow> if ch = newline then ([], r)
        else (takeWhile (\<lambda>x. \<not> go_isSpace x) (ch # r),
              (case dropWhile blank (dropWhile (\<lambda>x. \<not> go_isSpace x) (ch # r)) of
                 [] \<Rightarrow> [] | _ # rest \<Rightarrow> rest)))"

definition readPassword :: "string \<Rightarrow> string cmd" where
  "readPassword prompt = cmd_bind (println prompt) (\<lambda>_ w.
     case Scanln (w_stdin w) of (password, rest) \<Rightarrow> (w\<lparr>w_stdin := rest\<rparr>, Done password))"

text \<open>
  The lines \<open>bufio.Scanner\<close> finds in what is left: a carriage return before the newline is
  dropped, and a last line needs no newline unless it is empty.
\<close>

definition drop_cr :: "string \<Rightarrow> string" where
  "drop_cr l = (if l \<noteq> [] \<and> last l = char_of (13 :: nat) then butlast l else l)"

fun scan_lines :: "string \<Rightarrow> string \<Rightarrow> string list" where
  "scan_lines l [] = (if l = [] then [] else [drop_cr l])"
| "scan_lines l (ch # s) = (if ch = newline then drop_cr l # scan_lines [] s else scan_lines (l @ [ch]) s)"

section \<open>generate and show-id\<close>

text \<open>The store in the home directory: the same lines in all four commands.\<close>

definition open_store :: "crypto_lib \<Rightarrow> string \<Rightarrow> KeyStore cmd" where
  "open_store c prompt = cmd_bind (\<lambda>w. or_fatal (w_home w) w) (\<lambda>homeDir.
     let path = homeDir @ ''/.pqc-client'' in
     cmd_bind (readPassword prompt) (\<lambda>masterPassword.
     cmd_bind (on_fs (NewKeyStore c path (bytes_of_string masterPassword))) or_fatal))"

definition close_store :: "KeyStore \<Rightarrow> unit cmd" where
  "close_store ks = cmd_bind (on_rng (KeyStore_Close ks)) (\<lambda>x.
     cmd_bind (or_fatal x) (\<lambda>_. cmd_return ()))"

definition clear_key :: "bytes \<Rightarrow> unit cmd" where
  "clear_key k = cmd_bind (on_rng (SecureClear k)) (\<lambda>x. cmd_bind (or_fatal x) (\<lambda>_. cmd_return ()))"

definition id_line :: "bytes \<Rightarrow> string" where
  "id_line idHash = ''Your ID Hash: '' @ FormatIDHash idHash"

definition generated_lines :: "bytes \<Rightarrow> string list" where
  "generated_lines idHash = [[], ''Identity generated successfully!'', id_line idHash, [],
     ''Share this ID hash with peers you want to connect with.'',
     ''Use 'pqc-client show-id' to display it again.'']"

definition generateIdentity :: "crypto_lib \<Rightarrow> unit cmd" where
  "generateIdentity c =
     cmd_bind (println ''Generating ML-DSA-65 keypair...'') (\<lambda>_.
     cmd_bind (on_rng (GenerateMLDSAKeypair c)) (\<lambda>x.
     cmd_bind (or_fatal x) (\<lambda>keypair.
     cmd_bind (open_store c ''Enter master password for key storage: '') (\<lambda>store.
     deferring (close_store store) (
       cmd_bind (on_both (SaveDSAKeypair c store ''default'' (dsa_Public keypair) (dsa_Private keypair))) (\<lambda>x.
       cmd_bind (or_fatal x) (\<lambda>_.
       cmd_bind (or_fatal (ComputeIDHash c (dsa_Public keypair))) (\<lambda>idHash.
       cmd_bind (println_all (generated_lines idHash)) (\<lambda>_.
       clear_key (dsa_Private keypair))))))))))"

text \<open>Without a key the commands stop.\<close>

definition require_key :: "KeyStore \<Rightarrow> unit cmd" where
  "require_key store = cmd_bind (from_fs (HasKeypair store ''default'')) (\<lambda>has.
     if \<not> has then cmd_bind (println ''No identity found. Run 'pqc-client generate' first.'') (\<lambda>_. os_Exit 1)
     else cmd_return ())"

definition showIdentity :: "crypto_lib \<Rightarrow> unit cmd" where
  "showIdentity c =
     cmd_bind (open_store c ''Enter master password: '') (\<lambda>store.
     deferring (close_store store) (
       cmd_bind (require_key store) (\<lambda>_.
       cmd_bind (from_fs (LoadDSAKeypair c store ''default'')) (\<lambda>x.
       cmd_bind (or_fatal x) (\<lambda>(publicKey, _).
       cmd_bind (or_fatal (ComputeIDHash c publicKey)) (\<lambda>idHash.
       println (id_line idHash)))))))"

section \<open>connect\<close>

text \<open>
  The key pair of a session. The files are read twice; the second call's error is ignored, so
  a public key that has become unreadable is nil.
\<close>

definition load_identity :: "crypto_lib \<Rightarrow> KeyStore \<Rightarrow> (MLDSAKeyPair \<Rightarrow> 'a cmd) \<Rightarrow> 'a cmd" where
  "load_identity c store k =
     cmd_bind (require_key store) (\<lambda>_.
     cmd_bind (from_fs (LoadDSAKeypair c store ''default'')) (\<lambda>x.
     cmd_bind (or_fatal x) (\<lambda>(_, privateKey).
     deferring (clear_key privateKey) (
       cmd_bind (from_fs (LoadDSAKeypair c store ''default'')) (\<lambda>y.
       k \<lparr>dsa_Public = (case y of Ok (publicKey, _) \<Rightarrow> publicKey | _ \<Rightarrow> []), dsa_Private = privateKey\<rparr>)))))"

definition HasPrefix :: "string \<Rightarrow> string \<Rightarrow> bool" where
  "HasPrefix s prefix \<longleftrightarrow> take (length prefix) s = prefix"

text \<open>A target without a colon gets the default port.\<close>

definition with_port :: "string \<Rightarrow> string" where
  "with_port target = (if CHR '':'' \<notin> set target then target @ '':'' @ go_itoa DefaultPort else target)"

definition client_for :: "crypto_lib \<Rightarrow> MLDSAKeyPair \<Rightarrow> string \<Rightarrow> int \<Rightarrow> PQCClient cmd" where
  "client_for c keypair target now =
     (if HasPrefix target ''ws://'' \<or> HasPrefix target ''wss://''
      then cmd_bind (or_fatal (NewPQCClient c keypair target now)) (\<lambda>client.
           cmd_bind (println (''Connecting to relay '' @ target @ ''...'')) (\<lambda>_. cmd_return client))
      else cmd_bind (or_fatal (NewPQCClientDirect c keypair (with_port target) now)) (\<lambda>client.
           cmd_bind (println (''Connecting directly to '' @ with_port target @ ''...'')) (\<lambda>_. cmd_return client)))"

text \<open>
  The client's \<open>Connect\<close> draws from the same random source; a call that does not return hangs.
  A channel always comes with its connection.
\<close>

definition do_connect ::
  "crypto_lib \<Rightarrow> 'w websocket \<Rightarrow> int \<Rightarrow> session_env \<Rightarrow> (string \<Rightarrow> 'w res) \<Rightarrow> bytes \<Rightarrow> PQCClient \<Rightarrow>
     (SecureChannel \<times> 'w any_conn) cmd" where
  "do_connect c lib now env dial peerHash client w =
     (case Connect c lib now env dial peerHash client (w_rng w) of
        None \<Rightarrow> (w, Hangs)
      | Some (cn, cl, r, x) \<Rightarrow>
          or_fatal (go_bind x (\<lambda>channel. go_bind (deref cn) (\<lambda>t. Ok (channel, t)))) (w\<lparr>w_rng := r\<rparr>))"

text \<open>\<open>chat\<close> is what \<open>interactiveChat\<close> does to the connection; the deferred close follows it.\<close>

definition connectToPeer ::
  "crypto_lib \<Rightarrow> 'w websocket \<Rightarrow> int \<Rightarrow> session_env \<Rightarrow> (string \<Rightarrow> 'w res) \<Rightarrow>
     (SecureChannel \<Rightarrow> 'w any_conn \<Rightarrow> 'w any_conn cmd) \<Rightarrow> string \<Rightarrow> string \<Rightarrow> 'w any_conn cmd" where
  "connectToPeer c lib now env dial chat target peerIDHashStr =
     cmd_bind (open_store c ''Enter master password: '') (\<lambda>store.
     deferring (close_store store) (
       load_identity c store (\<lambda>keypair.
       cmd_bind (or_fatal (ParseIDHash peerIDHashStr)) (\<lambda>peerHash.
       cmd_bind (client_for c keypair target now) (\<lambda>client.
       cmd_bind (do_connect c lib now env dial peerHash client) (\<lambda>(channel, cn).
       cmd_bind (println ''Connected securely!'') (\<lambda>_.
       cmd_bind (chat channel cn) (\<lambda>cn.
       cmd_return (fst (SecureChannel_Close lib cn))))))))))"

section \<open>server\<close>

text \<open>
  The \<open>OnConnect\<close> callback. It has captured the client, with its one reassembly buffer, which
  all connections share. A failed handshake is logged; a channel is closed when its chat ends.
\<close>

definition on_connect ::
  "crypto_lib \<Rightarrow> 'w websocket \<Rightarrow> int \<Rightarrow> ('w \<Rightarrow> session_env) \<Rightarrow> (SecureChannel \<Rightarrow> 'w any_conn \<Rightarrow> 'w any_conn cmd) \<Rightarrow>
     bytes \<Rightarrow> 'w \<Rightarrow> PQCClient \<times> world \<Rightarrow> (PQCClient \<times> world) \<times> 'w any_conn outcome" where
  "on_connect c lib now env chat peerHash ws = (\<lambda>(client, w).
     case Accept c lib now (env ws) ws peerHash client (w_rng w) of
       None \<Rightarrow> ((client, w), Hangs)
     | Some (dc, client, r, Err e) \<Rightarrow> ((client, w\<lparr>w_rng := r\<rparr>), Done (Direct dc))
     | Some (dc, client, r, Panic p) \<Rightarrow> ((client, w\<lparr>w_rng := r\<rparr>), Crash p)
     | Some (dc, client, r, Ok channel) \<Rightarrow>
         (case cmd_bind (println_all [[], ''Peer connected securely!'']) (\<lambda>_. chat channel (Direct dc))
             (w\<lparr>w_rng := r\<rparr>) of
           (w, Done cn) \<Rightarrow> ((client, w), Done (fst (SecureChannel_Close lib cn)))
         | (w, Crash p) \<Rightarrow> ((client, w), Crash p)
         | (w, Exit n) \<Rightarrow> ((client, w), Exit n)
         | (w, Hangs) \<Rightarrow> ((client, w), Hangs)))"

primrec any_ws :: "'w any_conn \<Rightarrow> 'w option" where
  "any_ws (Direct d) = wsConn d"
| "any_ws (Relay w) = conn w"

definition connect_callback ::
  "crypto_lib \<Rightarrow> 'w websocket \<Rightarrow> int \<Rightarrow> ('w \<Rightarrow> session_env) \<Rightarrow> (SecureChannel \<Rightarrow> 'w any_conn \<Rightarrow> 'w any_conn cmd) \<Rightarrow>
     bytes \<Rightarrow> 'w \<Rightarrow> PQCClient \<times> world \<Rightarrow> (PQCClient \<times> world) \<times> 'w option" where
  "connect_callback c lib now env chat peerHash ws vars =
     (case on_connect c lib now env chat peerHash ws vars of
        (vars, Done cn) \<Rightarrow> (vars, any_ws cn) | (vars, _) \<Rightarrow> (vars, None))"

text \<open>The command ends in \<open>select {}\<close>, which never returns, while the accept loop runs.\<close>

definition startServer ::
  "crypto_lib \<Rightarrow> 'w websocket \<Rightarrow> ('l, 'k, 'q, 'w) network \<Rightarrow> int \<Rightarrow> ('w \<Rightarrow> session_env) \<Rightarrow>
     (SecureChannel \<Rightarrow> 'w any_conn \<Rightarrow> 'w any_conn cmd) \<Rightarrow> string \<Rightarrow> int \<Rightarrow> unit cmd" where
  "startServer c lib net now env chat peerIDHashStr port =
     cmd_bind (or_fatal (ParseIDHash peerIDHashStr)) (\<lambda>peerHash.
     cmd_bind (open_store c ''Enter master password: '') (\<lambda>store.
     deferring (close_store store) (
       load_identity c store (\<lambda>keypair.
       cmd_bind (or_fatal (NewPQCClientDirect c keypair [] now)) (\<lambda>client.
       let addr = ''0.0.0.0:'' @ go_itoa port;
           callback = connect_callback c lib now env chat peerHash in
       case Start net addr (NewDirectServer\<lparr>OnConnect := Some callback\<rparr>) of (server, x) \<Rightarrow>
       cmd_bind (or_fatal x) (\<lambda>_.
       cmd_bind (or_fatal (ComputeIDHash c (dsa_Public keypair))) (\<lambda>myIDHash.
       cmd_bind (println_all [''Server listening on '' @ addr, id_line myIDHash, [],
         ''Waiting for incoming connections...'',
         ''Use 'pqc-client connect <server-ip> <peer-id-hash>' from another terminal to connect.'']) (\<lambda>_ w.
       case acceptConnections lib net server (client, w) of (vars, _) \<Rightarrow> (snd vars, Hangs)))))))))"

section \<open>main\<close>

definition help_lines :: "string list" where
  "help_lines =
    [''PQC Client - Post-Quantum Cryptography Secure Communication'',
     [],
     ''Usage:'',
     ''  pqc-client <command> [arguments]'',
     [],
     ''Available Commands:'',
     ''  generate         Generate a new ML-DSA identity keypair'',
     ''  show-id          Display your ID hash for sharing'',
     ''  connect          Connect to a peer (run 'pqc-client connect -h' for details)'',
     ''  server           Start server mode for direct connections (run 'pqc-client server -h' for details)'',
     ''  help, -h, --help Show this help message'',
     [],
     ''Examples:'',
     ''  # Generate identity'',
     ''  pqc-client generate'',
     [],
     ''  # Show ID hash'',
     ''  pqc-client show-id'',
     [],
     ''  # Connect via relay'',
     ''  pqc-client connect ws://localhost:8080 abc123...'',
     [],
     ''  # Start server mode (listening on 0.0.0.0:18080)'',
     ''  pqc-client server d4e5f6a1b2c3...'',
     [],
     ''  # Start server mode on custom port (using short flag)'',
     ''  pqc-client server d4e5f6a1b2c3... -p 19090'',
     [],
     ''  # Start server mode on custom port (using long flag)'',
     ''  pqc-client server d4e5f6a1b2c3... --port 19090'',
     [],
     ''  # Connect directly to peer'',
     ''  pqc-client connect 192.168.1.100:18080 abc123...'',
     ''  pqc-client connect 192.168.1.100 abc123...'',
     [],
     ''Use 'pqc-client <command> -h' for more information about a specific command.'']"

definition usage_lines :: "string list" where
  "usage_lines =
    [''PQC Client - Post-Quantum Cryptography Secure Communication'',
     [],
     ''Usage:'',
     ''  pqc-client <command> [arguments]'',
     [],
     ''Available Commands:'',
     ''  generate         Generate a new ML-DSA identity keypair'',
     ''  show-id          Display your ID hash for sharing'',
     ''  connect          Connect to a peer'',
     ''  server           Start server mode for direct connections'',
     ''  help, -h, --help Show this help message'',
     [],
     ''Use 'pqc-client help' or 'pqc-client <command> -h' for more information.'']"

definition connect_usage :: "string list" where
  "connect_usage =
    [''Connect to a peer'',
     [],
     ''Usage:'',
     ''  pqc-client connect <target> <peer-id-hash>'',
     [],
     ''Arguments:'',
     ''  target         Connection target:'',
     ''                   - ws://relay-url (relay mode)'',
     ''                   - ip:port (direct mode, default port: 18080)'',
     ''  peer-id-hash   The peer's ID hash to connect to'',
     [],
     ''Examples:'',
     ''  pqc-client connect ws://relay.example.com:8080 a1b2c3...'',
     ''  pqc-client connect 192.168.1.100:18080 a1b2c3...'',
     ''  pqc-client connect 192.168.1.100 a1b2c3...'']"

definition server_usage_head :: "string list" where
  "server_usage_head =
    [''Start server mode for direct connections'',
     [],
     ''Usage:'',
     ''  pqc-client server <peer-id-hash> [options]'',
     [],
     ''Arguments:'',
     ''  peer-id-hash   The ID hash of the peer you expect to connect'',
     [],
     ''Options:'']"

definition server_usage_tail :: "string list" where
  "server_usage_tail =
    [[],
     ''Examples:'',
     ''  pqc-client server d4e5f6a1b2c3...'',
     ''  pqc-client server d4e5f6a1b2c3... -p 19090'',
     ''  pqc-client server d4e5f6a1b2c3... --port 19090'']"

text \<open>
  \<open>pflag\<close> with \<open>ExitOnError\<close>: it either ends the process with a status or gives the value of
  the help flag, the port and the remaining arguments.
\<close>

type_synonym flag_parser = "string list \<Rightarrow> int + (bool \<times> int \<times> string list)"

text \<open>\<open>run\<close> and \<open>start\<close> are the two commands that need the network, with its parameters applied.\<close>

definition runConnect :: "flag_parser \<Rightarrow> (string \<Rightarrow> string \<Rightarrow> unit cmd) \<Rightarrow> string list \<Rightarrow> unit cmd" where
  "runConnect parse run argv = (case parse argv of
      Inl status \<Rightarrow> os_Exit status
    | Inr (showHelp, _, args) \<Rightarrow>
        if showHelp then cmd_bind (println_all connect_usage) (\<lambda>_. os_Exit 0)
        else if length args < 2 then cmd_bind (println_all connect_usage) (\<lambda>_. os_Exit 1)
        else run (args ! 0) (args ! 1))"

definition runServer ::
  "flag_parser \<Rightarrow> string list \<Rightarrow> (string \<Rightarrow> int \<Rightarrow> unit cmd) \<Rightarrow> string list \<Rightarrow> unit cmd" where
  "runServer parse defaults start argv =
    (let usage = server_usage_head @ defaults @ server_usage_tail in
     case parse argv of
      Inl status \<Rightarrow> os_Exit status
    | Inr (showHelp, port, args) \<Rightarrow>
        if showHelp then cmd_bind (println_all usage) (\<lambda>_. os_Exit 0)
        else if length args < 1 then cmd_bind (println_all usage) (\<lambda>_. os_Exit 1)
        else start (args ! 0) port)"

text \<open>\<open>main\<close>, on \<open>os.Args\<close>.\<close>

definition run_main ::
  "crypto_lib \<Rightarrow> flag_parser \<Rightarrow> flag_parser \<Rightarrow> string list \<Rightarrow> (string \<Rightarrow> string \<Rightarrow> unit cmd) \<Rightarrow>
     (string \<Rightarrow> int \<Rightarrow> unit cmd) \<Rightarrow> string list \<Rightarrow> unit cmd" where
  "run_main c parse_connect parse_server defaults run start args =
    (if length args < 2 then cmd_bind (println_all usage_lines) (\<lambda>_. os_Exit 1)
     else let command = args ! 1 in
       if command = ''generate'' then generateIdentity c
       else if command = ''show-id'' then showIdentity c
       else if command = ''connect'' then runConnect parse_connect run (drop 2 args)
       else if command = ''server'' then runServer parse_server defaults start (drop 2 args)
       else if command \<in> {''help'', ''-h'', ''--help''} then println_all help_lines
       else cmd_bind (println_all [''Unknown command: '' @ command, []]) (\<lambda>_.
            cmd_bind (println_all usage_lines) (\<lambda>_. os_Exit 1)))"

section \<open>Running a command\<close>

named_theorems cmd_iff \<open>when a command returns\<close>

lemma cmd_bind_Done [simp]: "m w = (w', Done a) \<Longrightarrow> cmd_bind m f w = f a w'"
  by (simp add: cmd_bind_def)

lemma cmd_bind_Done_iff [cmd_iff]:
  "cmd_bind m f w = (w', Done b) \<longleftrightarrow> (\<exists>w1 a. m w = (w1, Done a) \<and> f a w1 = (w', Done b))"
  by (auto simp: cmd_bind_def split: prod.splits outcome.splits)

lemma deferring_Done_iff [cmd_iff]:
  "deferring d body w = (w', Done b) \<longleftrightarrow> (\<exists>w1. body w = (w1, Done b) \<and> d w1 = (w', Done ()))"
  by (auto simp: deferring_def cmd_bind_def cmd_return_def split: prod.splits outcome.splits)

lemma or_fatal_Done_iff [cmd_iff]: "or_fatal x w = (w', Done a) \<longleftrightarrow> w' = w \<and> x = Ok a"
  by (auto simp: or_fatal_def split: res.splits)

lemma on_Done_iff [cmd_iff]:
  "on_rng m w = (w', Done x) \<longleftrightarrow> (\<exists>r. m (w_rng w) = (r, x) \<and> w' = w\<lparr>w_rng := r\<rparr>)"
  "on_fs m' w = (w', Done y) \<longleftrightarrow> (\<exists>f. m' (w_fs w) = (f, y) \<and> w' = w\<lparr>w_fs := f\<rparr>)"
  "on_both m'' w = (w', Done z) \<longleftrightarrow>
     (\<exists>f r. m'' (w_fs w, w_rng w) = ((f, r), z) \<and> w' = w\<lparr>w_fs := f, w_rng := r\<rparr>)"
  by (auto simp: on_rng_def on_fs_def on_both_def split: prod.splits)

lemma or_fatal_Ok [simp]: "or_fatal (Ok a) w = (w, Done a)"
  by (simp add: or_fatal_def)

lemma cmd_return_run [simp]: "cmd_return a w = (w, Done a)"
  by (simp add: cmd_return_def)

lemma print_run [simp]:
  "println s w = (w\<lparr>w_out := w_out w @ [s]\<rparr>, Done ())"
  "println_all ls w = (w\<lparr>w_out := w_out w @ ls\<rparr>, Done ())"
  "from_fs g w = (w, Done (g (w_fs w)))"
  by (simp_all add: println_def println_all_def from_fs_def)

lemma readPassword_run:
  "readPassword prompt w = (w\<lparr>w_out := w_out w @ [prompt], w_stdin := snd (Scanln (w_stdin w))\<rparr>,
     Done (fst (Scanln (w_stdin w))))"
  by (simp add: readPassword_def split: prod.splits)

lemma open_store_run:
  assumes "w_home w = Ok home"
    and "NewKeyStore c (home @ ''/.pqc-client'') (bytes_of_string (fst (Scanln (w_stdin w)))) (w_fs w) = (f, Ok ks)"
  shows "open_store c prompt w = (w\<lparr>w_fs := f, w_out := w_out w @ [prompt],
    w_stdin := snd (Scanln (w_stdin w))\<rparr>, Done ks)"
  using assms by (simp add: open_store_def cmd_bind_def readPassword_run on_fs_def Let_def)

lemma open_store_Done:
  assumes "open_store c prompt w = (w', Done ks)" "w_home w = Ok home"
  obtains f where
    "NewKeyStore c (home @ ''/.pqc-client'') (bytes_of_string (fst (Scanln (w_stdin w)))) (w_fs w) = (f, Ok ks)"
    "w' = w\<lparr>w_fs := f, w_out := w_out w @ [prompt], w_stdin := snd (Scanln (w_stdin w))\<rparr>"
  using assms
  by (auto simp: open_store_def cmd_iff readPassword_run Let_def)

lemma close_store_run:
  assumes "length ds = length (encKey ks)" "w_rng w = map Some ds @ r"
  shows "close_store ks w = (w\<lparr>w_rng := r\<rparr>, Done ())"
  using SecureClear_random [OF assms(1), of r] assms(2)
  by (simp add: close_store_def KeyStore_Close_def on_rng_def cmd_bind_def)

lemma close_store_Done: "close_store ks w = (w', Done ()) \<Longrightarrow> \<exists>r. w' = w\<lparr>w_rng := r\<rparr>"
  by (auto simp: close_store_def cmd_iff)

lemma clear_key_Done: "clear_key k w = (w', Done ()) \<Longrightarrow> \<exists>r. w' = w\<lparr>w_rng := r\<rparr>"
  by (auto simp: clear_key_def cmd_iff)

text \<open>What a successful \<open>generate\<close> has done.\<close>

lemma generateIdentity_Done:
  assumes "generateIdentity c w = (w1, Done ())" "w_home w = Ok home"
  obtains kp :: MLDSAKeyPair and r1 f1 ks f2 r2 h pre post where
    "NewKeyStore c (home @ ''/.pqc-client'') (bytes_of_string (fst (Scanln (w_stdin w)))) (w_fs w) = (f1, Ok ks)"
    "SaveDSAKeypair c ks ''default'' (dsa_Public kp) (dsa_Private kp) (f1, r1) = ((f2, r2), Ok ())"
    "ComputeIDHash c (dsa_Public kp) = Ok h" "w_fs w1 = f2"
    "w_out w1 = w_out w @ pre @ [id_line h] @ post"
proof -
  let ?wk = "\<lambda>r. w\<lparr>w_out := w_out w @ [''Generating ML-DSA-65 keypair...''], w_rng := r\<rparr>"
  obtain kp :: MLDSAKeyPair and r ks w2 f2 r2 h w4 where
    opened: "open_store c ''Enter master password for key storage: '' (?wk r) = (w2, Done ks)"
    and save: "SaveDSAKeypair c ks ''default'' (dsa_Public kp) (dsa_Private kp) (w_fs w2, w_rng w2) = ((f2, r2), Ok ())"
    and h: "ComputeIDHash c (dsa_Public kp) = Ok h"
    and clear: "clear_key (dsa_Private kp) (w2\<lparr>w_fs := f2, w_rng := r2, w_out := w_out w2 @ generated_lines h\<rparr>) = (w4, Done ())"
    and close: "close_store ks w4 = (w1, Done ())"
    using assms(1) by (auto simp: generateIdentity_def cmd_iff)
  have "w_home (?wk r) = Ok home" using assms(2) by simp
  from opened this obtain f1 where
    new: "NewKeyStore c (home @ ''/.pqc-client'') (bytes_of_string (fst (Scanln (w_stdin (?wk r))))) (w_fs (?wk r)) = (f1, Ok ks)"
    and w2: "w2 = (?wk r)\<lparr>w_fs := f1, w_out := w_out (?wk r) @ [''Enter master password for key storage: ''],
      w_stdin := snd (Scanln (w_stdin (?wk r)))\<rparr>"
    by (rule open_store_Done)
  from clear_key_Done [OF clear] close_store_Done [OF close] save w2 show thesis
    using new h
    by (intro that [where pre = "[''Generating ML-DSA-65 keypair...'', ''Enter master password for key storage: '',
          [], ''Identity generated successfully!'']" and post = "drop 3 (generated_lines h)"])
       (auto simp: generated_lines_def)
qed

text \<open>What \<open>show-id\<close> does with a key it can open.\<close>

lemma showIdentity_run:
  assumes home: "w_home w = Ok home" and rng: "w_rng w = map Some ds @ r" "length ds = 32"
    and new: "NewKeyStore c (home @ ''/.pqc-client'') (bytes_of_string (fst (Scanln (w_stdin w)))) (w_fs w) = (w_fs w, Ok ks)"
    and ks: "length (encKey ks) = 32" "HasKeypair ks ''default'' (w_fs w)"
      "LoadDSAKeypair c ks ''default'' (w_fs w) = Ok (pub, priv)"
    and h: "ComputeIDHash c pub = Ok h"
  shows "showIdentity c w = (w\<lparr>w_rng := r, w_stdin := snd (Scanln (w_stdin w)),
    w_out := w_out w @ [''Enter master password: '', id_line h]\<rparr>, Done ())"
proof -
  let ?w1 = "w\<lparr>w_out := w_out w @ [''Enter master password: ''], w_stdin := snd (Scanln (w_stdin w))\<rparr>"
  have "open_store c ''Enter master password: '' w = (?w1, Done ks)"
    using open_store_run [OF home new] by simp
  moreover have "require_key ks ?w1 = (?w1, Done ())"
    using ks(2) by (simp add: require_key_def cmd_bind_def)
  moreover have "close_store ks (?w1\<lparr>w_out := w_out ?w1 @ [id_line h]\<rparr>) =
      (?w1\<lparr>w_out := w_out ?w1 @ [id_line h], w_rng := r\<rparr>, Done ())"
    by (rule close_store_run [of ds, OF _ _]) (simp_all add: rng ks(1))
  ultimately show ?thesis
    using ks(3) h by (simp add: showIdentity_def cmd_bind_def deferring_def)
qed

section \<open>A run of generate\<close>

lemma clear_key_run:
  assumes "length ds = length k" "w_rng w = map Some ds @ r"
  shows "clear_key k w = (w\<lparr>w_rng := r\<rparr>, Done ())"
  using SecureClear_random [OF assms(1), of r] assms(2) by (simp add: clear_key_def on_rng_def cmd_bind_def)

lemma generateIdentity_run:
  assumes home: "w_home w = Ok home" and kp: "GenerateMLDSAKeypair c (w_rng w) = (r1, Ok kp)"
    and new: "NewKeyStore c (home @ ''/.pqc-client'') (bytes_of_string (fst (Scanln (w_stdin w)))) (w_fs w) = (f1, Ok ks)"
    and save: "SaveDSAKeypair c ks ''default'' (dsa_Public kp) (dsa_Private kp) (f1, r1) = ((f2, r2), Ok ())"
    and r2: "r2 = map Some ds @ map Some es @ r" "length ds = length (dsa_Private kp)" "length es = length (encKey ks)"
    and h: "ComputeIDHash c (dsa_Public kp) = Ok h"
  shows "\<exists>w1. generateIdentity c w = (w1, Done ()) \<and> w_home w1 = w_home w"
proof -
  let ?w1 = "w\<lparr>w_out := w_out w @ [''Generating ML-DSA-65 keypair...''], w_rng := r1\<rparr>"
  let ?w2 = "?w1\<lparr>w_fs := f1, w_out := w_out ?w1 @ [''Enter master password for key storage: ''],
    w_stdin := snd (Scanln (w_stdin ?w1))\<rparr>"
  let ?w3 = "?w2\<lparr>w_fs := f2, w_rng := r2, w_out := w_out ?w2 @ generated_lines h\<rparr>"
  have "open_store c ''Enter master password for key storage: '' ?w1 = (?w2, Done ks)"
    using open_store_run [of ?w1 home c f1 ks] home new by simp
  moreover have clear: "clear_key (dsa_Private kp) ?w3 = (?w3\<lparr>w_rng := map Some es @ r\<rparr>, Done ())"
    by (rule clear_key_run [OF r2(2)]) (simp add: r2(1))
  moreover have "close_store ks (?w3\<lparr>w_rng := map Some es @ r\<rparr>) =
      (?w3\<lparr>w_rng := map Some es @ r, w_rng := r\<rparr>, Done ())"
    by (rule close_store_run [OF r2(3)]) simp
  ultimately have "generateIdentity c w = (?w3\<lparr>w_rng := r\<rparr>, Done ())"
    using kp save h by (simp add: generateIdentity_def cmd_bind_def deferring_def on_rng_def on_both_def)
  then show ?thesis by simp
qed

lemma demo_generate:
  "\<exists>w1. generateIdentity demo_lib \<lparr>w_fs = demo_fs, w_rng = map Some (replicate 98 [3]),
     w_stdin = ''pw'' @ [newline], w_out = [], w_home = Ok ''/u''\<rparr> = (w1, Done ()) \<and> w_home w1 = Ok ''/u''"
proof -
  let ?w = "\<lparr>w_fs = demo_fs, w_rng = map Some (replicate 98 [3]), w_stdin = ''pw'' @ [newline],
    w_out = [], w_home = Ok ''/u''\<rparr>"
  let ?kp = "\<lparr>dsa_Public = fit 32 [3], dsa_Private = fit 32 [3] @ fit 32 [3]\<rparr> :: MLDSAKeyPair"
  let ?path = "''/u'' @ ''/.pqc-client''" and ?pw = "bytes_of_string (fst (Scanln (w_stdin ?w)))"
  have rng: "map Some (replicate 98 [3]) = Some [3] # Some [3] # map Some (replicate 64 [3]) @ map Some (replicate 32 [3]) @ []"
    by (simp add: replicate_add [symmetric] numeral_eq_Suc)
  have kp: "GenerateMLDSAKeypair demo_lib (w_rng ?w) =
      (Some [3] # map Some (replicate 64 [3]) @ map Some (replicate 32 [3]) @ [], Ok ?kp)"
    unfolding world.select_convs rng by (simp add: mldsa_defs st_bind_def demo_lib_def)
  obtain f1 ks where new: "NewKeyStore demo_lib ?path ?pw demo_fs = (f1, Ok ks)"
    by (simp add: NewKeyStore_def HKDF_def hkdf_Key_def st_bind_def os_MkdirAll_def os_check_def
        demo_fs_def Let_def)
  have ready: "store_ready ks f1" "length (encKey ks) = 32"
    by (rule NewKeyStore_ready [OF demo_laws(4) _ _ _ new]; simp add: demo_fs_def entry_def Let_def)+
  have "plain ''default''" by (simp add: plain_def)
  moreover have "AESGCMEncrypt demo_lib (encKey ks) (dsa_Private ?kp) (Some [3] # r) =
      (r, Ok (fit 12 [3] @ lib_seal demo_lib (encKey ks) (fit 12 [3]) (dsa_Private ?kp)))" for r
    by (rule AESGCMEncrypt_Some) (simp_all add: ready(2) gcm_max_def)
  ultimately obtain f2 where save: "SaveDSAKeypair demo_lib ks ''default'' (dsa_Public ?kp) (dsa_Private ?kp)
      (f1, Some [3] # map Some (replicate 64 [3]) @ map Some (replicate 32 [3]) @ []) =
      ((f2, map Some (replicate 64 [3]) @ map Some (replicate 32 [3]) @ []), Ok ())"
    by (simp add: Save_eq [OF ready(1)] Let_def del: fit_id)
  have hash: "ComputeIDHash demo_lib (dsa_Public ?kp) = Ok (lib_sha256 demo_lib (dsa_Public ?kp))"
    by (rule ComputeIDHash_eq [OF demo_laws(4)])
  have "\<exists>w1. generateIdentity demo_lib ?w = (w1, Done ()) \<and> w_home w1 = w_home ?w"
    by (rule generateIdentity_run [OF _ kp _ save refl _ _ hash, where home = "''/u''"])
       (use new ready(2) in simp_all)
  then show ?thesis by simp
qed

section \<open>Properties\<close>

text \<open>
  C12. An identity survives from \<open>generate\<close> to \<open>show-id\<close>. After \<open>generate\<close> has returned, \<open>show-id\<close>
  in a later run, with a password whose first word is the same, prints exactly the ID hash
  that \<open>generate\<close> printed, returns, and changes no file.
\<close>

theorem show_id_after_generate:
  assumes laws: "aead_laws c" "hash_laws c" and home: "w_home w = Ok home"
    and files: "fault (w_fs w) = (\<lambda>opn p. None)"
      "\<forall>keyID. entry (home @ ''/.pqc-client'') (keyID @ ''.pub'') \<notin> set (dirs (w_fs w)) \<and>
        entry (home @ ''/.pqc-client'') (keyID @ ''.priv'') \<notin> set (dirs (w_fs w))"
    and gen: "generateIdentity c w = (w1, Done ())"
    and later: "w_fs w2 = w_fs w1" "w_home w2 = Ok home" "w_rng w2 = map Some ds @ r" "length ds = 32"
      "fst (Scanln (w_stdin w2)) = fst (Scanln (w_stdin w))"
  shows "\<exists>h pre post. w_out w1 = w_out w @ pre @ [id_line h] @ post
    \<and> showIdentity c w2 = (w2\<lparr>w_rng := r, w_stdin := snd (Scanln (w_stdin w2)),
        w_out := w_out w2 @ [''Enter master password: '', id_line h]\<rparr>, Done ())"
proof -
  obtain kp :: MLDSAKeyPair and r1 f1 ks f2 r2 h pre post where
    new: "NewKeyStore c (home @ ''/.pqc-client'') (bytes_of_string (fst (Scanln (w_stdin w)))) (w_fs w) = (f1, Ok ks)"
    and save: "SaveDSAKeypair c ks ''default'' (dsa_Public kp) (dsa_Private kp) (f1, r1) = ((f2, r2), Ok ())"
    and h: "ComputeIDHash c (dsa_Public kp) = Ok h" and f2: "w_fs w1 = f2"
    and out: "w_out w1 = w_out w @ pre @ [id_line h] @ post"
    by (rule generateIdentity_Done [OF gen home])
  have "plain ''default''" by (simp add: plain_def)
  note again = NewKeyStore_after_save [OF laws files new this save]
  have "showIdentity c w2 = (w2\<lparr>w_rng := r, w_stdin := snd (Scanln (w_stdin w2)),
        w_out := w_out w2 @ [''Enter master password: '', id_line h]\<rparr>, Done ())"
    by (rule showIdentity_run [OF later(2-4) _ again(4) _ _ h]) (simp_all add: later f2 again(1-3))
  with out show ?thesis by blast
qed

theorem show_id_after_generate_witness:
  "\<exists>w1 h pre post w2'. generateIdentity demo_lib \<lparr>w_fs = demo_fs, w_rng = map Some (replicate 98 [3]),
       w_stdin = ''pw'' @ [newline], w_out = [], w_home = Ok ''/u''\<rparr> = (w1, Done ())
     \<and> w_out w1 = pre @ [id_line h] @ post
     \<and> showIdentity demo_lib (w1\<lparr>w_rng := map Some (replicate 32 []), w_stdin := ''pw x'', w_out := []\<rparr>) = (w2', Done ())
     \<and> w_out w2' = [''Enter master password: '', id_line h]"
proof -
  let ?w = "\<lparr>w_fs = demo_fs, w_rng = map Some (replicate 98 [3]), w_stdin = ''pw'' @ [newline], w_out = [], w_home = Ok ''/u''\<rparr>"
  have home: "w_home ?w = Ok ''/u''" by simp
  have files: "fault (w_fs ?w) = (\<lambda>opn p. None)"
    "\<forall>keyID. entry (''/u'' @ ''/.pqc-client'') (keyID @ ''.pub'') \<notin> set (dirs (w_fs ?w)) \<and>
      entry (''/u'' @ ''/.pqc-client'') (keyID @ ''.priv'') \<notin> set (dirs (w_fs ?w))"
    by (simp_all add: demo_fs_def entry_def Let_def)
  have pw: "Scanln (''pw'' @ [newline]) = (''pw'', [])" "fst (Scanln ''pw x'') = ''pw''"
    by (simp_all add: Scanln_def blank_def go_isSpace_def newline_def char_of_def bit_0)
  obtain w1 where gen: "generateIdentity demo_lib ?w = (w1, Done ())" "w_home w1 = Ok ''/u''"
    using demo_generate by blast
  let ?w2 = "w1\<lparr>w_rng := map Some (replicate 32 []), w_stdin := ''pw x'', w_out := []\<rparr>"
  have later: "w_fs ?w2 = w_fs w1" "w_home ?w2 = Ok ''/u''" "w_rng ?w2 = map Some (replicate 32 []) @ []"
    "length (replicate 32 ([] :: bytes)) = 32" "fst (Scanln (w_stdin ?w2)) = fst (Scanln (w_stdin ?w))"
    using gen(2) pw by simp_all
  obtain h pre post where "w_out w1 = pre @ [id_line h] @ post"
    "showIdentity demo_lib ?w2 = (?w2\<lparr>w_rng := [], w_stdin := snd (Scanln (w_stdin ?w2)),
        w_out := w_out ?w2 @ [''Enter master password: '', id_line h]\<rparr>, Done ())"
    using show_id_after_generate [OF demo_laws(2,4) home files gen(1) later] by auto
  with gen(1) show ?thesis by fastforce
qed

text \<open>
  C27. A pass phrase is cut at its first blank, and the tail is left on standard input: the
  password is the first word alone, one more character is lost, and the rest of the phrase is
  the first line that the scanner of \<open>interactiveChat\<close> finds, which sends it to the peer.
\<close>

theorem passphrase_cut_at_blank:
  assumes "word \<noteq> []" "list_all (\<lambda>x. \<not> go_isSpace x) word" "\<not> go_isSpace ch" "newline \<notin> set tail"
    and "w_stdin w = word @ CHR '' '' # ch # tail @ newline # rest"
  shows "readPassword prompt w = (w\<lparr>w_out := w_out w @ [prompt], w_stdin := tail @ newline # rest\<rparr>, Done word)
    \<and> scan_lines [] (tail @ newline # rest) = drop_cr tail # scan_lines [] rest"
proof -
  have "dropWhile blank (word @ s) = word @ s" for s
    using assms(1,2) by (cases word) (auto simp: blank_def)
  moreover have "go_isSpace (CHR '' '')" "blank (CHR '' '')" "\<not> blank ch"
    using assms(3) by (simp_all add: go_isSpace_def blank_def newline_def char_of_def bit_0)
  moreover have "takeWhile (\<lambda>x. \<not> go_isSpace x) (word @ CHR '' '' # s) = word"
    "dropWhile (\<lambda>x. \<not> go_isSpace x) (word @ CHR '' '' # s) = CHR '' '' # s" for s
    using assms(2) \<open>go_isSpace (CHR '' '')\<close> by (simp_all add: takeWhile_append2 dropWhile_append2 list_all_iff)
  moreover have "hd word \<noteq> newline"
    using assms(1,2) by (cases word) (auto simp: newline_def go_isSpace_def)
  ultimately have "Scanln (w_stdin w) = (word, tail @ newline # rest)"
    using assms(1) unfolding assms(5) by (cases word) (simp_all add: Scanln_def)
  moreover have "scan_lines l (tail @ newline # rest) = drop_cr (l @ tail) # scan_lines [] rest" for l
    using assms(4) by (induction tail arbitrary: l) auto
  ultimately show ?thesis by (simp add: readPassword_run)
qed

theorem passphrase_cut_at_blank_witness:
  "\<exists>w'. readPassword [] \<lparr>w_fs = demo_fs, w_rng = [], w_stdin = ''open sesame'' @ [newline], w_out = [],
     w_home = Ok ''/u''\<rparr> = (w', Done ''open'') \<and> scan_lines [] (w_stdin w') = [''esame'']"
proof -
  let ?w = "\<lparr>w_fs = demo_fs, w_rng = [], w_stdin = ''open sesame'' @ [newline], w_out = [], w_home = Ok ''/u''\<rparr>"
  have "readPassword [] ?w = (?w\<lparr>w_out := w_out ?w @ [[]], w_stdin := ''esame'' @ newline # []\<rparr>, Done ''open'')
      \<and> scan_lines [] (''esame'' @ newline # []) = drop_cr ''esame'' # scan_lines [] []"
    by (rule passphrase_cut_at_blank [where ch = "CHR ''s''"])
       (simp_all add: go_isSpace_def newline_def char_of_def bit_0)
  then show ?thesis by (auto simp: drop_cr_def char_of_def bit_0)
qed

text \<open>
  C26. Which address \<open>connect\<close> dials. A target with the scheme \<open>ws\<close> or \<open>wss\<close> is dialled as it is,
  over a relay connection; any other target is dialled directly over \<open>ws\<close>, with the default
  port when it has no colon, the empty target included. The client always has an address.
\<close>

theorem connect_dials:
  assumes "hash_laws c"
  shows "\<exists>cl line. client_for c kp target now w = (w\<lparr>w_out := w_out w @ [line]\<rparr>, Done cl)
    \<and> identityKeypair cl = kp
    \<and> dial_conn dial cl =
       (if HasPrefix target ''ws://'' \<or> HasPrefix target ''wss://''
        then (case dial target of Ok x \<Rightarrow> Ok (Relay (NewWebSocketConn x))
           | Err e \<Rightarrow> Err (ErrWrap ''dial relay'' e) | Panic p \<Rightarrow> Panic p)
        else (case dial (''ws://'' @ (if CHR '':'' \<in> set target then target else target @ '':18080'')) of
            Ok x \<Rightarrow> Ok (Direct (NewDirectConn x))
          | Err e \<Rightarrow> Err (ErrWrap ''dial direct'' e) | Panic p \<Rightarrow> Panic p))"
proof -
  have port: "go_itoa DefaultPort = ''18080''"
    by (simp add: go_itoa_def DefaultPort_def nat_digits.simps char_of_def bit_0)
  have "target \<noteq> []" if "HasPrefix target ''ws://'' \<or> HasPrefix target ''wss://''"
    using that by (auto simp: HasPrefix_def)
  moreover have "with_port target \<noteq> []"
    by (auto simp: with_port_def)
  ultimately show ?thesis
    by (auto simp: client_for_def NewPQCClient_def NewPQCClientDirect_def ComputeIDHash_eq [OF assms]
        cmd_bind_def dial_conn_def with_port_def port)
qed

theorem connect_dials_witness:
  "\<exists>cl w'. client_for demo_lib \<lparr>dsa_Public = [1], dsa_Private = []\<rparr> ''10.0.0.7'' 0
       \<lparr>w_fs = demo_fs, w_rng = [], w_stdin = [], w_out = [], w_home = Ok ''/u''\<rparr> = (w', Done cl)
     \<and> dial_conn (\<lambda>url. if url = ''ws://10.0.0.7:18080'' then Ok () else Err (ErrLib [])) cl
       = Ok (Direct (NewDirectConn ()))"
proof -
  let ?w = "\<lparr>w_fs = demo_fs, w_rng = [], w_stdin = [], w_out = [], w_home = Ok ''/u''\<rparr>"
  have "\<not> HasPrefix ''10.0.0.7'' ''ws://''" "\<not> HasPrefix ''10.0.0.7'' ''wss://''"
    by (simp_all add: HasPrefix_def)
  with connect_dials [OF demo_laws(4), of "\<lparr>dsa_Public = [1], dsa_Private = []\<rparr>" "''10.0.0.7''" 0 ?w
      "\<lambda>url. if url = ''ws://10.0.0.7:18080'' then Ok () else Err (ErrLib [])"]
  show ?thesis by fastforce
qed

text \<open>
  C13. The connections of a server share its reassembly buffer. Take the packets of a handshake
  request that needs several, in any order, cut the sequence in two, and send the first part
  over one connection and the rest over another: the server sends nothing over the first and
  its agree message over the second, although no complete request has arrived there.
\<close>

theorem request_split_over_connections:
  assumes kem: "kem_laws c" and ws: "ws_laws lib v" "ws_live v x1" "ws_live v x2"
    and start: "net_Listen net addr = Ok l" "http_Serve net l = [q1, q2]"
      "http_Upgrade net (\<lambda>_. True) q1 = Ok x1" "http_Upgrade net (\<lambda>_. True) q2 = Ok x2"
    and m: "HandshakeRequest_Serialize (request_of c a) = Ok m1"
      "HandshakeAgree_Serialize (agree_of c a b b') = Ok m2"
    and size: "0 < m" "m < length m1" "fragment_count m1 m < 2 ^ 16"
    and split: "mset (ds1 @ ds2) = mset (message_packets MsgHandshakeRequest mid m1 m)" "ds2 \<noteq> []"
      "ws_waiting v x1 = map (Pair BinaryMessage) ds1" "ws_waiting v x2 = map (Pair BinaryMessage) ds2"
    and cl: "fragments (fragmentBuffer cl) = []" and rng: "w_rng w = Some b # Some b' # r"
  shows "\<exists>cl' cn1 cn2. acceptConnections lib net (fst (Start net addr
        (NewDirectServer\<lparr>OnConnect := Some (connect_callback c lib now env chat peerHash)\<rparr>))) (cl, w)
      = ((cl', w\<lparr>w_rng := r\<rparr>), [cn1, cn2])
    \<and> (case cn1 of None \<Rightarrow> [] | Some x \<Rightarrow> ws_sent v x) = ws_sent v x1
    \<and> (case cn2 of None \<Rightarrow> [] | Some x \<Rightarrow> ws_sent v x) =
        ws_sent v x2 @ message_packets MsgHandshakeAgree (msg_id (env x2) 0) m2 1400"
proof -
  have "\<not> length m1 \<le> m" using size(2) by simp
  then obtain tot ix iy j where ds: "ds1 = map (frag_packet MsgHandshakeRequest tot mid m1 m) ix"
    "ds2 = map (frag_packet MsgHandshakeRequest tot mid m1 m) (iy @ [j])" and ix: "set ix \<subset> {j. j < tot}"
    and rest: "j \<notin> set ix \<union> set iy" "insert j (set ix \<union> set iy) = {j. j < tot}"
    and tot: "tot \<noteq> 1" "length m1 \<le> unat tot * m"
    by (rule message_packets_cut [OF split(1) size(1,3) _ split(2)])
  obtain dc1 fb e1 where one: "Accept c lib now (env x1) x1 peerHash cl (w_rng w) =
      Some (dc1, cl\<lparr>fragmentBuffer := fb\<rparr>, w_rng w, Err e1)"
    and dc1: "direct_out v dc1 = ws_sent v x1" and fb: "collecting [] mid m1 m (set ix) fb"
    by (rule Accept_collects [OF ws(1,2) split(3) [unfolded ds(1)] cl tot(1) ix])
  have "collecting [] mid m1 m (set ix) (fragmentBuffer (cl\<lparr>fragmentBuffer := fb\<rparr>))" using fb by simp
  then obtain dc2 cl2 e2 where two: "Accept c lib now (env x2) x2 peerHash (cl\<lparr>fragmentBuffer := fb\<rparr>) (Some b # Some b' # r) =
      Some (dc2, cl2, r, Err e2)"
    and dc2: "direct_out v dc2 = ws_sent v x2 @ message_packets MsgHandshakeAgree (msg_id (env x2) 0) m2 1400"
    by (rule Accept_completes [OF kem ws(1,3) split(4) [unfolded ds(2)] m _ tot(1) rest tot(2)])
  have "acceptConnections lib net (fst (Start net addr
        (NewDirectServer\<lparr>OnConnect := Some (connect_callback c lib now env chat peerHash)\<rparr>))) (cl, w)
      = ((cl2, w\<lparr>w_rng := r\<rparr>), [wsConn dc1, wsConn dc2])"
    using one two
    by (simp add: acceptConnections_def Start_def start handleWebSocket_def NewDirectServer_def
        connect_callback_def on_connect_def rng)
  then show ?thesis using dc1 dc2 by (auto simp: direct_out_def)
qed

theorem request_split_over_connections_witness:
  "\<forall>env chat. \<exists>packets agree. \<exists>net :: (unit, unit, bool, pipe) network. \<exists>cl' w' cn1 cn2. length packets = 2 \<and> agree \<noteq> []
   \<and> http_Upgrade net (\<lambda>_. True) = (\<lambda>q. Ok (pipe (map (Pair BinaryMessage) (if q then [hd packets] else tl packets))))
   \<and> acceptConnections demo_websocket net (fst (Start net ''0.0.0.0:1''
        (NewDirectServer\<lparr>OnConnect := Some (connect_callback demo_lib demo_websocket 0 env chat [])\<rparr>)))
        (\<lparr>identityKeypair = \<lparr>dsa_Public = [], dsa_Private = []\<rparr>, myIDHash = [], relayURL = [], directAddr = [],
          fragmentBuffer = NewFragmentBuffer 9 0\<rparr>,
         \<lparr>w_fs = demo_fs, w_rng = [Some [3], Some [4]], w_stdin = [], w_out = [], w_home = Ok ''/u''\<rparr>)
      = ((cl', w'), [cn1, cn2])
   \<and> (case cn1 of None \<Rightarrow> [] | Some x \<Rightarrow> ws_sent demo_view x) = [] \<and> (case cn2 of None \<Rightarrow> [] | Some x \<Rightarrow> ws_sent demo_view x) = agree"
proof (intro allI)
  fix env :: "pipe \<Rightarrow> session_env" and chat :: "SecureChannel \<Rightarrow> pipe any_conn \<Rightarrow> pipe any_conn cmd"
  let ?cl = "\<lparr>identityKeypair = \<lparr>dsa_Public = [], dsa_Private = []\<rparr>, myIDHash = [], relayURL = [], directAddr = [],
    fragmentBuffer = NewFragmentBuffer 9 0\<rparr>"
  let ?w = "\<lparr>w_fs = demo_fs, w_rng = [Some [3], Some [4]], w_stdin = [], w_out = [], w_home = Ok ''/u''\<rparr>"
  obtain m1 where m1: "HandshakeRequest_Serialize (request_of demo_lib [1]) = Ok m1" using request.ser_total by blast
  obtain m2 where m2: "HandshakeAgree_Serialize (agree_of demo_lib [1] [3] [4]) = Ok m2" using agree.ser_total by blast
  have len: "700 < length m1" "length m1 \<le> 1400"
    using m1 run_sizes [OF demo_laws(1)]
    by (auto simp: HandshakeRequest_wire request_of_def suite_def bytes_of_string_def)
  let ?packets = "message_packets MsgHandshakeRequest 5 m1 700"
  let ?peer = "\<lambda>q. (pipe (map (Pair BinaryMessage) (if q then [hd ?packets] else tl ?packets)))"
  let ?net = "\<lparr>net_Listen = (\<lambda>addr. Ok ()), tls_Listen = (\<lambda>addr cert. Ok ()), tls_LoadX509KeyPair = (\<lambda>x y. Ok ()),
    listener_Close = Ok, http_Serve = (\<lambda>l. [True, False]), http_Upgrade = (\<lambda>check q. Ok (?peer q))\<rparr>"
  have fc: "fragment_count m1 700 = 2"
    using len div_nat_eqI [of 700 2 "length m1 + 699"] by (simp add: fragment_count_def)
  then have two: "length ?packets = 2" by (simp add: length_message_packets)
  then have cut: "[hd ?packets] @ tl ?packets = ?packets" "tl ?packets \<noteq> []"
    by (cases ?packets; force)+
  let ?agree = "message_packets MsgHandshakeAgree (msg_id (env (?peer False)) 0) m2 1400"
  have "0 < length ?agree"
    unfolding length_message_packets [OF run_message_sizes(2) [OF demo_laws(1) m2]]
    by (rule fragment_count_pos) simp
  then have agree: "?agree \<noteq> []" by blast
  have "\<exists>cl' cn1 cn2. acceptConnections demo_websocket ?net (fst (Start ?net ''0.0.0.0:1''
        (NewDirectServer\<lparr>OnConnect := Some (connect_callback demo_lib demo_websocket 0 env chat [])\<rparr>))) (?cl, ?w)
      = ((cl', ?w\<lparr>w_rng := []\<rparr>), [cn1, cn2])
    \<and> (case cn1 of None \<Rightarrow> [] | Some x \<Rightarrow> ws_sent demo_view x) = ws_sent demo_view (?peer True)
    \<and> (case cn2 of None \<Rightarrow> [] | Some x \<Rightarrow> ws_sent demo_view x) = ws_sent demo_view (?peer False) @ ?agree"
    by (rule request_split_over_connections [OF demo_laws(1) demo_ws_laws _ _ _ _ _ _ m1 m2, where m = 700 and ?x1.0 = "?peer True"
          and ?x2.0 = "?peer False" and ?q1.0 = True and ?q2.0 = False and mid = 5 and ?ds1.0 = "[hd ?packets]" and ?ds2.0 = "tl ?packets"])
       (use len fc cut in \<open>simp_all add: NewFragmentBuffer_def\<close>)
  with two agree show "\<exists>packets agree. \<exists>net :: (unit, unit, bool, pipe) network. \<exists>cl' w' cn1 cn2. length packets = 2 \<and> agree \<noteq> []
   \<and> http_Upgrade net (\<lambda>_. True) = (\<lambda>q. Ok (pipe (map (Pair BinaryMessage) (if q then [hd packets] else tl packets))))
   \<and> acceptConnections demo_websocket net (fst (Start net ''0.0.0.0:1''
        (NewDirectServer\<lparr>OnConnect := Some (connect_callback demo_lib demo_websocket 0 env chat [])\<rparr>))) (?cl, ?w)
      = ((cl', w'), [cn1, cn2])
   \<and> (case cn1 of None \<Rightarrow> [] | Some x \<Rightarrow> ws_sent demo_view x) = [] \<and> (case cn2 of None \<Rightarrow> [] | Some x \<Rightarrow> ws_sent demo_view x) = agree"
    by - (rule exI [of _ ?packets], rule exI [of _ ?agree], rule exI [of _ ?net], auto)
qed

end
