(* ===== verification/Spec2Isabelle.thy ===== *)
theory Spec2Isabelle
  imports Commands
begin

text \<open>
  A verification library of the PQC chat tool: a command line program, written in Go, with which
  two people exchange messages over a WebSocket connection, after a key exchange with ML-KEM and
  a mutual proof of identity with signatures.

  \<^bold>\<open>The program\<close>

  \<open>cmd/pqc-chart-tool/main.go\<close> holds the commands and the client. \<open>generate\<close> makes a signature key
  pair and puts it into a key store in the home directory, under a password; \<open>show-id\<close> prints the
  hash by which a peer knows it. \<open>connect\<close> dials a peer or a relay, \<open>server\<close> listens; both then run a
  session: the key exchange of \<open>pkg/protocol/handshake.go\<close>, whose messages \<open>messages.go\<close> encodes and
  \<open>fragment.go\<close> cuts into packets for the connections of \<open>pkg/transport\<close>, and the identity exchange of
  \<open>pkg/identity/verifier.go\<close> under the new session key. What results is a secure channel, over which
  \<open>interactiveChat\<close> sends the lines that are typed and shows those that arrive.

  \<^bold>\<open>The theories\<close>

  \<^item> \<open>Go_Base\<close>, the prelude: Go's results (\<open>res\<close>: a value, an error or a panic), methods that change
    their receiver (\<open>st\<close>, \<open>meth\<close>), byte buffers with Go's bounds checks, big-endian integers, the tape
    of random numbers, association lists for maps. Everything else builds on it.
  \<^item> \<open>Crypto\<close>, package \<open>pkg/crypto\<close>: the wrappers around Go's primitives, function by function.
  \<^item> \<open>Messages\<close>, \<open>pkg/protocol/messages.go\<close>: six message records, their serializers and parsers.
  \<^item> \<open>Fragment\<close>, \<open>pkg/protocol/fragment.go\<close>: the fragment header, \<open>SendFragmented\<close>,
    \<open>ReceiveFragmented\<close>, and the \<open>FragmentBuffer\<close> with its cleanup.
  \<^item> \<open>Handshake\<close>, \<open>pkg/protocol/handshake.go\<close>: the \<open>KEMHandshake\<close> object and its methods; \<open>hs_step\<close> is
    any call of a protocol method.
  \<^item> \<open>Identity\<close>, \<open>pkg/identity/verifier.go\<close>: the \<open>IdentityExchange\<close> object, identity hashes and their
    text form, and \<open>NonceCache\<close>; \<open>ix_step\<close> is any call of a method.
  \<^item> \<open>Store\<close>, \<open>pkg/identity/store.go\<close>: the \<open>KeyStore\<close> over a model of the files it touches, with a
    fault for every operation that may fail, writes that stop half way, and \<open>filepath.Join\<close>.
  \<^item> \<open>Conn\<close>, package \<open>pkg/transport\<close>: \<open>WebSocketConn\<close>, \<open>DirectConn\<close>, \<open>DirectServer\<close> and its accept loop.
  \<^item> \<open>Client\<close>, the first half of \<open>main.go\<close>: \<open>PQCClient\<close> with \<open>Connect\<close>, \<open>Accept\<close>, both
    \<open>performHandshake\<close> functions, and \<open>SecureChannel\<close>. A step of a session works on the connection, the
    client's reassembly buffer and the random numbers, and is an option: \<open>None\<close> is a step that
    never returns.
  \<^item> \<open>Chat\<close>, \<open>interactiveChat\<close>: the reader and the sender of both ends as a step relation with the
    connection's mutex, up to the \<open>Close\<close> their callers have deferred. Elsewhere mutexes only
    serialise methods and are not part of the state.
  \<^item> \<open>Commands\<close>, the second half of \<open>main.go\<close>: \<open>main\<close> and the commands as functions on the \<open>world\<close>
    (files, random numbers, standard input and output), with exit codes and deferred calls.

  Definitions carry the names of the Go functions, with the type in front where two types have a
  method of the same name. Records carry the names of the structs and, as far as these are
  distinct, of their fields.

  \<^bold>\<open>Contracts\<close>

  Five locales state what a component relies on, each interpreted on the model of the code.
  \<open>codec\<close> and \<open>tagged_codec\<close>: a serializer and a parser that undo each other (the six messages and
  the fragment header). \<open>sealed_box\<close>: authenticated encryption (\<open>AESGCMEncrypt\<close> and
  \<open>AESGCMDecrypt\<close>). \<open>transport\<close>: a connection that delivers packets in the order in which they are
  pending and ends in an error when none is left (both connection types, and the interface value
  that holds either); the delivery lemmas of \<open>Fragment\<close> and the session lemmas of \<open>Client\<close> are
  proved once in it. \<open>key_map\<close>: a store with lookup, insertion and deletion of key pairs (the key
  store); its refinement of a map is proved in the locale.

  \<^bold>\<open>What is shown\<close>

  \<^item> The wire: serializing and parsing undo each other, parsers accept exactly what serializers
    write and never panic, a message cut into packets arrives whole in any order of its packets,
    the reassembly buffer does what a map of maps does, and receiving ends once the peer falls
    silent, because of the read deadline, but not while it repeats a fragment.
  \<^item> The key exchange: two parties that follow it agree on a key of 32 bytes; in every reachable
    object a key can be derived exactly in the established state; which method moves which state.
  \<^item> Authentication: whoever gets a channel, as initiator or responder, has in that very run ended
    a key exchange with the channel's key, received a public key that hashes to the expected
    identity, sent a challenge made from fresh random draws, and received a valid signature under
    that public key over the challenge, the channel binding and the key.
  \<^item> Sessions: \<open>Connect\<close> and \<open>Accept\<close> return once the peer falls silent. Two clients of this
    program do not get a channel: the identity travels unframed, and the other side takes it for
    a fragment (unless its nonce starts with the bytes 0, 1, a case left out); the signature is
    checked over other bytes than are signed, and the bindings differ. Against a peer that
    differs in these points both functions succeed.
  \<^item> The chat: what is printed at one end is what was typed at the other; the mutex keeps the
    goroutines apart, and can keep both ends waiting for each other until the read deadline.
  \<^item> The key store: it implements a map from names to key pairs across reopening; what a save that
    fails half way, for any reason, and an unusual key name do.
  \<^item> The commands: an identity survives from \<open>generate\<close> to \<open>show-id\<close>, which address is dialled, how a
    pass phrase is read, and that the connections of a server share one reassembly buffer.
  \<^item> Limits: 16-bit lengths and fragment counts that wrap, sizes that are checked with less-than,
    fragments with stray indices, a cleanup that spares no live message.

  \<^bold>\<open>Parameters and bounds\<close>

  Code outside the repository is a parameter with named laws, each satisfied by an instance that
  the witnesses compute with: Go's cryptography (\<open>crypto_lib\<close> with \<open>kem_laws\<close>, \<open>aead_laws\<close>,
  \<open>sig_laws\<close>, \<open>hash_laws\<close>, of which only correctness and sizes are assumed, never secrecy), the
  WebSocket package (\<open>websocket\<close> with \<open>ws_laws\<close>), the network and the HTTP server (\<open>network\<close>), the
  dialer, and the flag parser. The clock, the iteration order of Go maps and message identifiers
  are arguments. The laws of the WebSocket package include its blocking read: on an empty
  connection without a read deadline it never returns (\<open>None\<close>), with one it fails. No loop is bounded
  by fuel: the receive loop is a \<open>partial_function\<close> that is shown to return on every connection that
  is up, by induction on the packets that are pending, and the loop of \<open>SHAKE256\<close> has a measure. The 65536 fragments, 100 buffered messages and 64 KiB
  lines that appear in hypotheses are the limits of the code.

  \<^bold>\<open>Not modelled\<close>

  Log output and prompts of the chat. Memory outside the slice that \<open>SecureClear\<close> is given, and
  the sharing of spare slice capacity. Permissions and symbolic links of files. Text outside
  ASCII in \<open>ToLower\<close> and in the password. Requests that a server handles at the same time: the
  accept loop runs one handler after the other. The inside of \<open>pflag\<close>, of the WebSocket package
  and of the HTTP server. The unit tests in \<open>pkg/crypto/crypto_test.go\<close>.
\<close>

end
